(* ===== verification/Api_Types.thy ===== *)
theory Api_Types
  imports Outcall_Prelude
begin

text \<open>
  Shared protocol types of the workspace (crate outcall-api): rule actions and decisions, the
  request context a rule condition is evaluated on, and the validators of identifiers that both the
  CLI and the daemon use. Field names carry a short prefix of their struct, since HOL record fields
  share one name space.
\<close>

type_synonym u16 = "16 word"
type_synonym u32 = "32 word"
type_synonym u64 = "64 word"

section \<open>Rules and decisions (outcall-api/src/rules.rs)\<close>

datatype rule_action = Rule_Allow | Rule_Block | Rule_Enrich

datatype decision = Allow | Block

record evaluate_result =
  er_decision :: decision
  er_matched_rule :: "string option"
  er_file :: "string option"
  er_logged :: bool

definition MAX_RULE_ID_BYTES :: nat where
  "MAX_RULE_ID_BYTES = 128"

text \<open>The characters after the first one in rule identifiers and container names.\<close>

definition is_id_tail_char :: "char \<Rightarrow> bool" where
  "is_id_tail_char c \<longleftrightarrow>
     is_ascii_alphanumeric c \<or> c = CHR ''_'' \<or> c = CHR ''.'' \<or> c = CHR ''-''"

definition valid_rule_id :: "string \<Rightarrow> bool" where
  "valid_rule_id value \<longleftrightarrow>
     length value \<le> MAX_RULE_ID_BYTES
     \<and> (case value of [] \<Rightarrow> False
        | c # cs \<Rightarrow> is_ascii_alphanumeric c \<and> list_all is_id_tail_char cs)"

section \<open>Evaluation contexts\<close>

text \<open>
  \<open>serde_json::Value\<close>: the daemon builds strings and objects; any other value is kept as its text.
\<close>

datatype json = JString string | JObject "(string \<times> json) list" | JOther string

record network_context =
  net_hostname :: "string option"
  net_ip :: string
  net_port :: u16
  net_protocol :: string

record http_context =
  http_method :: string
  http_path :: string
  http_host :: string
  http_headers :: "(string \<times> string) list"
  http_body_size :: u64

record dns_context =
  dns_query :: string
  dns_record_type :: string

record docker_context =
  dk_image :: string
  dk_command :: "string list"
  dk_volumes :: "string list"
  dk_env_keys :: "string list"
  dk_capabilities :: "string list"

record run_context =
  run_tool :: string
  run_args :: "string list"
  run_flags :: "string list"
  run_cwd :: string
  run_ctx :: "(string \<times> json) list"

record agent_context =
  ag_name :: string

record eval_context =
  ev_network :: "network_context option"
  ev_http :: "http_context option"
  ev_dns :: "dns_context option"
  ev_docker :: "docker_context option"
  ev_run :: "run_context option"
  ev_agent :: "agent_context option"

text \<open>The derived \<open>Default\<close> instances.\<close>

definition default_network_context :: network_context where
  "default_network_context =
     \<lparr>net_hostname = None, net_ip = '''', net_port = 0, net_protocol = ''''\<rparr>"

definition default_http_context :: http_context where
  "default_http_context =
     \<lparr>http_method = '''', http_path = '''', http_host = '''', http_headers = [],
      http_body_size = 0\<rparr>"

definition default_dns_context :: dns_context where
  "default_dns_context = \<lparr>dns_query = '''', dns_record_type = ''''\<rparr>"

definition default_docker_context :: docker_context where
  "default_docker_context =
     \<lparr>dk_image = '''', dk_command = [], dk_volumes = [], dk_env_keys = [], dk_capabilities = []\<rparr>"

definition default_run_context :: run_context where
  "default_run_context =
     \<lparr>run_tool = '''', run_args = [], run_flags = [], run_cwd = '''', run_ctx = []\<rparr>"

definition default_agent_context :: agent_context where
  "default_agent_context = \<lparr>ag_name = ''''\<rparr>"

definition default_eval_context :: eval_context where
  "default_eval_context =
     \<lparr>ev_network = None, ev_http = None, ev_dns = None, ev_docker = None, ev_run = None,
      ev_agent = None\<rparr>"

section \<open>Containers (outcall-api/src/container.rs)\<close>

definition MIN_MEMORY_LIMIT :: int where
  "MIN_MEMORY_LIMIT = 6 * 1024 * 1024"

definition MIN_CPU_SHARES :: int where
  "MIN_CPU_SHARES = 2"

definition MAX_CPU_SHARES :: int where
  "MAX_CPU_SHARES = 262144"

definition MAX_STOP_TIMEOUT_SECS :: int where
  "MAX_STOP_TIMEOUT_SECS = 300"

definition MAX_CONTAINER_NAME_BYTES :: nat where
  "MAX_CONTAINER_NAME_BYTES = 128"

definition valid_memory_limit :: "int \<Rightarrow> bool" where
  "valid_memory_limit value \<longleftrightarrow> MIN_MEMORY_LIMIT \<le> value"

definition valid_cpu_shares :: "int \<Rightarrow> bool" where
  "valid_cpu_shares value \<longleftrightarrow> MIN_CPU_SHARES \<le> value \<and> value \<le> MAX_CPU_SHARES"

definition valid_stop_timeout :: "int \<Rightarrow> bool" where
  "valid_stop_timeout value \<longleftrightarrow> 0 \<le> value \<and> value \<le> MAX_STOP_TIMEOUT_SECS"

definition valid_container_name :: "string \<Rightarrow> bool" where
  "valid_container_name value \<longleftrightarrow>
     length value \<le> MAX_CONTAINER_NAME_BYTES
     \<and> (case value of [] \<Rightarrow> False
        | c # cs \<Rightarrow> is_ascii_alphanumeric c \<and> list_all is_id_tail_char cs)"

definition valid_container_user :: "string \<Rightarrow> bool" where
  "valid_container_user value =
     (case split_once CHR '':'' value of
        None \<Rightarrow> False
      | Some (uid, gid) \<Rightarrow>
          uid \<noteq> [] \<and> gid \<noteq> [] \<and> CHR '':'' \<notin> set gid
          \<and> list_all is_ascii_digit uid \<and> list_all is_ascii_digit gid
          \<and> (case parse_u32 uid of None \<Rightarrow> False | Some n \<Rightarrow> n \<noteq> 0)
          \<and> (case parse_u32 gid of None \<Rightarrow> False | Some n \<Rightarrow> n \<noteq> 0))"

section \<open>Facts\<close>

text \<open>A valid identifier is one path component and one HTTP header value: no separator, no control
  byte, no leading dot or dash.\<close>

lemma id_tail_char_safe:
  "is_id_tail_char c \<or> is_ascii_alphanumeric c \<Longrightarrow>
     c \<noteq> CHR ''/'' \<and> 32 < byte c \<and> byte c < 127"
  by (auto simp: is_id_tail_char_def is_ascii_alphanumeric_def is_ascii_digit_def
      is_ascii_upper_def is_ascii_lower_def)

lemma valid_rule_id_safe:
  assumes "valid_rule_id value"
  shows "value \<noteq> [] \<and> CHR ''/'' \<notin> set value \<and> (\<forall>c \<in> set value. 32 < byte c \<and> byte c < 127)
    \<and> length value \<le> 128"
  using assms id_tail_char_safe
  by (auto simp: valid_rule_id_def MAX_RULE_ID_BYTES_def list_all_iff split: list.splits)

lemma valid_container_name_iff_rule_id: "valid_container_name value \<longleftrightarrow> valid_rule_id value"
  by (simp add: valid_container_name_def valid_rule_id_def MAX_CONTAINER_NAME_BYTES_def
      MAX_RULE_ID_BYTES_def)

end
