(* ===== verification/Ip_Address.thy ===== *)
theory Ip_Address
  imports Api_Types
begin

unbundle bit_operations_syntax

text \<open>
  IP addresses of the standard library (\<open>std::net\<close>) and the address policy of the daemon
  (outcalld/src/address\_policy.rs), which decides the upstream addresses a resolver answer or a
  proxied connection may not reach. An IPv4 address is a 32-bit word, an IPv6 address its eight
  16-bit segments.
\<close>

section \<open>Addresses of the standard library\<close>

type_synonym ipv4 = "32 word"

text \<open>\<open>Ipv4Addr::octets\<close>, most significant first.\<close>

definition octet :: "nat \<Rightarrow> ipv4 \<Rightarrow> nat" where
  "octet i a = unat a div 256 ^ (3 - i) mod 256"

definition ipv4_new :: "nat \<Rightarrow> nat \<Rightarrow> nat \<Rightarrow> nat \<Rightarrow> ipv4" where
  "ipv4_new a b c d = of_nat (((a * 256 + b) * 256 + c) * 256 + d)"

text \<open>\<open>Display\<close> and \<open>FromStr\<close>: four decimal numbers below 256 of at most three digits without a
  superfluous leading zero.\<close>

definition show_ipv4 :: "ipv4 \<Rightarrow> string" where
  "show_ipv4 a = join_with CHR ''.'' (map (\<lambda>i. show_nat (octet i a)) [0, 1, 2, 3])"

definition parse_octet :: "string \<Rightarrow> nat option" where
  "parse_octet s =
     (if s \<noteq> [] \<and> length s \<le> 3 \<and> list_all is_ascii_digit s
         \<and> (1 < length s \<longrightarrow> hd s \<noteq> CHR ''0'') \<and> digits_value s \<le> 255
      then Some (digits_value s) else None)"

definition parse_ipv4 :: "string \<Rightarrow> ipv4 option" where
  "parse_ipv4 s =
     (case map parse_octet (split_on CHR ''.'' s) of
        [Some a, Some b, Some c, Some d] \<Rightarrow> Some (ipv4_new a b c d)
      | _ \<Rightarrow> None)"

datatype ipv6 = Ipv6 u16 u16 u16 u16 u16 u16 u16 u16

fun segments :: "ipv6 \<Rightarrow> u16 list" where
  "segments (Ipv6 a b c d e f g h) = [a, b, c, d, e, f, g, h]"

definition ipv6_unspecified :: ipv6 where
  "ipv6_unspecified = Ipv6 0 0 0 0 0 0 0 0"

definition ipv6_loopback :: ipv6 where
  "ipv6_loopback = Ipv6 0 0 0 0 0 0 0 1"

datatype ip_addr = V4 ipv4 | V6 ipv6

text \<open>\<open>u16::to_be_bytes\<close>\<close>

definition to_be_bytes :: "u16 \<Rightarrow> nat list" where
  "to_be_bytes w = [unat w div 256, unat w mod 256]"

section \<open>address\_policy.rs\<close>

definition is_restricted_v4 :: "ipv4 \<Rightarrow> bool" where
  "is_restricted_v4 address =
     (let first = octet 0 address; second = octet 1 address;
          third = octet 2 address; fourth = octet 3 address
      in first = 0
       \<or> first = 10
       \<or> first = 127
       \<or> first = 100 \<and> 64 \<le> second \<and> second \<le> 127
       \<or> first = 169 \<and> second = 254
       \<or> first = 172 \<and> 16 \<le> second \<and> second \<le> 31
       \<or> first = 192 \<and> second = 168
       \<or> first = 192 \<and> second = 0 \<and> third = 0 \<and> \<not> (fourth = 9 \<or> fourth = 10)
       \<or> first = 192 \<and> second = 0 \<and> third = 2
       \<or> first = 192 \<and> second = 88 \<and> third = 99
       \<or> first = 198 \<and> (second = 18 \<or> second = 19)
       \<or> first = 198 \<and> second = 51 \<and> third = 100
       \<or> first = 203 \<and> second = 0 \<and> third = 113
       \<or> 224 \<le> first \<and> first \<le> 239
       \<or> 240 \<le> first)"

definition is_ipv4_mapped_or_compatible :: "u16 list \<Rightarrow> bool" where
  "is_ipv4_mapped_or_compatible s \<longleftrightarrow>
     take 5 s = [0, 0, 0, 0, 0]
     \<and> (s ! 5 = 0 \<or> s ! 5 = 0xffff)
     \<and> (s ! 6 \<noteq> 0 \<or> s ! 7 > 1)"

definition embedded_v4 :: "u16 \<Rightarrow> u16 \<Rightarrow> ipv4" where
  "embedded_v4 high low =
     (let high = to_be_bytes high; low = to_be_bytes low
      in ipv4_new (high ! 0) (high ! 1) (low ! 0) (low ! 1))"

definition restricted_nat64_embedded_v4 :: "u16 list \<Rightarrow> bool" where
  "restricted_nat64_embedded_v4 s =
     (if take 6 s \<noteq> [0x0064, 0xff9b, 0, 0, 0, 0] then False
      else is_restricted_v4 (embedded_v4 (s ! 6) (s ! 7)))"

definition restricted_6to4_embedded_v4 :: "u16 list \<Rightarrow> bool" where
  "restricted_6to4_embedded_v4 s \<longleftrightarrow>
     s ! 0 = 0x2002 \<and> is_restricted_v4 (embedded_v4 (s ! 1) (s ! 2))"

definition is_restricted_v6 :: "ipv6 \<Rightarrow> bool" where
  "is_restricted_v6 address =
     (let s = segments address
      in address = ipv6_unspecified
       \<or> address = ipv6_loopback
       \<or> s ! 0 AND 0xffc0 = 0xfe80
       \<or> s ! 0 AND 0xfe00 = 0xfc00
       \<or> s ! 0 AND 0xffc0 = 0xfec0
       \<or> s ! 0 AND 0xff00 = 0xff00
       \<or> s ! 0 = 0x2001 \<and> s ! 1 = 0x0db8
       \<or> s ! 0 = 0x2001 \<and> s ! 1 = 0
       \<or> is_ipv4_mapped_or_compatible s
       \<or> restricted_nat64_embedded_v4 s
       \<or> restricted_6to4_embedded_v4 s)"

fun is_restricted :: "ip_addr \<Rightarrow> bool" where
  "is_restricted (V4 address) = is_restricted_v4 address"
| "is_restricted (V6 address) = is_restricted_v6 address"

section \<open>Printing and parsing addresses\<close>

lemma unat_ipv4_less: "unat (a :: ipv4) < 2 ^ 32"
  using unsigned_less [of a] by simp

lemma octet_less: "octet i a < 256"
  by (simp add: octet_def)

lemma octet_simps:
  "octet 0 a = unat a div 2 ^ 24" "octet 1 a = unat a div 2 ^ 16 mod 256"
  "octet 2 a = unat a div 2 ^ 8 mod 256" "octet 3 a = unat a mod 256"
  using unat_ipv4_less [of a] by (simp_all add: octet_def)

lemma octets_value:
  "unat a = ((octet 0 a * 256 + octet 1 a) * 256 + octet 2 a) * 256 + octet 3 a"
proof -
  have "unat a div 65536 = unat a div 256 div 256"
    "unat a div 16777216 = unat a div 256 div 256 div 256"
    by (simp_all flip: div_mult2_eq)
  then show ?thesis unfolding octet_simps by simp
qed

lemma ipv4_new_octets: "ipv4_new (octet 0 a) (octet 1 a) (octet 2 a) (octet 3 a) = a"
  unfolding ipv4_new_def octets_value [symmetric] by simp

lemma show_nat_octet_length: "n < 256 \<Longrightarrow> length (show_nat n) \<le> 3"
  by (subst show_nat.simps, subst show_nat.simps, subst show_nat.simps) (simp)

lemma show_nat_leading_zero:
  assumes "1 < length (show_nat n)"
  shows "hd (show_nat n) \<noteq> CHR ''0''"
  using assms
proof (induction n rule: show_nat.induct)
  case (1 n)
  show ?case
  proof (cases "n < 100")
    case True
    with 1 have "10 \<le> n" by (subst (asm) (2) show_nat.simps) (auto split: if_splits)
    have "hd (show_nat n) = char_of (48 + n div 10)"
      using True \<open>10 \<le> n\<close> by (subst show_nat.simps, subst show_nat.simps) auto
    moreover have "byte (char_of (48 + n div 10)) \<noteq> byte CHR ''0''"
      using True \<open>10 \<le> n\<close> by simp
    ultimately show ?thesis by metis
  next
    case False
    then have "1 < length (show_nat (n div 10))"
      by (subst show_nat.simps) auto
    with 1 False show ?thesis by (subst show_nat.simps) simp
  qed
qed

lemma parse_octet_show: "n < 256 \<Longrightarrow> parse_octet (show_nat n) = Some n"
  using show_nat_octet_length [of n] show_nat_digits [of n] show_nat_leading_zero [of n]
  by (simp add: parse_octet_def digits_value_show_nat)

lemma show_nat_no_sep: "\<not> is_ascii_digit c \<Longrightarrow> c \<notin> set (show_nat n)"
  using show_nat_digits [of n] by (auto simp: list_all_iff)

lemma parse_show_ipv4: "parse_ipv4 (show_ipv4 a) = Some a"
proof -
  have "split_on CHR ''.'' (show_ipv4 a) = map (\<lambda>i. show_nat (octet i a)) [0, 1, 2, 3]"
    unfolding show_ipv4_def
    by (rule split_on_join) (auto simp: show_nat_no_sep is_ascii_digit_def)
  then show ?thesis
    using ipv4_new_octets [of a] by (simp add: parse_ipv4_def parse_octet_show octet_less)
qed

section \<open>IPv6 addresses as text\<close>

text \<open>
  \<open>FromStr\<close> of \<open>Ipv6Addr\<close>: groups of one to four hexadecimal digits separated by colons, one
  \<open>::\<close> for a run of zeros, and an IPv4 address in place of the last two groups.
\<close>

definition hex_value :: "char \<Rightarrow> nat option" where
  "hex_value c =
     (if is_ascii_digit c then Some (byte c - 48)
      else if 97 \<le> byte c \<and> byte c \<le> 102 then Some (byte c - 87)
      else if 65 \<le> byte c \<and> byte c \<le> 70 then Some (byte c - 55)
      else None)"

definition read_group :: "string \<Rightarrow> (nat \<times> string) option" where
  "read_group s =
     (let ds = takeWhile (\<lambda>c. hex_value c \<noteq> None) s
      in if ds = [] \<or> 4 < length ds then None
         else Some (foldl (\<lambda>n c. n * 16 + the (hex_value c)) 0 ds, drop (length ds) s))"

text \<open>
  \<open>read_groups\<close>: at most \<open>limit\<close> groups; an embedded IPv4 address ends the text, so it is parsed
  from everything that is left. The result is the groups, whether they end in an IPv4 address, and
  the rest of the text.
\<close>

definition after_separator :: "nat \<Rightarrow> string \<Rightarrow> string option" where
  "after_separator i s = (if i = 0 then Some s else strip_prefix '':'' s)"

fun read_groups :: "nat \<Rightarrow> nat \<Rightarrow> string \<Rightarrow> nat list \<times> bool \<times> string" where
  "read_groups 0 i s = ([], False, s)"
| "read_groups (Suc left) i s =
     (case after_separator i s of
        None \<Rightarrow> ([], False, s)
      | Some rest \<Rightarrow>
          (case (if 0 < left then parse_ipv4 rest else None) of
             Some a \<Rightarrow> ([unat a div 65536, unat a mod 65536], True, [])
           | None \<Rightarrow>
               (case read_group rest of
                  None \<Rightarrow> ([], False, s)
                | Some (g, rest') \<Rightarrow>
                    (case read_groups left (Suc i) rest' of
                       (gs, v4, final) \<Rightarrow> (g # gs, v4, final)))))"

fun ipv6_of_groups :: "nat list \<Rightarrow> ipv6 option" where
  "ipv6_of_groups [a, b, c, d, e, f, g, h] =
     Some (Ipv6 (of_nat a) (of_nat b) (of_nat c) (of_nat d) (of_nat e) (of_nat f) (of_nat g) (of_nat h))"
| "ipv6_of_groups _ = None"

definition parse_ipv6 :: "string \<Rightarrow> ipv6 option" where
  "parse_ipv6 s =
     (case read_groups 8 0 s of
        (head, v4, rest) \<Rightarrow>
          if length head = 8 then (if rest = [] then ipv6_of_groups head else None)
          else if v4 then None
          else (case strip_prefix ''::'' rest of
                  None \<Rightarrow> None
                | Some after \<Rightarrow>
                    (case read_groups (7 - length head) 0 after of
                       (tail, _, final) \<Rightarrow>
                         if final = []
                         then ipv6_of_groups (head @ replicate (8 - length head - length tail) 0 @ tail)
                         else None)))"

definition parse_ip :: "string \<Rightarrow> ip_addr option" where
  "parse_ip s =
     (case parse_ipv4 s of Some a \<Rightarrow> Some (V4 a) | None \<Rightarrow> map_option V6 (parse_ipv6 s))"

text \<open>
  \<open>Display\<close> of \<open>Ipv6Addr\<close>: an IPv4-mapped address in dotted form; otherwise lower-case hexadecimal
  groups in which the first longest run of at least two zero groups is written \<open>::\<close>.
\<close>

definition hex_digit :: "nat \<Rightarrow> char" where
  "hex_digit n = (if n < 10 then char_of (48 + n) else char_of (87 + n))"

fun show_hex :: "nat \<Rightarrow> string" where
  "show_hex n = (if n < 16 then [hex_digit n] else show_hex (n div 16) @ [hex_digit (n mod 16)])"

declare show_hex.simps [simp del]

text \<open>The start and length of the first longest run of zeros.\<close>

fun longest_zeros :: "u16 list \<Rightarrow> nat \<Rightarrow> nat \<times> nat \<Rightarrow> nat \<times> nat \<Rightarrow> nat \<times> nat" where
  "longest_zeros [] i cur best = best"
| "longest_zeros (g # gs) i (start, len) best =
     (if g = 0
      then (let start' = (if len = 0 then i else start); len' = Suc len
            in longest_zeros gs (Suc i) (start', len')
                 (if snd best < len' then (start', len') else best))
      else longest_zeros gs (Suc i) (0, 0) best)"

definition show_groups :: "u16 list \<Rightarrow> string" where
  "show_groups gs = join_with CHR '':'' (map (\<lambda>g. show_hex (unat g)) gs)"

definition show_ipv6 :: "ipv6 \<Rightarrow> string" where
  "show_ipv6 a =
     (let s = segments a
      in if take 6 s = [0, 0, 0, 0, 0, 0xffff]
         then ''::ffff:'' @ show_ipv4 (embedded_v4 (s ! 6) (s ! 7))
         else (case longest_zeros s 0 (0, 0) (0, 0) of
                 (start, len) \<Rightarrow>
                   if 1 < len
                   then show_groups (take start s) @ ''::'' @ show_groups (drop (start + len) s)
                   else show_groups s))"

fun show_ip :: "ip_addr \<Rightarrow> string" where
  "show_ip (V4 a) = show_ipv4 a"
| "show_ip (V6 a) = show_ipv6 a"

fun is_ipv6 :: "ip_addr \<Rightarrow> bool" where
  "is_ipv6 (V4 a) = False"
| "is_ipv6 (V6 a) = True"

lemma parse_ip_show_ipv4 [simp]: "parse_ip (show_ipv4 a) = Some (V4 a)"
  by (simp add: parse_ip_def parse_show_ipv4)

section \<open>Embedded IPv4 addresses\<close>

text \<open>
  The four notations that carry an IPv4 address inside an IPv6 address: IPv4-compatible
  (\<open>::a.b.c.d\<close>), IPv4-mapped (\<open>::ffff:a.b.c.d\<close>), the NAT64 prefix (\<open>64:ff9b::a.b.c.d\<close>) and 6to4
  (\<open>2002:ab:cd:..\<close>).
\<close>

definition high16 :: "ipv4 \<Rightarrow> u16" where
  "high16 a = of_nat (unat a div 65536)"

definition low16 :: "ipv4 \<Rightarrow> u16" where
  "low16 a = of_nat (unat a mod 65536)"

definition ipv4_compatible :: "ipv4 \<Rightarrow> ipv6" where
  "ipv4_compatible a = Ipv6 0 0 0 0 0 0 (high16 a) (low16 a)"

definition ipv4_mapped :: "ipv4 \<Rightarrow> ipv6" where
  "ipv4_mapped a = Ipv6 0 0 0 0 0 0xffff (high16 a) (low16 a)"

definition nat64 :: "ipv4 \<Rightarrow> ipv6" where
  "nat64 a = Ipv6 0x0064 0xff9b 0 0 0 0 (high16 a) (low16 a)"

fun six_to_four :: "ipv4 \<Rightarrow> u16 list \<Rightarrow> ipv6" where
  "six_to_four a rest =
     Ipv6 0x2002 (high16 a) (low16 a) (rest ! 0) (rest ! 1) (rest ! 2) (rest ! 3) (rest ! 4)"

lemma unat_high16: "unat (high16 a) = unat a div 65536"
proof -
  have "unat a div 65536 < 2 ^ 16" using unat_ipv4_less [of a] by simp
  then show ?thesis by (simp add: high16_def unat_of_nat)
qed

lemma unat_low16: "unat (low16 a) = unat a mod 65536"
  by (simp add: low16_def unat_of_nat)

lemma embedded_v4_halves: "embedded_v4 (high16 a) (low16 a) = a"
proof -
  have "unat a div 65536 div 256 = octet 0 a" "unat a div 65536 mod 256 = octet 1 a"
    "unat a mod 65536 div 256 = octet 2 a" "unat a mod 65536 mod 256 = octet 3 a"
    unfolding octet_simps using mod_mult2_eq [of "unat a" 256 256]
    by (simp_all add: div_mult2_eq [symmetric] mod_mod_cancel)
  then show ?thesis
    using ipv4_new_octets [of a]
    by (simp add: embedded_v4_def to_be_bytes_def unat_high16 unat_low16)
qed

lemma halves_zero_one:
  "high16 a = 0 \<and> \<not> low16 a > 1 \<longleftrightarrow> a = 0 \<or> a = 1"
proof -
  have "high16 a = 0 \<longleftrightarrow> unat a < 65536"
    using unat_high16 [of a] by (simp add: unat_eq_zero [symmetric] div_eq_0_iff)
  moreover have "\<not> low16 a > 1 \<longleftrightarrow> unat a mod 65536 \<le> 1"
    by (simp add: unat_low16 not_less word_le_nat_alt)
  moreover have "a = 0 \<or> a = 1 \<longleftrightarrow> unat a \<le> 1"
    by (simp add: word_unat_eq_iff le_Suc_eq)
  ultimately show ?thesis by auto
qed

lemmas restricted_v6_defs = is_restricted_v6_def Let_def ipv6_unspecified_def ipv6_loopback_def
  is_ipv4_mapped_or_compatible_def restricted_nat64_embedded_v4_def
  restricted_6to4_embedded_v4_def

lemma mapped_restricted_iff: "is_restricted_v6 (ipv4_mapped a) \<longleftrightarrow> a \<noteq> 0 \<and> a \<noteq> 1"
  using halves_zero_one [of a] by (simp add: restricted_v6_defs ipv4_mapped_def) blast

lemma compatible_restricted: "is_restricted_v6 (ipv4_compatible a)"
proof (cases "a = 0 \<or> a = 1")
  case True
  then show ?thesis
    by (auto simp: is_restricted_v6_def Let_def ipv4_compatible_def ipv6_unspecified_def
        ipv6_loopback_def high16_def low16_def)
next
  case False
  then show ?thesis
    using halves_zero_one [of a] by (simp add: restricted_v6_defs ipv4_compatible_def)
qed

lemma nat64_restricted_iff: "is_restricted_v6 (nat64 a) \<longleftrightarrow> is_restricted_v4 a"
  by (simp add: restricted_v6_defs nat64_def embedded_v4_halves)

lemma six_to_four_restricted_iff: "is_restricted_v6 (six_to_four a rest) \<longleftrightarrow> is_restricted_v4 a"
  by (simp add: restricted_v6_defs embedded_v4_halves)

section \<open>Property\<close>

text \<open>
  C37: An IPv4 address cannot be smuggled past the policy inside an IPv6 one, with two exceptions.
  A NAT64 or a 6to4 address is restricted exactly when the IPv4 address in it is, every
  IPv4-compatible address is restricted, and an IPv4-mapped address is restricted unless the
  address in it is 0.0.0.0 or 0.0.0.1, although both are restricted as IPv4 addresses: the test
  that keeps \<open>::\<close> and \<open>::1\<close> out of the IPv4-compatible case is applied to the mapped prefix too.
\<close>

theorem embedded_addresses:
  "(is_restricted (V6 (nat64 a)) \<longleftrightarrow> is_restricted (V4 a))
   \<and> (is_restricted (V6 (six_to_four a rest)) \<longleftrightarrow> is_restricted (V4 a))
   \<and> is_restricted (V6 (ipv4_compatible a))
   \<and> (is_restricted (V6 (ipv4_mapped a)) \<longleftrightarrow> a \<noteq> 0 \<and> a \<noteq> 1)
   \<and> is_restricted (V4 0) \<and> is_restricted (V4 1)"
  using nat64_restricted_iff six_to_four_restricted_iff compatible_restricted mapped_restricted_iff
  by (simp add: is_restricted_v4_def octet_simps)

end
