(* ===== verification/Net_Cidr.thy ===== *)
theory Net_Cidr
  imports Ip_Address
begin

text \<open>
  IPv4 networks (outcalld/src/network_cidr.rs, outcalld/src/network/allocation.rs): validation of
  subnet blocks, agent subnets and gateways, and allocation of a free /24. The crate ipnet is not part of the repository: its operations are the record
  \<open>ipnet_ops\<close>, a parameter of the model, and the locale \<open>ipnet\<close> states what its documentation
  promises about them.
\<close>

record 'n ipnet_ops =
  net4_parse :: "string \<Rightarrow> 'n option"
  net_parse :: "string \<Rightarrow> 'n option option"
  net4_addr :: "'n \<Rightarrow> ipv4"
  net4_network :: "'n \<Rightarrow> ipv4"
  net4_broadcast :: "'n \<Rightarrow> ipv4"
  net4_prefix_len :: "'n \<Rightarrow> nat"
  net4_contains :: "'n \<Rightarrow> ipv4 \<Rightarrow> bool"
  net4_trunc :: "'n \<Rightarrow> 'n"

datatype rfc1918 = Ten | OneSeventyTwo | OneNinetyTwo

datatype 'n cidr_error =
    Invalid_Cidr string string
  | Not_Network_Address string string
  | Block_Too_Small nat
  | Subnet_Too_Small nat
  | Not_Private 'n string
  | Invalid_Docker_Subnet string
  | Invalid_Gateway string
  | Gateway_Outside ipv4 'n
  | Gateway_Not_Usable ipv4 'n
  | Docker_List_Failed string
  | No_Subnet_Available 'n
  | Subnet_In_Use 'n

section \<open>network\_cidr.rs\<close>

definition private_range :: "ipv4 \<Rightarrow> rfc1918 option" where
  "private_range address =
     (if octet 0 address = 10 then Some Ten
      else if octet 0 address = 172 \<and> 16 \<le> octet 1 address \<and> octet 1 address \<le> 31
      then Some OneSeventyTwo
      else if octet 0 address = 192 \<and> octet 1 address = 168 then Some OneNinetyTwo
      else None)"

definition parse_ipv4_network ::
  "'n ipnet_ops \<Rightarrow> string \<Rightarrow> string \<Rightarrow> ('n cidr_error, 'n) result" where
  "parse_ipv4_network ops cidr kind =
     (case net4_parse ops cidr of
        None \<Rightarrow> Inl (Invalid_Cidr kind cidr)
      | Some network \<Rightarrow>
          if net4_addr ops network \<noteq> net4_network ops network
          then Inl (Not_Network_Address kind cidr) else Inr network)"

definition require_private_network ::
  "'n ipnet_ops \<Rightarrow> 'n \<Rightarrow> string \<Rightarrow> ('n cidr_error, unit) result" where
  "require_private_network ops network kind =
     (let start = private_range (net4_network ops network);
          finish = private_range (net4_broadcast ops network)
      in if start = None \<or> start \<noteq> finish then Inl (Not_Private network kind) else Inr ())"

definition allocation_block_parse :: "'n ipnet_ops \<Rightarrow> string \<Rightarrow> ('n cidr_error, 'n) result" where
  "allocation_block_parse ops cidr =
     res_bind (parse_ipv4_network ops cidr ''subnet block'') (\<lambda>network.
     if 24 < net4_prefix_len ops network then Inl (Block_Too_Small (net4_prefix_len ops network))
     else res_bind (require_private_network ops network ''subnet block'') (\<lambda>_. Inr network))"

text \<open>\<open>1u32 << (24 - prefix)\<close> and \<open>base + (offset << 8)\<close> at their width.\<close>

definition iter_24 :: "'n ipnet_ops \<Rightarrow> 'n \<Rightarrow> (ipv4 \<times> ipv4) list" where
  "iter_24 ops block =
     (let count = push_bit (24 - net4_prefix_len ops block) (1 :: u32);
          base = net4_network ops block
      in map (\<lambda>k. let offset = of_nat k :: u32; network = base + push_bit 8 offset
                  in (network, network + 1)) [0..<unat count])"

definition first_subnet :: "'n ipnet_ops \<Rightarrow> 'n \<Rightarrow> string \<times> string" where
  "first_subnet ops block =
     (let network = net4_network ops block
      in (show_ipv4 network @ ''/24'', show_ipv4 (network + 1)))"

definition contains_allocated_subnet :: "'n ipnet_ops \<Rightarrow> 'n \<Rightarrow> 'n \<Rightarrow> bool" where
  "contains_allocated_subnet ops block subnet \<longleftrightarrow>
     net4_prefix_len ops subnet = 24
     \<and> net4_contains ops block (net4_network ops subnet)
     \<and> net4_contains ops block (net4_broadcast ops subnet)"

definition parse_agent_subnet :: "'n ipnet_ops \<Rightarrow> string \<Rightarrow> ('n cidr_error, 'n) result" where
  "parse_agent_subnet ops cidr =
     res_bind (parse_ipv4_network ops cidr ''agent subnet'') (\<lambda>network.
     if 30 < net4_prefix_len ops network then Inl (Subnet_Too_Small (net4_prefix_len ops network))
     else res_bind (require_private_network ops network ''agent subnet'') (\<lambda>_. Inr network))"

definition parse_docker_subnet :: "'n ipnet_ops \<Rightarrow> string \<Rightarrow> ('n cidr_error, 'n option) result" where
  "parse_docker_subnet ops cidr =
     (case net_parse ops cidr of
        None \<Rightarrow> Inl (Invalid_Docker_Subnet cidr)
      | Some (Some network) \<Rightarrow> Inr (Some (net4_trunc ops network))
      | Some None \<Rightarrow> Inr None)"

definition resolve_gateway ::
  "'n ipnet_ops \<Rightarrow> 'n \<Rightarrow> string option \<Rightarrow> ('n cidr_error, string) result" where
  "resolve_gateway ops subnet gateway =
     res_bind
       (case gateway of
          Some value \<Rightarrow> ok_or (Invalid_Gateway value) (parse_ipv4 value)
        | None \<Rightarrow> Inr (net4_network ops subnet + 1)) (\<lambda>g.
     if \<not> net4_contains ops subnet g then Inl (Gateway_Outside g subnet)
     else if g = net4_network ops subnet \<or> g = net4_broadcast ops subnet
     then Inl (Gateway_Not_Usable g subnet)
     else Inr (show_ipv4 g))"

definition networks_overlap :: "'n ipnet_ops \<Rightarrow> 'n \<Rightarrow> 'n \<Rightarrow> bool" where
  "networks_overlap ops left right \<longleftrightarrow>
     net4_contains ops left (net4_network ops right)
     \<or> net4_contains ops right (net4_network ops left)"

section \<open>network/allocation.rs\<close>

text \<open>
  The part of a Docker network the daemon reads here: its IPAM object, that object's optional list
  of configurations, and the optional subnet of each.
\<close>

type_synonym docker_ipam = "string option list option option"

definition ipam_subnets :: "docker_ipam \<Rightarrow> string list" where
  "ipam_subnets ipam =
     (case ipam of
        Some (Some configs) \<Rightarrow> List.map_filter id configs
      | _ \<Rightarrow> [])"

definition collect_used_subnets ::
  "'n ipnet_ops \<Rightarrow> (string, docker_ipam list) result \<Rightarrow> ('n cidr_error, 'n list) result" where
  "collect_used_subnets ops listing =
     (case listing of
        Inl e \<Rightarrow> Inl (Docker_List_Failed e)
      | Inr networks \<Rightarrow>
          fold_res (\<lambda>text used.
             res_bind (parse_docker_subnet ops text) (\<lambda>subnet.
               Inr (case subnet of Some n \<Rightarrow> used @ [n] | None \<Rightarrow> used)))
            (concat (map ipam_subnets networks)) [])"

fun allocate_loop ::
  "'n ipnet_ops \<Rightarrow> 'n \<Rightarrow> 'n list \<Rightarrow> (ipv4 \<times> ipv4) list \<Rightarrow> ('n cidr_error, ipv4 \<times> ipv4) result" where
  "allocate_loop ops block used [] = Inl (No_Subnet_Available block)"
| "allocate_loop ops block used ((network, gateway) # rest) =
     res_bind (parse_agent_subnet ops (show_ipv4 network @ ''/24'')) (\<lambda>candidate.
     if \<not> list_ex (\<lambda>u. networks_overlap ops candidate u) used then Inr (network, gateway)
     else allocate_loop ops block used rest)"

definition allocate_subnet ::
  "'n ipnet_ops \<Rightarrow> 'n \<Rightarrow> (string, docker_ipam list) result \<Rightarrow> ('n cidr_error, ipv4 \<times> ipv4) result" where
  "allocate_subnet ops block listing =
     res_bind (collect_used_subnets ops listing) (\<lambda>used.
       allocate_loop ops block used (iter_24 ops block))"

definition is_subnet_in_use ::
  "'n ipnet_ops \<Rightarrow> (string, docker_ipam list) result \<Rightarrow> 'n \<Rightarrow> ('n cidr_error, bool) result" where
  "is_subnet_in_use ops listing subnet =
     res_bind (collect_used_subnets ops listing) (\<lambda>used.
       Inr (list_ex (\<lambda>u. networks_overlap ops subnet u) used))"

definition check_subnet_collision ::
  "'n ipnet_ops \<Rightarrow> (string, docker_ipam list) result \<Rightarrow> 'n \<Rightarrow> ('n cidr_error, unit) result" where
  "check_subnet_collision ops listing subnet =
     res_bind (is_subnet_in_use ops listing subnet) (\<lambda>used.
       if used then Inl (Subnet_In_Use subnet) else Inr ())"

section \<open>Private ranges\<close>

text \<open>Each private range is one interval of addresses.\<close>

lemma octet_pair: "octet 0 a * 256 + octet 1 a = unat a div 65536"
proof -
  have "unat a div 16777216 = unat a div 65536 div 256"
    by (simp flip: div_mult2_eq)
  then show ?thesis unfolding octet_simps by simp
qed

lemma digit_pair_interval:
  fixes x y c l h :: nat
  assumes "y < 256" and "h \<le> 256" and "l < h"
  shows "c * 256 + l \<le> x * 256 + y \<and> x * 256 + y < c * 256 + h \<longleftrightarrow> x = c \<and> l \<le> y \<and> y < h"
proof (cases x c rule: linorder_cases)
  case less
  then have "(x + 1) * 256 \<le> c * 256" by (intro mult_le_mono1) simp
  with assms less show ?thesis by simp
next
  case greater
  then have "(c + 1) * 256 \<le> x * 256" by (intro mult_le_mono1) simp
  with assms greater show ?thesis by simp
qed simp

lemma private_range_interval:
  "private_range a = Some r \<longleftrightarrow>
     (case r of Ten \<Rightarrow> 10 * 16777216 \<le> unat a \<and> unat a < 11 * 16777216
      | OneSeventyTwo \<Rightarrow> (172 * 256 + 16) * 65536 \<le> unat a \<and> unat a < (172 * 256 + 32) * 65536
      | OneNinetyTwo \<Rightarrow> (192 * 256 + 168) * 65536 \<le> unat a \<and> unat a < (192 * 256 + 169) * 65536)"
proof -
  define p where "p = unat a div 65536"
  have p: "k * 65536 \<le> unat a \<longleftrightarrow> k \<le> p" "unat a < k * 65536 \<longleftrightarrow> p < k" for k
    unfolding p_def by (simp_all add: less_eq_div_iff_mult_less_eq div_less_iff_less_mult)
  have "octet 0 a = 10 \<longleftrightarrow> 10 * 256 \<le> p \<and> p < 11 * 256"
    "octet 0 a = 172 \<and> 16 \<le> octet 1 a \<and> octet 1 a \<le> 31 \<longleftrightarrow> 172 * 256 + 16 \<le> p \<and> p < 172 * 256 + 32"
    "octet 0 a = 192 \<and> octet 1 a = 168 \<longleftrightarrow> 192 * 256 + 168 \<le> p \<and> p < 192 * 256 + 169"
    using digit_pair_interval [of "octet 1 a" 256 0 10 "octet 0 a"]
      digit_pair_interval [of "octet 1 a" 32 16 172 "octet 0 a"]
      digit_pair_interval [of "octet 1 a" 169 168 192 "octet 0 a"]
      octet_pair [of a, folded p_def] octet_less [of 1 a] by simp_all auto
  then show ?thesis
    using p [of "2560"] p [of "2816"] p [of "44048"] p [of "44064"] p [of "49320"] p [of "49321"]
    by (cases r) (auto simp: private_range_def)
qed

lemma private_range_convex:
  assumes "private_range a = Some r" and "private_range b = Some r"
    and "unat a \<le> unat x" and "unat x \<le> unat b"
  shows "private_range x = Some r"
  using assms unfolding private_range_interval by (cases r) simp_all

section \<open>The documented behaviour of ipnet\<close>

text \<open>
  A network is an address and a prefix length of at most 32; its network and broadcast addresses
  are the first and last address with the same prefix, and it contains exactly the addresses
  between them. Printing an address and a prefix length and parsing the text gives the network.
\<close>

locale ipnet =
  fixes ops :: "'n ipnet_ops"
  assumes prefix_len_le: "net4_prefix_len ops n \<le> 32"
    and network_eq: "unat (net4_network ops n)
      = unat (net4_addr ops n) div 2 ^ (32 - net4_prefix_len ops n) * 2 ^ (32 - net4_prefix_len ops n)"
    and broadcast_eq: "unat (net4_broadcast ops n)
      = unat (net4_network ops n) + (2 ^ (32 - net4_prefix_len ops n) - 1)"
    and contains_iff: "net4_contains ops n a \<longleftrightarrow>
      net4_network ops n \<le> a \<and> a \<le> net4_broadcast ops n"
    and trunc_addr: "net4_addr ops (net4_trunc ops n) = net4_network ops n"
    and trunc_prefix: "net4_prefix_len ops (net4_trunc ops n) = net4_prefix_len ops n"
    and parse_show: "p \<le> 32 \<Longrightarrow> \<exists>n. net4_parse ops (show_ipv4 a @ ''/'' @ show_nat p) = Some n
      \<and> net4_addr ops n = a \<and> net4_prefix_len ops n = p"
begin

abbreviation size_of :: "'n \<Rightarrow> nat" where
  "size_of n \<equiv> 2 ^ (32 - net4_prefix_len ops n)"

lemma unat_network_le: "unat (net4_network ops n) + (size_of n - 1) < 2 ^ 32"
  using broadcast_eq [of n] unat_ipv4_less [of "net4_broadcast ops n"] by simp

lemma contains_nat:
  "net4_contains ops n a \<longleftrightarrow>
     unat (net4_network ops n) \<le> unat a \<and> unat a < unat (net4_network ops n) + size_of n"
proof -
  have "0 < size_of n" by simp
  then show ?thesis
    unfolding contains_iff word_le_nat_alt broadcast_eq by linarith
qed

lemma contains_network [simp]: "net4_contains ops n (net4_network ops n)"
  by (simp add: contains_nat)

lemma contains_broadcast [simp]: "net4_contains ops n (net4_broadcast ops n)"
proof -
  have "0 < size_of n" by simp
  then show ?thesis unfolding contains_nat broadcast_eq by linarith
qed

lemma overlap_iff:
  "networks_overlap ops l r \<longleftrightarrow> (\<exists>a. net4_contains ops l a \<and> net4_contains ops r a)"
proof
  assume "networks_overlap ops l r"
  then show "\<exists>a. net4_contains ops l a \<and> net4_contains ops r a"
    unfolding networks_overlap_def using contains_network by blast
next
  assume "\<exists>a. net4_contains ops l a \<and> net4_contains ops r a"
  then show "networks_overlap ops l r"
    by (auto simp: networks_overlap_def contains_nat)
qed

lemma network_dvd: "size_of n dvd unat (net4_network ops n)"
  by (simp add: network_eq)

lemma trunc_network: "net4_network ops (net4_trunc ops n) = net4_network ops n"
  using network_eq [of "net4_trunc ops n"] network_eq [of n]
  by (simp add: trunc_addr trunc_prefix word_unat_eq_iff)

lemma trunc_contains: "net4_contains ops (net4_trunc ops n) a \<longleftrightarrow> net4_contains ops n a"
  by (simp add: contains_nat trunc_network trunc_prefix)

lemma parse_show_24:
  obtains n where "net4_parse ops (show_ipv4 a @ ''/24'') = Some n"
    "net4_addr ops n = a" "net4_prefix_len ops n = 24"
proof -
  have "show_nat 24 = ''24''" by code_simp
  then show ?thesis using parse_show [of 24 a] that by auto
qed

lemma private_network:
  assumes "require_private_network ops n kind = Inr u" and "net4_contains ops n a"
  shows "private_range a \<noteq> None \<and> private_range a = private_range (net4_network ops n)"
proof -
  obtain r where r: "private_range (net4_network ops n) = Some r"
    "private_range (net4_broadcast ops n) = Some r"
    using assms(1) by (cases "private_range (net4_network ops n)")
      (auto simp: require_private_network_def Let_def split: if_splits)
  have "unat (net4_network ops n) \<le> unat a" "unat a \<le> unat (net4_broadcast ops n)"
    using assms(2) by (simp_all add: contains_iff word_le_nat_alt)
  then have "private_range a = Some r" by (rule private_range_convex [OF r])
  with r show ?thesis by simp
qed

lemma parse_agent_subnet_Inr:
  "parse_agent_subnet ops text = Inr n \<longleftrightarrow>
     net4_parse ops text = Some n \<and> net4_addr ops n = net4_network ops n
     \<and> net4_prefix_len ops n \<le> 30 \<and> require_private_network ops n ''agent subnet'' = Inr ()"
  by (cases "net4_parse ops text")
    (auto simp: parse_agent_subnet_def parse_ipv4_network_def result_simps)

text \<open>The subnets of a block of at least a /24, in order: no step wraps around.\<close>

lemma size_24:
  assumes "net4_prefix_len ops b \<le> 24"
  shows "size_of b = 256 * 2 ^ (24 - net4_prefix_len ops b)"
proof -
  have "32 - net4_prefix_len ops b = 8 + (24 - net4_prefix_len ops b)" using assms by simp
  then have "size_of b = 2 ^ (8 + (24 - net4_prefix_len ops b))" by (rule arg_cong)
  also have "\<dots> = 2 ^ 8 * 2 ^ (24 - net4_prefix_len ops b)" by (rule power_add)
  finally show ?thesis by simp
qed

lemma iter_24_nth:
  assumes "net4_prefix_len ops b \<le> 24"
  shows "length (iter_24 ops b) = 2 ^ (24 - net4_prefix_len ops b)"
    and "k < 2 ^ (24 - net4_prefix_len ops b) \<Longrightarrow>
      (let (network, gateway) = iter_24 ops b ! k
       in unat network = unat (net4_network ops b) + 256 * k \<and> gateway = network + 1)"
proof -
  let ?e = "24 - net4_prefix_len ops b"
  have size: "size_of b = 256 * 2 ^ ?e" by (rule size_24 [OF assms])
  have le: "(2::nat) ^ ?e \<le> 2 ^ 24" by (rule power_increasing) simp_all
  have "unat (of_nat (2 ^ ?e) :: u32) = 2 ^ ?e"
    unfolding unat_of_nat using le by (intro mod_less) simp
  then have count: "unat ((2 :: u32) ^ ?e) = 2 ^ ?e" by simp
  show "length (iter_24 ops b) = 2 ^ ?e"
    by (simp add: iter_24_def Let_def count)
  assume k: "k < 2 ^ ?e"
  have bound: "unat (net4_network ops b) + 256 * k < 2 ^ 32"
    using unat_network_le [of b] k unfolding size by simp
  have "unat (net4_network ops b + push_bit 8 (of_nat k :: u32)) = unat (net4_network ops b) + 256 * k"
    using bound by (simp add: push_bit_eq_mult unat_word_ariths unat_of_nat)
  then show "let (network, gateway) = iter_24 ops b ! k
       in unat network = unat (net4_network ops b) + 256 * k \<and> gateway = network + 1"
    using k by (simp add: iter_24_def Let_def count)
qed

lemma iter_24_iff:
  assumes "net4_prefix_len ops b \<le> 24"
  shows "(network, gateway) \<in> set (iter_24 ops b) \<longleftrightarrow>
    (\<exists>k < 2 ^ (24 - net4_prefix_len ops b).
       unat network = unat (net4_network ops b) + 256 * k) \<and> gateway = network + 1"
  (is "?l \<longleftrightarrow> ?r")
proof
  assume ?l
  then show ?r
    using iter_24_nth [OF assms] by (fastforce simp: in_set_conv_nth)
next
  assume ?r
  then obtain k where k: "k < 2 ^ (24 - net4_prefix_len ops b)"
    "unat network = unat (net4_network ops b) + 256 * k" "gateway = network + 1" by blast
  obtain w g where wg: "iter_24 ops b ! k = (w, g)" by fastforce
  have "unat w = unat network" "g = w + 1"
    using iter_24_nth(2) [OF assms k(1)] k(2) wg by simp_all
  then have "w = network \<and> g = gateway" using k(3) by (metis word_unat_eq_iff)
  moreover have "iter_24 ops b ! k \<in> set (iter_24 ops b)"
    using iter_24_nth(1) [OF assms] k(1) by (intro nth_mem) simp
  ultimately show ?l using wg by simp
qed

lemma block_parse_Inr:
  "allocation_block_parse ops text = Inr b \<longleftrightarrow>
     net4_parse ops text = Some b \<and> net4_addr ops b = net4_network ops b
     \<and> net4_prefix_len ops b \<le> 24 \<and> require_private_network ops b ''subnet block'' = Inr ()"
  by (cases "net4_parse ops text")
    (auto simp: allocation_block_parse_def parse_ipv4_network_def result_simps)

text \<open>Every candidate of a valid block is a valid agent subnet inside the block.\<close>

lemma candidate_valid:
  assumes "allocation_block_parse ops text = Inr b" and "(network, gateway) \<in> set (iter_24 ops b)"
  obtains n where "parse_agent_subnet ops (show_ipv4 network @ ''/24'') = Inr n"
    "net4_network ops n = network" "contains_allocated_subnet ops b n"
proof -
  from assms(1) have b: "net4_prefix_len ops b \<le> 24"
    "require_private_network ops b ''subnet block'' = Inr ()" by (auto simp: block_parse_Inr)
  obtain k where k: "k < 2 ^ (24 - net4_prefix_len ops b)"
    "unat network = unat (net4_network ops b) + 256 * k"
    using assms(2) b(1) by (auto simp: iter_24_iff)
  obtain n where n: "net4_parse ops (show_ipv4 network @ ''/24'') = Some n"
    "net4_addr ops n = network" "net4_prefix_len ops n = 24" by (rule parse_show_24)
  have size: "size_of b = 256 * 2 ^ (24 - net4_prefix_len ops b)" by (rule size_24 [OF b(1)])
  have "256 dvd unat network"
    using network_dvd [of b] unfolding k(2) size by (simp add: dvd_mult_left)
  then have nw: "net4_network ops n = network"
    using network_eq [of n] n by (simp add: word_unat_eq_iff)
  have bc: "unat (net4_broadcast ops n) = unat network + 255"
    using broadcast_eq [of n] n nw by simp
  have "256 * (k + 1) \<le> size_of b" unfolding size using k(1) by simp
  then have inside: "net4_contains ops b network" "net4_contains ops b (net4_broadcast ops n)"
    using k(2) bc by (simp_all add: contains_nat)
  have "private_range (net4_network ops n) \<noteq> None
    \<and> private_range (net4_network ops n) = private_range (net4_broadcast ops n)"
    using private_network [OF b(2)] inside nw by metis
  then have "require_private_network ops n ''agent subnet'' = Inr ()"
    unfolding require_private_network_def Let_def by presburger
  then have "parse_agent_subnet ops (show_ipv4 network @ ''/24'') = Inr n"
    using n nw by (simp add: parse_agent_subnet_Inr)
  moreover have "contains_allocated_subnet ops b n"
    using n nw inside by (simp add: contains_allocated_subnet_def)
  ultimately show ?thesis using that nw by blast
qed

text \<open>And every /24 inside the block is a candidate.\<close>

lemma candidate_complete:
  assumes "net4_prefix_len ops b \<le> 24" and "contains_allocated_subnet ops b n"
  shows "(net4_network ops n, net4_network ops n + 1) \<in> set (iter_24 ops b)"
proof -
  have n: "net4_prefix_len ops n = 24" "net4_contains ops b (net4_network ops n)"
    using assms(2) by (auto simp: contains_allocated_subnet_def)
  have size: "size_of b = 256 * 2 ^ (24 - net4_prefix_len ops b)" by (rule size_24 [OF assms(1)])
  have "256 dvd unat (net4_network ops b)" "256 dvd unat (net4_network ops n)"
    using network_dvd [of b] network_dvd [of n] n unfolding size by (auto simp: dvd_mult_left)
  then obtain i j where ij: "unat (net4_network ops b) = 256 * i" "unat (net4_network ops n) = 256 * j"
    by (auto elim!: dvdE)
  with n(2) have "i \<le> j" "j - i < 2 ^ (24 - net4_prefix_len ops b)"
    unfolding contains_nat size by auto
  then show ?thesis
    using ij by (auto simp: iter_24_iff [OF assms(1)] intro!: exI [of _ "j - i"])
qed

lemma allocate_loop_cases:
  assumes "allocation_block_parse ops text = Inr b" and "set cs \<subseteq> set (iter_24 ops b)"
  shows "case allocate_loop ops b used cs of
     Inr (network, gateway) \<Rightarrow> (network, gateway) \<in> set cs
       \<and> (\<exists>n. parse_agent_subnet ops (show_ipv4 network @ ''/24'') = Inr n
            \<and> net4_network ops n = network \<and> contains_allocated_subnet ops b n
            \<and> (\<forall>u \<in> set used. \<not> networks_overlap ops n u))
   | Inl e \<Rightarrow> e = No_Subnet_Available b
       \<and> (\<forall>(network, gateway) \<in> set cs. \<exists>n. net4_network ops n = network
            \<and> net4_prefix_len ops n = 24 \<and> (\<exists>u \<in> set used. networks_overlap ops n u))"
  using assms(2)
proof (induction cs)
  case Nil
  then show ?case by simp
next
  case (Cons c cs)
  obtain network gateway where c: "c = (network, gateway)" by fastforce
  with Cons.prems have "(network, gateway) \<in> set (iter_24 ops b)" by simp
  with assms(1) obtain n where n: "parse_agent_subnet ops (show_ipv4 network @ ''/24'') = Inr n"
    "net4_network ops n = network" "contains_allocated_subnet ops b n" by (rule candidate_valid)
  show ?case
  proof (cases "\<exists>u \<in> set used. networks_overlap ops n u")
    case True
    have p: "net4_prefix_len ops n = 24" using n(3) by (simp add: contains_allocated_subnet_def)
    have "allocate_loop ops b used (c # cs) = allocate_loop ops b used cs"
      using True n(1) by (auto simp: c list_ex_iff)
    then show ?thesis
      using Cons.IH Cons.prems True n(2) p
      by (auto simp: c split: sum.splits prod.splits)
  next
    case False
    then have "allocate_loop ops b used (c # cs) = Inr (network, gateway)"
      using n(1) by (simp add: c list_ex_iff)
    then show ?thesis using n False by (auto simp: c)
  qed
qed

lemma overlap_cong:
  assumes "net4_network ops n = net4_network ops m" and "net4_prefix_len ops n = net4_prefix_len ops m"
  shows "networks_overlap ops n u = networks_overlap ops m u"
  using assms by (simp add: networks_overlap_def contains_nat)

lemma default_gateway:
  assumes "net4_prefix_len ops n \<le> 30"
  shows "resolve_gateway ops n None = Inr (show_ipv4 (net4_network ops n + 1))"
proof -
  have "(2::nat) ^ 2 \<le> size_of n" using assms by (intro power_increasing) simp_all
  then have size: "4 \<le> size_of n" by simp
  have "unat (net4_network ops n + 1) = unat (net4_network ops n) + 1"
    using unat_network_le [of n] size by (simp add: unat_word_ariths)
  then show ?thesis
    using size broadcast_eq [of n]
    by (auto simp: resolve_gateway_def contains_nat word_unat_eq_iff)
qed

end

section \<open>A reference implementation of ipnet\<close>

text \<open>
  Addresses with a prefix length, in dotted decimal. It shows that the laws of \<open>ipnet\<close> can hold
  together, and gives the concrete networks the examples run on.
\<close>

datatype ipv4_net = Ipv4_Net ipv4 nat

fun plain_addr :: "ipv4_net \<Rightarrow> ipv4" where
  "plain_addr (Ipv4_Net a p) = a"

fun plain_prefix_len :: "ipv4_net \<Rightarrow> nat" where
  "plain_prefix_len (Ipv4_Net a p) = min p 32"

definition plain_network :: "ipv4_net \<Rightarrow> ipv4" where
  "plain_network n =
     (let s = 2 ^ (32 - plain_prefix_len n) in of_nat (unat (plain_addr n) div s * s))"

definition plain_broadcast :: "ipv4_net \<Rightarrow> ipv4" where
  "plain_broadcast n =
     (let s = 2 ^ (32 - plain_prefix_len n) in of_nat (unat (plain_addr n) div s * s + (s - 1)))"

definition plain_parse :: "string \<Rightarrow> ipv4_net option" where
  "plain_parse s =
     (case split_once CHR ''/'' s of
        None \<Rightarrow> None
      | Some (address, len) \<Rightarrow>
          (case (parse_ipv4 address, parse_uint 32 len) of
             (Some a, Some p) \<Rightarrow> Some (Ipv4_Net a p)
           | _ \<Rightarrow> None))"

definition plain_ipnet :: "ipv4_net ipnet_ops" where
  "plain_ipnet =
     \<lparr>net4_parse = plain_parse,
      net_parse = (\<lambda>s. map_option Some (plain_parse s)),
      net4_addr = plain_addr,
      net4_network = plain_network,
      net4_broadcast = plain_broadcast,
      net4_prefix_len = plain_prefix_len,
      net4_contains = (\<lambda>n a. plain_network n \<le> a \<and> a \<le> plain_broadcast n),
      net4_trunc = (\<lambda>n. Ipv4_Net (plain_network n) (plain_prefix_len n))\<rparr>"

lemma plain_prefix_len_le: "plain_prefix_len n \<le> 32"
  by (cases n) simp

lemma plain_span: "unat (plain_addr n) div 2 ^ (32 - plain_prefix_len n) * 2 ^ (32 - plain_prefix_len n)
    + (2 ^ (32 - plain_prefix_len n) - 1) < 2 ^ 32"
proof -
  let ?p = "plain_prefix_len n" and ?s = "2 ^ (32 - plain_prefix_len n) :: nat"
  have s: "(2::nat) ^ 32 = 2 ^ ?p * ?s"
    using plain_prefix_len_le [of n] by (simp flip: power_add)
  have "unat (plain_addr n) < 2 ^ ?p * ?s" using unat_ipv4_less [of "plain_addr n"] unfolding s .
  then have "unat (plain_addr n) div ?s < 2 ^ ?p" by (simp add: less_mult_imp_div_less)
  then have "(unat (plain_addr n) div ?s + 1) * ?s \<le> 2 ^ ?p * ?s" by (intro mult_le_mono1) simp
  moreover have "0 < ?s" by simp
  ultimately show ?thesis unfolding s add_mult_distrib by linarith
qed

lemma unat_plain_network:
  "unat (plain_network n)
     = unat (plain_addr n) div 2 ^ (32 - plain_prefix_len n) * 2 ^ (32 - plain_prefix_len n)"
proof -
  have "unat (plain_addr n) div 2 ^ (32 - plain_prefix_len n) * 2 ^ (32 - plain_prefix_len n) < 2 ^ 32"
    using plain_span [of n] by linarith
  then show ?thesis
    unfolding plain_network_def Let_def unat_of_nat by (intro mod_less) simp
qed

lemma unat_plain_broadcast:
  "unat (plain_broadcast n) = unat (plain_network n) + (2 ^ (32 - plain_prefix_len n) - 1)"
  using plain_span [of n] unfolding unat_plain_network plain_broadcast_def Let_def unat_of_nat
  by (intro mod_less) simp

lemma show_ipv4_no_slash: "CHR ''/'' \<notin> set (show_ipv4 a)"
  by (auto simp: show_ipv4_def show_nat_no_sep is_ascii_digit_def)

lemma plain_parse_show:
  "p \<le> 32 \<Longrightarrow> plain_parse (show_ipv4 a @ ''/'' @ show_nat p) = Some (Ipv4_Net a p)"
proof -
  assume p: "p \<le> 32"
  have "split_once CHR ''/'' (show_ipv4 a @ ''/'' @ show_nat p) = Some (show_ipv4 a, show_nat p)"
    using show_ipv4_no_slash by (simp add: split_once_Some)
  then show ?thesis
    using p by (simp add: plain_parse_def parse_show_ipv4 parse_show_nat)
qed

lemma plain_parse_show_24: "plain_parse (show_ipv4 a @ ''/24'') = Some (Ipv4_Net a 24)"
proof -
  have "show_nat 24 = ''24''" by code_simp
  then show ?thesis using plain_parse_show [of 24 a] by simp
qed

lemmas plain_eval = plain_ipnet_def plain_parse_def parse_ipv4_def parse_octet_def
  plain_network_def plain_broadcast_def ipv4_new_def digits_value_def digit_value_def
  is_ascii_digit_def parse_uint_def Let_def private_range_def octet_def

interpretation plain_net: ipnet plain_ipnet
proof unfold_locales
  fix n
  show "net4_prefix_len plain_ipnet n \<le> 32"
    by (simp add: plain_ipnet_def plain_prefix_len_le)
  show "net4_prefix_len plain_ipnet (net4_trunc plain_ipnet n) = net4_prefix_len plain_ipnet n"
    using plain_prefix_len_le [of n] by (simp add: plain_ipnet_def)
  show "\<exists>n. net4_parse plain_ipnet (show_ipv4 a @ ''/'' @ show_nat p) = Some n
      \<and> net4_addr plain_ipnet n = a \<and> net4_prefix_len plain_ipnet n = p" if "p \<le> 32" for p a
    using that plain_parse_show [OF that, of a] by (simp add: plain_ipnet_def)
qed (simp_all add: plain_ipnet_def unat_plain_network [symmetric] unat_plain_broadcast)

section \<open>Properties\<close>

lemma private_restricted: "private_range a \<noteq> None \<Longrightarrow> is_restricted (V4 a)"
  by (auto simp: private_range_def is_restricted_v4_def Let_def split: if_splits)

lemma resolve_gateway_Inr:
  "resolve_gateway ops n gateway = Inr g \<longleftrightarrow>
     (\<exists>a. (gateway = None \<and> a = net4_network ops n + 1
           \<or> (\<exists>text. gateway = Some text \<and> parse_ipv4 text = Some a))
        \<and> net4_contains ops n a \<and> a \<noteq> net4_network ops n \<and> a \<noteq> net4_broadcast ops n
        \<and> g = show_ipv4 a)"
  by (cases gateway) (auto simp: resolve_gateway_def result_simps split: if_splits)

text \<open>
  An accepted agent subnet lies wholly inside one RFC 1918 range: every address in it is
  private and is refused as an upstream address. A gateway resolved for it, the default one or one
  given as text, is an address of the subnet that is neither its network nor its broadcast address,
  printed so that it parses back; and the default gateway is always accepted.
\<close>

lemma agent_subnet_usable:
  assumes "ipnet ops" and "parse_agent_subnet ops text = Inr n"
  shows "(\<forall>a. net4_contains ops n a \<longrightarrow> private_range a \<noteq> None \<and> is_restricted (V4 a))
    \<and> (\<forall>gateway g. resolve_gateway ops n gateway = Inr g \<longrightarrow>
         (\<exists>a. parse_ipv4 g = Some a \<and> net4_contains ops n a
            \<and> a \<noteq> net4_network ops n \<and> a \<noteq> net4_broadcast ops n))
    \<and> resolve_gateway ops n None = Inr (show_ipv4 (net4_network ops n + 1))"
proof -
  have n: "net4_prefix_len ops n \<le> 30" "require_private_network ops n ''agent subnet'' = Inr ()"
    using assms(2) by (auto simp: ipnet.parse_agent_subnet_Inr [OF assms(1)])
  have "private_range a \<noteq> None \<and> is_restricted (V4 a)" if "net4_contains ops n a" for a
    using ipnet.private_network [OF assms(1) n(2) that] private_restricted by blast
  then show ?thesis
    using ipnet.default_gateway [OF assms(1) n(1)]
    by (auto simp only: resolve_gateway_Inr parse_show_ipv4)
qed

text \<open>
  C25: Allocation from a valid block, when Docker's networks could be listed. A returned subnet is a
  valid agent subnet, a /24 inside the block, shares no address with any network in use, and comes
  with its first host address as gateway. Allocation fails only with the error that no subnet is
  available, and only when every /24 inside the block shares an address with a network in use.
\<close>

theorem allocate_subnet_correct:
  assumes "ipnet ops" and "allocation_block_parse ops text = Inr b"
    and "collect_used_subnets ops listing = Inr used"
  shows "case allocate_subnet ops b listing of
     Inr (network, gateway) \<Rightarrow>
       gateway = network + 1
       \<and> (\<exists>n. parse_agent_subnet ops (show_ipv4 network @ ''/24'') = Inr n
            \<and> net4_network ops n = network \<and> contains_allocated_subnet ops b n
            \<and> (\<forall>u \<in> set used. \<forall>a. \<not> (net4_contains ops n a \<and> net4_contains ops u a)))
   | Inl e \<Rightarrow>
       e = No_Subnet_Available b
       \<and> (\<forall>n. contains_allocated_subnet ops b n \<longrightarrow>
            (\<exists>u \<in> set used. \<exists>a. net4_contains ops n a \<and> net4_contains ops u a))"
proof -
  have b: "net4_prefix_len ops b \<le> 24"
    using assms(2) by (simp add: ipnet.block_parse_Inr [OF assms(1)])
  have eq: "allocate_subnet ops b listing = allocate_loop ops b used (iter_24 ops b)"
    by (simp add: allocate_subnet_def assms(3))
  note loop = ipnet.allocate_loop_cases [OF assms(1,2) subset_refl, of used, folded eq]
  note overlap = ipnet.overlap_iff [OF assms(1)]
  show ?thesis
  proof (cases "allocate_subnet ops b listing")
    case (Inl e)
    have "\<exists>u \<in> set used. networks_overlap ops n u" if n: "contains_allocated_subnet ops b n" for n
    proof -
      have "(net4_network ops n, net4_network ops n + 1) \<in> set (iter_24 ops b)"
        using assms(1) b n by (rule ipnet.candidate_complete)
      then obtain m u where "net4_network ops m = net4_network ops n"
        "net4_prefix_len ops m = 24" "u \<in> set used" "networks_overlap ops m u"
        using loop Inl by fastforce
      then show ?thesis
        using n ipnet.overlap_cong [OF assms(1), of m n u]
        by (auto simp: contains_allocated_subnet_def)
    qed
    then show ?thesis using loop Inl by (simp add: overlap)
  next
    case (Inr r)
    then show ?thesis
      using loop ipnet.iter_24_iff [OF assms(1) b]
      by (cases r) (auto simp: overlap)
  qed
qed

text \<open>A block of two /24s, the first of which a Docker network uses.\<close>

theorem allocate_subnet_correct_witness:
  "allocate_subnet plain_ipnet (Ipv4_Net 170524672 23)
     (Inr [Some (Some [Some ''10.42.0.128/25'', None]), None])
     = Inr (ipv4_new 10 42 1 0, ipv4_new 10 42 1 1)
   \<and> (\<exists>n. contains_allocated_subnet plain_ipnet (Ipv4_Net 170524672 23) n
        \<and> \<not> (\<exists>a. net4_contains plain_ipnet n a
              \<and> net4_contains plain_ipnet (Ipv4_Net 170524800 25) a))"
proof -
  let ?b = "Ipv4_Net 170524672 23"
  let ?l = "Inr [Some (Some [Some ''10.42.0.128/25'', None]), None]"
  have a: "allocation_block_parse plain_ipnet ''10.42.0.0/23'' = Inr ?b"
    by (simp add: plain_eval allocation_block_parse_def parse_ipv4_network_def
        require_private_network_def)
  have u: "collect_used_subnets plain_ipnet ?l = Inr [Ipv4_Net 170524800 25]"
    by (simp add: plain_eval collect_used_subnets_def ipam_subnets_def map_filter_def
        parse_docker_subnet_def)
  have i: "iter_24 plain_ipnet ?b = [(170524672, 170524673), (170524928, 170524929)]"
    by (simp add: plain_eval iter_24_def upt_conv_Cons)
  have c: "parse_agent_subnet plain_ipnet (show_ipv4 170524672 @ ''/24'')
      = Inr (Ipv4_Net 170524672 24)"
    "parse_agent_subnet plain_ipnet (show_ipv4 170524928 @ ''/24'')
      = Inr (Ipv4_Net 170524928 24)"
    unfolding plain_net.parse_agent_subnet_Inr
    by (simp_all add: plain_ipnet_def plain_parse_show_24
        plain_network_def plain_broadcast_def require_private_network_def private_range_def octet_def)
  have "allocate_subnet plain_ipnet ?b ?l = Inr (170524928, 170524929)"
    by (simp add: allocate_subnet_def u i c networks_overlap_def)
      (simp add: plain_ipnet_def plain_network_def plain_broadcast_def)
  then have r: "allocate_subnet plain_ipnet ?b ?l = Inr (ipv4_new 10 42 1 0, ipv4_new 10 42 1 1)"
    by (simp add: ipv4_new_def)
  show ?thesis
    using allocate_subnet_correct [OF plain_net.ipnet_axioms a u] unfolding r by auto
qed

end
