(* ===== verification/Bridge_Policy.thy ===== *)
theory Bridge_Policy
  imports Net_Cidr
begin

text \<open>
  The managed bridge's base policy (outcalld/src/bridge/config.rs, outcalld/src/bridge/nft.rs and
  the policy operations of outcalld/src/bridge.rs): which host services agents may reach, the
  nftables ruleset that drops everything else, and how it is installed. The \<open>nft\<close> program is not
  part of the repository: it is a function \<open>run\<close>, a parameter of the model, from its arguments, its
  standard input and the kernel's state to its outcome and the new state.
\<close>

section \<open>Commands (system\_command.rs)\<close>

datatype command_outcome =
    Spawn_Failed string
  | Timed_Out
  | Exited bool string string

type_synonym 's nft_tool = "string list \<Rightarrow> string \<Rightarrow> 's \<Rightarrow> command_outcome \<times> 's"

datatype bridge_error =
    Command_Timed_Out string
  | Command_Failed string string
  | Inspect_Failed string
  | Delete_Failed string
  | Nft_Exited string
  | Nft_Insert_Failed string
  | Nft_Delete_Failed u64 string
  | Nft_Handle_Missing string
  | Family_Mismatch ip_addr string
  | Bad_Bridge_Name_Length
  | Bad_Bridge_Name_Characters
  | Listener_Port_Zero string
  | Listener_Ipv6 string
  | Bad_Prefix_Length
  | Bad_Subnet_Block
  | Bad_Gateway

text \<open>\<open>output_with_timeout\<close> and \<open>wait_with_output\<close>: success flag, standard output, standard error.\<close>

fun output_with_timeout ::
  "string \<Rightarrow> command_outcome \<Rightarrow> (bridge_error, bool \<times> string \<times> string) result" where
  "output_with_timeout description (Spawn_Failed e) = Inl (Command_Failed description e)"
| "output_with_timeout description Timed_Out = Inl (Command_Timed_Out description)"
| "output_with_timeout description (Exited success out err) = Inr (success, out, err)"

section \<open>bridge/config.rs\<close>

record host_service_endpoint =
  hs_address :: ipv4
  hs_port :: u16

record host_service_access =
  hs_dns :: host_service_endpoint
  hs_proxy :: "host_service_endpoint option"

type_synonym socket_addr = "ip_addr \<times> u16"

definition from_listener ::
  "socket_addr \<Rightarrow> ipv4 \<Rightarrow> string \<Rightarrow> (bridge_error, host_service_endpoint) result" where
  "from_listener listener gateway_ip label =
     (if snd listener = 0 then Inl (Listener_Port_Zero label)
      else (case fst listener of
              V4 address \<Rightarrow>
                Inr \<lparr>hs_address = (if address = 0 then gateway_ip else address),
                     hs_port = snd listener\<rparr>
            | V6 _ \<Rightarrow> Inl (Listener_Ipv6 label)))"

definition from_listeners ::
  "ipv4 \<Rightarrow> socket_addr \<Rightarrow> socket_addr option \<Rightarrow> (bridge_error, host_service_access) result" where
  "from_listeners gateway_ip dns_listener proxy_listener =
     res_bind (from_listener dns_listener gateway_ip ''DNS'') (\<lambda>dns.
     res_bind
       (case proxy_listener of
          None \<Rightarrow> Inr None
        | Some listener \<Rightarrow>
            res_bind (from_listener listener gateway_ip ''proxy'') (\<lambda>p. Inr (Some p))) (\<lambda>proxy.
     Inr \<lparr>hs_dns = dns, hs_proxy = proxy\<rparr>))"

definition default_for_gateway :: "ipv4 \<Rightarrow> host_service_access" where
  "default_for_gateway gateway_ip =
     \<lparr>hs_dns = \<lparr>hs_address = gateway_ip, hs_port = 53\<rparr>,
      hs_proxy = Some \<lparr>hs_address = gateway_ip, hs_port = 8080\<rparr>\<rparr>"

definition first_gateway_from_subnet_block ::
  "'n ipnet_ops \<Rightarrow> string \<Rightarrow> (bridge_error, ipv4 \<times> nat) result" where
  "first_gateway_from_subnet_block ops cidr =
     (case allocation_block_parse ops cidr of
        Inl e \<Rightarrow> Inl Bad_Subnet_Block
      | Inr block \<Rightarrow>
          res_bind (ok_or Bad_Gateway (parse_ipv4 (snd (first_subnet ops block)))) (\<lambda>gateway.
          Inr (gateway, 24)))"

definition validate_bridge_name :: "string \<Rightarrow> (bridge_error, unit) result" where
  "validate_bridge_name name =
     (if name = [] \<or> 15 < length name then Inl Bad_Bridge_Name_Length
      else if \<not> list_all (\<lambda>c. is_ascii_alphanumeric c \<or> c = CHR ''-'' \<or> c = CHR ''_''
                                  \<or> c = CHR ''.'') name
      then Inl Bad_Bridge_Name_Characters
      else Inr ())"

section \<open>bridge/nft.rs\<close>

abbreviation nl :: char where
  "nl \<equiv> CHR 0x0A"

abbreviation dquote :: char where
  "dquote \<equiv> CHR 0x22"

definition quoted :: "string \<Rightarrow> string" where
  "quoted s = [dquote] @ s @ [dquote]"

text \<open>One line of the ruleset, indented by eight spaces.\<close>

definition rule_line :: "string \<Rightarrow> string" where
  "rule_line s = ''        '' @ s @ [nl]"

definition proxy_rule :: "string \<Rightarrow> host_service_access \<Rightarrow> string" where
  "proxy_rule bridge_name host_services =
     (case hs_proxy host_services of
        None \<Rightarrow> []
      | Some proxy \<Rightarrow>
          rule_line (''iifname '' @ quoted bridge_name @ '' ip daddr '' @ show_ipv4 (hs_address proxy)
            @ '' tcp dport '' @ show_nat (unat (hs_port proxy)) @ '' accept''))"

definition render_base :: "string \<Rightarrow> host_service_access \<Rightarrow> string" where
  "render_base bridge_name host_services =
     (let iif = ''iifname '' @ quoted bridge_name;
          oif = ''oifname '' @ quoted bridge_name;
          dns_address = show_ipv4 (hs_address (hs_dns host_services));
          dns_port = show_nat (unat (hs_port (hs_dns host_services)))
      in ''table inet outcall {'' @ [nl]
       @ ''    chain forward {'' @ [nl]
       @ rule_line ''type filter hook forward priority filter; policy drop;''
       @ rule_line (''iifname != '' @ quoted bridge_name @ '' oifname != '' @ quoted bridge_name @ '' accept'')
       @ rule_line (iif @ '' ct state invalid drop'')
       @ rule_line (oif @ '' ct state invalid drop'')
       @ rule_line (iif @ '' meta nfproto ipv6 drop'')
       @ rule_line (oif @ '' meta nfproto ipv6 drop'')
       @ rule_line (iif @ '' ct state established,related accept'')
       @ rule_line (oif @ '' ct state established,related accept'')
       @ ''    }'' @ [nl] @ [nl]
       @ ''    chain input_from_agents {'' @ [nl]
       @ rule_line ''type filter hook input priority filter; policy accept;''
       @ rule_line (iif @ '' ct state invalid drop'')
       @ rule_line (iif @ '' ip daddr '' @ dns_address @ '' udp dport '' @ dns_port @ '' accept'')
       @ rule_line (iif @ '' ip daddr '' @ dns_address @ '' tcp dport '' @ dns_port @ '' accept'')
       @ proxy_rule bridge_name host_services
       @ rule_line (iif @ '' meta nfproto ipv4 drop'')
       @ rule_line (iif @ '' meta nfproto ipv6 drop'')
       @ ''    }'' @ [nl] @ [nl]
       @ ''    chain output_ipv6_block {'' @ [nl]
       @ rule_line ''type filter hook output priority filter; policy accept;''
       @ rule_line (oif @ '' meta nfproto ipv6 drop'')
       @ ''    }'' @ [nl]
       @ ''}'')"

definition delete_table_line :: string where
  "delete_table_line = ''delete table inet outcall'' @ [nl]"

definition render_transaction :: "string \<Rightarrow> host_service_access \<Rightarrow> bool \<Rightarrow> string" where
  "render_transaction bridge_name host_services table_exists =
     (let replacement = render_base bridge_name host_services
      in if table_exists then delete_table_line @ replacement else replacement)"

definition table_missing :: "string \<Rightarrow> bool" where
  "table_missing stderr =
     (let stderr = map to_ascii_lower stderr
      in contains stderr ''no such file or directory''
       \<or> contains stderr ''does not exist''
       \<or> contains stderr ''not found'')"

definition table_active :: "'s nft_tool \<Rightarrow> 's \<Rightarrow> (bridge_error, bool) result \<times> 's" where
  "table_active run s =
     (case run [''list'', ''table'', ''inet'', ''outcall''] [] s of
        (outcome, s') \<Rightarrow>
          (res_bind (output_with_timeout ''inspect Outcall nftables table'' outcome)
             (\<lambda>(success, out, err).
                if success then Inr True
                else if table_missing err then Inr False
                else Inl (Inspect_Failed (trim err))), s'))"

definition delete_table :: "'s nft_tool \<Rightarrow> 's \<Rightarrow> (bridge_error, unit) result \<times> 's" where
  "delete_table run s =
     (case run [''delete'', ''table'', ''inet'', ''outcall''] [] s of
        (outcome, s') \<Rightarrow>
          (res_bind (output_with_timeout ''delete Outcall nftables table'' outcome)
             (\<lambda>(success, out, err).
                if success then Inr ()
                else if table_missing err then Inr ()
                else Inl (Delete_Failed (trim err))), s'))"

definition run_policy :: "'s nft_tool \<Rightarrow> string \<Rightarrow> 's \<Rightarrow> (bridge_error, unit) result \<times> 's" where
  "run_policy run ruleset s =
     (case run [''-f'', ''-''] ruleset s of
        (outcome, s') \<Rightarrow>
          (res_bind (output_with_timeout ''apply nftables policy'' outcome)
             (\<lambda>(success, out, err). if success then Inr () else Inl (Nft_Exited (trim err))), s'))"

definition apply_base ::
  "'s nft_tool \<Rightarrow> string \<Rightarrow> host_service_access \<Rightarrow> 's \<Rightarrow> (bridge_error, unit) result \<times> 's" where
  "apply_base run bridge_name host_services s =
     (case table_active run s of
        (Inl e, s') \<Rightarrow> (Inl e, s')
      | (Inr table_exists, s') \<Rightarrow>
          run_policy run (render_transaction bridge_name host_services table_exists) s')"

section \<open>bridge.rs\<close>

text \<open>The fields of the manager that do not change; its link is in the theory of the bridge manager.\<close>

record bridge_manager =
  br_name :: string
  br_gateway_ip :: ipv4
  br_gateway_prefix_len :: nat
  br_host_services :: host_service_access

definition bridge_new ::
  "string option \<Rightarrow> ipv4 \<Rightarrow> nat \<Rightarrow> host_service_access \<Rightarrow> (bridge_error, bridge_manager) result" where
  "bridge_new name gateway_ip gateway_prefix_len host_services =
     (let name = (case name of Some n \<Rightarrow> n | None \<Rightarrow> ''outcall0'')
      in res_bind (validate_bridge_name name) (\<lambda>_.
         if \<not> (1 \<le> gateway_prefix_len \<and> gateway_prefix_len \<le> 32) then Inl Bad_Prefix_Length
         else Inr \<lparr>br_name = name, br_gateway_ip = gateway_ip,
                   br_gateway_prefix_len = gateway_prefix_len,
                   br_host_services = host_services\<rparr>))"

definition reset_policy ::
  "'s nft_tool \<Rightarrow> bridge_manager \<Rightarrow> 's \<Rightarrow> (bridge_error, unit) result \<times> 's" where
  "reset_policy run bridge s = apply_base run (br_name bridge) (br_host_services bridge) s"

section \<open>What the base policy means\<close>

text \<open>
  The rules of a chain as data, their text, and the verdict of a chain on a packet: the verdict of
  the first rule whose conditions all hold, else the policy of the chain (the documented semantics
  of an nftables base chain).
\<close>

datatype ct_state = Ct_Invalid | Ct_Established | Ct_Related | Ct_New

datatype l4_proto = Tcp | Udp | Other_Proto

record packet =
  pk_iif :: string
  pk_oif :: string
  pk_ct :: ct_state
  pk_dst :: ip_addr
  pk_proto :: l4_proto
  pk_dport :: u16

datatype nft_match =
    M_Iif string | M_Oif string | M_Not_Iif string | M_Not_Oif string
  | M_Ct_Invalid | M_Ct_Established_Related
  | M_Nfproto_Ipv4 | M_Nfproto_Ipv6
  | M_Ip_Daddr ipv4 | M_Dport l4_proto u16

datatype verdict = Accept | Drop

type_synonym nft_rule = "nft_match list \<times> verdict"

fun match_holds :: "packet \<Rightarrow> nft_match \<Rightarrow> bool" where
  "match_holds p (M_Iif n) = (pk_iif p = n)"
| "match_holds p (M_Oif n) = (pk_oif p = n)"
| "match_holds p (M_Not_Iif n) = (pk_iif p \<noteq> n)"
| "match_holds p (M_Not_Oif n) = (pk_oif p \<noteq> n)"
| "match_holds p M_Ct_Invalid = (pk_ct p = Ct_Invalid)"
| "match_holds p M_Ct_Established_Related = (pk_ct p = Ct_Established \<or> pk_ct p = Ct_Related)"
| "match_holds p M_Nfproto_Ipv4 = (\<not> is_ipv6 (pk_dst p))"
| "match_holds p M_Nfproto_Ipv6 = is_ipv6 (pk_dst p)"
| "match_holds p (M_Ip_Daddr a) = (pk_dst p = V4 a)"
| "match_holds p (M_Dport proto port) = (pk_proto p = proto \<and> pk_dport p = port)"

fun chain_verdict :: "verdict \<Rightarrow> nft_rule list \<Rightarrow> packet \<Rightarrow> verdict" where
  "chain_verdict policy [] p = policy"
| "chain_verdict policy ((ms, v) # rules) p =
     (if list_all (match_holds p) ms then v else chain_verdict policy rules p)"

fun show_proto :: "l4_proto \<Rightarrow> string" where
  "show_proto Tcp = ''tcp''"
| "show_proto Udp = ''udp''"
| "show_proto Other_Proto = ''meta''"

fun show_match :: "nft_match \<Rightarrow> string" where
  "show_match (M_Iif n) = ''iifname '' @ quoted n"
| "show_match (M_Oif n) = ''oifname '' @ quoted n"
| "show_match (M_Not_Iif n) = ''iifname != '' @ quoted n"
| "show_match (M_Not_Oif n) = ''oifname != '' @ quoted n"
| "show_match M_Ct_Invalid = ''ct state invalid''"
| "show_match M_Ct_Established_Related = ''ct state established,related''"
| "show_match M_Nfproto_Ipv4 = ''meta nfproto ipv4''"
| "show_match M_Nfproto_Ipv6 = ''meta nfproto ipv6''"
| "show_match (M_Ip_Daddr a) = ''ip daddr '' @ show_ipv4 a"
| "show_match (M_Dport proto port) = show_proto proto @ '' dport '' @ show_nat (unat port)"

fun show_verdict :: "verdict \<Rightarrow> string" where
  "show_verdict Accept = ''accept''"
| "show_verdict Drop = ''drop''"

definition show_rule :: "nft_rule \<Rightarrow> string" where
  "show_rule r = rule_line (concat (map (\<lambda>m. show_match m @ '' '') (fst r)) @ show_verdict (snd r))"

definition show_rules :: "nft_rule list \<Rightarrow> string" where
  "show_rules rs = concat (map show_rule rs)"

definition forward_rules :: "string \<Rightarrow> nft_rule list" where
  "forward_rules name =
     [([M_Not_Iif name, M_Not_Oif name], Accept),
      ([M_Iif name, M_Ct_Invalid], Drop),
      ([M_Oif name, M_Ct_Invalid], Drop),
      ([M_Iif name, M_Nfproto_Ipv6], Drop),
      ([M_Oif name, M_Nfproto_Ipv6], Drop),
      ([M_Iif name, M_Ct_Established_Related], Accept),
      ([M_Oif name, M_Ct_Established_Related], Accept)]"

definition input_rules :: "string \<Rightarrow> host_service_access \<Rightarrow> nft_rule list" where
  "input_rules name services =
     [([M_Iif name, M_Ct_Invalid], Drop),
      ([M_Iif name, M_Ip_Daddr (hs_address (hs_dns services)), M_Dport Udp (hs_port (hs_dns services))],
       Accept),
      ([M_Iif name, M_Ip_Daddr (hs_address (hs_dns services)), M_Dport Tcp (hs_port (hs_dns services))],
       Accept)]
     @ (case hs_proxy services of
          None \<Rightarrow> []
        | Some proxy \<Rightarrow>
            [([M_Iif name, M_Ip_Daddr (hs_address proxy), M_Dport Tcp (hs_port proxy)], Accept)])
     @ [([M_Iif name, M_Nfproto_Ipv4], Drop), ([M_Iif name, M_Nfproto_Ipv6], Drop)]"

text \<open>The text the daemon installs is the text of these rules.\<close>

definition ruleset_head :: string where
  "ruleset_head = ''table inet outcall {'' @ [nl] @ ''    chain forward {'' @ [nl]
     @ rule_line ''type filter hook forward priority filter; policy drop;''"

definition ruleset_middle :: string where
  "ruleset_middle = ''    }'' @ [nl] @ [nl] @ ''    chain input_from_agents {'' @ [nl]
     @ rule_line ''type filter hook input priority filter; policy accept;''"

definition ruleset_tail :: "string \<Rightarrow> string" where
  "ruleset_tail name = ''    }'' @ [nl] @ [nl] @ ''    chain output_ipv6_block {'' @ [nl]
     @ rule_line ''type filter hook output priority filter; policy accept;''
     @ show_rules [([M_Oif name, M_Nfproto_Ipv6], Drop)] @ ''    }'' @ [nl] @ ''}''"

lemma render_base_rules:
  "render_base name services =
     ruleset_head @ show_rules (forward_rules name) @ ruleset_middle
     @ show_rules (input_rules name services) @ ruleset_tail name"
  by (simp add: ruleset_head_def ruleset_middle_def ruleset_tail_def render_base_def Let_def
      show_rules_def show_rule_def rule_line_def forward_rules_def input_rules_def proxy_rule_def
      split: option.splits)

text \<open>Rules put in front of a chain only add the packets they match.\<close>

lemma chain_verdict_prepend:
  assumes "list_all (\<lambda>r. snd r = Accept) ds"
  shows "chain_verdict policy (ds @ rules) p =
    (if list_ex (\<lambda>r. list_all (match_holds p) (fst r)) ds then Accept
     else chain_verdict policy rules p)"
  using assms
proof (induction ds)
  case Nil
  then show ?case by simp
next
  case (Cons d ds)
  then show ?case by (cases d) simp
qed

lemma forward_closed:
  assumes "pk_iif p = name" and "pk_ct p = Ct_New"
  shows "chain_verdict Drop (forward_rules name) p = Drop"
  using assms by (simp add: forward_rules_def)

lemma input_services_only:
  assumes "pk_iif p = name" and "pk_ct p \<noteq> Ct_Invalid"
  shows "chain_verdict Accept (input_rules name services) p = Accept \<longleftrightarrow>
    (pk_dst p = V4 (hs_address (hs_dns services)) \<and> pk_dport p = hs_port (hs_dns services)
       \<and> (pk_proto p = Tcp \<or> pk_proto p = Udp))
    \<or> (\<exists>proxy. hs_proxy services = Some proxy \<and> pk_dst p = V4 (hs_address proxy)
         \<and> pk_dport p = hs_port proxy \<and> pk_proto p = Tcp)"
  using assms by (cases "pk_dst p"; cases "hs_proxy services") (auto simp: input_rules_def)

section \<open>Property\<close>

text \<open>
  C7: The base policy is closed. The ruleset the daemon installs is the text of two lists of rules. Its forward chain, with any list of accept
  rules inserted in front of it, accepts a packet that opens a connection from the bridge exactly
  when one of the inserted rules matches it, so with none inserted it drops every one. A packet from
  the bridge to the host that is not invalid is accepted exactly when it goes to the DNS endpoint by
  TCP or UDP, or to the proxy endpoint, if there is one, by TCP.
\<close>

theorem base_policy_closed:
  assumes "pk_iif p = br_name bridge" and "list_all (\<lambda>r. snd r = Accept) ds"
    and "pk_ct p = Ct_New"
  shows "(chain_verdict Drop (ds @ forward_rules (br_name bridge)) p = Accept \<longleftrightarrow>
      list_ex (\<lambda>r. list_all (match_holds p) (fst r)) ds)
    \<and> (chain_verdict Accept (input_rules (br_name bridge) services) p = Accept \<longleftrightarrow>
      (pk_dst p = V4 (hs_address (hs_dns services)) \<and> pk_dport p = hs_port (hs_dns services)
         \<and> (pk_proto p = Tcp \<or> pk_proto p = Udp))
      \<or> (\<exists>proxy. hs_proxy services = Some proxy \<and> pk_dst p = V4 (hs_address proxy)
           \<and> pk_dport p = hs_port proxy \<and> pk_proto p = Tcp))
    \<and> render_base (br_name bridge) services =
         ruleset_head @ show_rules (forward_rules (br_name bridge)) @ ruleset_middle
         @ show_rules (input_rules (br_name bridge) services) @ ruleset_tail (br_name bridge)"
  using forward_closed [OF assms(1,3)] input_services_only [OF assms(1)] assms(3)
  by (simp add: chain_verdict_prepend [OF assms(2)] render_base_rules)

text \<open>A first packet from the bridge to the default proxy, and the same to another host.\<close>

definition demo_packet :: "ipv4 \<Rightarrow> packet" where
  "demo_packet dst = \<lparr>pk_iif = ''outcall0'', pk_oif = ''eth0'', pk_ct = Ct_New, pk_dst = V4 dst,
     pk_proto = Tcp, pk_dport = 8080\<rparr>"

definition demo_bridge :: bridge_manager where
  "demo_bridge = \<lparr>br_name = ''outcall0'', br_gateway_ip = 170524673, br_gateway_prefix_len = 24,
     br_host_services = default_for_gateway 170524673\<rparr>"

theorem base_policy_closed_witness:
  "chain_verdict Drop (forward_rules (br_name demo_bridge)) (demo_packet 16843009) \<noteq> Accept
   \<and> chain_verdict Accept (input_rules (br_name demo_bridge) (br_host_services demo_bridge))
       (demo_packet 170524673) = Accept"
  using base_policy_closed [of "demo_packet 16843009" demo_bridge "[]" "br_host_services demo_bridge"]
    base_policy_closed [of "demo_packet 170524673" demo_bridge "[]" "br_host_services demo_bridge"]
  by (simp add: demo_packet_def demo_bridge_def default_for_gateway_def)

end
