(* ===== verification/Nft_Controller.thy ===== *)
theory Nft_Controller
  imports Bridge_Policy "HOL-Library.AList"
begin

text \<open>
  The nftables controller of the dynamic rules (outcalld/src/dynamic/nft.rs). The trait
  \<open>NftController\<close> is the record \<open>nft_ops\<close>, over an abstract state of the kernel; what its users rely
  on is the locale \<open>nft_controller\<close>. \<open>SystemNftController\<close> runs the \<open>nft\<close> program; the locale
  \<open>nft_program\<close> says what that program documents, and the controller's laws follow from it.
\<close>

record 's nft_ops =
  ctl_insert :: "ip_addr \<Rightarrow> string \<Rightarrow> string option \<Rightarrow> u16 option \<Rightarrow> 's
    \<Rightarrow> (bridge_error, u64) result \<times> 's"
  ctl_delete :: "u64 \<Rightarrow> 's \<Rightarrow> (bridge_error, unit) result \<times> 's"
  ctl_reset :: "'s \<Rightarrow> (bridge_error, unit) result \<times> 's"

text \<open>
  \<open>IpNet::from_str\<close> of the crate ipnet (the address, the network address and the printed form) and
  \<open>Host::parse\<close> of the crate url.
\<close>

datatype url_host = Host_Domain string | Host_Address

record net_ext =
  ipnet_parse :: "string \<Rightarrow> (ip_addr \<times> ip_addr \<times> string) option"
  url_host_parse :: "string \<Rightarrow> url_host option"

section \<open>nft.rs\<close>

definition is_ipv6_addr :: "net_ext \<Rightarrow> string \<Rightarrow> bool" where
  "is_ipv6_addr ext text \<longleftrightarrow>
     (case parse_ip text of Some address \<Rightarrow> is_ipv6 address | None \<Rightarrow> False)
     \<or> (case ipnet_parse ext text of Some (address, _, _) \<Rightarrow> is_ipv6 address | None \<Rightarrow> False)"

fun handle_of_line :: "string \<Rightarrow> u64 option" where
  "handle_of_line line =
     (case split_once_str ''# handle '' line of
        None \<Rightarrow> None
      | Some (_, tail) \<Rightarrow>
          (case first_word (trim tail) of
             None \<Rightarrow> None
           | Some w \<Rightarrow> map_option of_nat (parse_u64 w)))"

fun find_map :: "('a \<Rightarrow> 'b option) \<Rightarrow> 'a list \<Rightarrow> 'b option" where
  "find_map f [] = None"
| "find_map f (x # xs) = (case f x of Some y \<Rightarrow> Some y | None \<Rightarrow> find_map f xs)"

definition parse_nft_handle :: "string \<Rightarrow> u64 option" where
  "parse_nft_handle out = find_map handle_of_line (str_lines out)"

text \<open>The prefix is that of the destination's family, which is the source's once
  \<open>nft_insert\<close> has compared them.\<close>

definition nft_expression ::
  "ip_addr \<Rightarrow> string \<Rightarrow> string option \<Rightarrow> u16 option \<Rightarrow> string list" where
  "nft_expression src_ip dst_ip protocol port =
     (let ip_prefix = (if is_ipv6 src_ip then ''ip6'' else ''ip'')
      in [ip_prefix @ '' saddr '' @ show_ip src_ip, ip_prefix @ '' daddr '' @ dst_ip]
       @ (case (protocol, port) of
            (Some protocol, Some port) \<Rightarrow> [protocol @ '' dport '' @ show_nat (unat port)]
          | (Some protocol, None) \<Rightarrow> [''meta l4proto '' @ protocol]
          | _ \<Rightarrow> [])
       @ [''accept''])"

definition insert_args :: "string list \<Rightarrow> string list" where
  "insert_args expression =
     [''--handle'', ''--echo'', ''insert'', ''rule'', ''inet'', ''outcall'', ''forward''] @ expression"

definition delete_args :: "u64 \<Rightarrow> string list" where
  "delete_args handle =
     [''delete'', ''rule'', ''inet'', ''outcall'', ''forward'', ''handle'', show_nat (unat handle)]"

definition nft_insert ::
  "net_ext \<Rightarrow> 's nft_tool \<Rightarrow> ip_addr \<Rightarrow> string \<Rightarrow> string option \<Rightarrow> u16 option \<Rightarrow> 's
    \<Rightarrow> (bridge_error, u64) result \<times> 's" where
  "nft_insert ext run src_ip dst_ip protocol port s =
     (if is_ipv6 src_ip \<noteq> is_ipv6_addr ext dst_ip then (Inl (Family_Mismatch src_ip dst_ip), s)
      else (case run (insert_args (nft_expression src_ip dst_ip protocol port)) [] s of
              (outcome, s') \<Rightarrow>
                (res_bind (output_with_timeout ''insert dynamic nftables rule'' outcome)
                   (\<lambda>(success, out, err).
                      if \<not> success then Inl (Nft_Insert_Failed err)
                      else ok_or (Nft_Handle_Missing out) (parse_nft_handle out)), s')))"

definition nft_delete :: "'s nft_tool \<Rightarrow> u64 \<Rightarrow> 's \<Rightarrow> (bridge_error, unit) result \<times> 's" where
  "nft_delete run handle s =
     (case run (delete_args handle) [] s of
        (outcome, s') \<Rightarrow>
          (res_bind (output_with_timeout ''delete dynamic nftables rule'' outcome)
             (\<lambda>(success, out, err).
                if \<not> success then Inl (Nft_Delete_Failed handle err) else Inr ()), s'))"

text \<open>\<open>impl NftController for SystemNftController\<close>\<close>

definition system_nft :: "net_ext \<Rightarrow> 's nft_tool \<Rightarrow> bridge_manager \<Rightarrow> 's nft_ops" where
  "system_nft ext run bridge =
     \<lparr>ctl_insert = nft_insert ext run,
      ctl_delete = nft_delete run,
      ctl_reset = reset_policy run bridge\<rparr>"

section \<open>The contract of a controller\<close>

text \<open>
  \<open>active s\<close> are the dynamic rules in the kernel, by handle. An insertion that succeeds adds the
  rule under a fresh handle, one that fails adds nothing; a deletion that succeeds removes its rule
  and a reset that succeeds removes every rule, and when they fail no rule appears.
\<close>

locale nft_controller =
  fixes ctl :: "'s nft_ops" and active :: "'s \<Rightarrow> u64 \<rightharpoonup> string list"
  assumes insert_ok: "ctl_insert ctl src dst proto port s = (Inr h, s') \<Longrightarrow>
      active s h = None \<and> active s' = (active s)(h \<mapsto> nft_expression src dst proto port)"
    and insert_err: "ctl_insert ctl src dst proto port s = (Inl e, s') \<Longrightarrow> active s' = active s"
    and delete_ok: "ctl_delete ctl h s = (Inr u, s') \<Longrightarrow> active s' = (active s)(h := None)"
    and delete_err: "ctl_delete ctl h s = (Inl e, s') \<Longrightarrow> active s' \<subseteq>\<^sub>m active s"
    and reset_ok: "ctl_reset ctl s = (Inr u, s') \<Longrightarrow> active s' = Map.empty"
    and reset_err: "ctl_reset ctl s = (Inl e, s') \<Longrightarrow> active s' \<subseteq>\<^sub>m active s"

text \<open>
  What nft documents: an insertion with \<open>--echo --handle\<close> prints the rule with its new handle;
  \<open>list table\<close> changes nothing and reports a missing table only when there is none, so no rule of
  it; a ruleset read with \<open>-f\<close> is applied as a whole or not at all; and the base ruleset adds no
  dynamic rule. An insertion that times out is taken not to have reached the kernel.
\<close>

locale nft_program =
  fixes run :: "'s nft_tool" and active :: "'s \<Rightarrow> u64 \<rightharpoonup> string list"
  assumes run_insert: "run (insert_args expression) [] s = (Exited True out err, s') \<Longrightarrow>
      \<exists>h pre. active s h = None \<and> active s' = (active s)(h \<mapsto> expression)
        \<and> out = pre @ ''# handle '' @ show_nat (unat h) @ [nl]
        \<and> CHR ''#'' \<notin> set pre \<and> nl \<notin> set pre"
    and run_insert_not: "run (insert_args expression) [] s = (outcome, s') \<Longrightarrow>
      (\<forall>out err. outcome \<noteq> Exited True out err) \<Longrightarrow> active s' = active s"
    and run_delete: "run (delete_args h) [] s = (Exited True out err, s') \<Longrightarrow>
      active s' = (active s)(h := None)"
    and run_delete_any: "run (delete_args h) [] s = (outcome, s') \<Longrightarrow> active s' \<subseteq>\<^sub>m active s"
    and run_list: "run [''list'', ''table'', ''inet'', ''outcall''] [] s = (outcome, s') \<Longrightarrow>
      active s' = active s"
    and run_list_missing:
      "run [''list'', ''table'', ''inet'', ''outcall''] [] s = (Exited False out err, s') \<Longrightarrow>
      table_missing err \<Longrightarrow> active s = Map.empty"
    and run_load: "run [''-f'', ''-''] (delete_table_line @ render_base name services) s
        = (Exited True out err, s') \<Longrightarrow> active s' = Map.empty"
    and run_load_any: "ruleset = render_base name services
        \<or> ruleset = delete_table_line @ render_base name services \<Longrightarrow>
      run [''-f'', ''-''] ruleset s = (outcome, s') \<Longrightarrow> active s' \<subseteq>\<^sub>m active s"

section \<open>Reading the handle\<close>

lemma split_once_str_skip:
  assumes "p \<noteq> []" and "hd p \<notin> set pre"
  shows "split_once_str p (pre @ p @ rest) = Some (pre, rest)"
  using assms(2)
proof (induction pre)
  case Nil
  then show ?case by (simp add: split_once_str.simps)
next
  case (Cons x xs)
  then have "\<not> prefix p (x # xs @ p @ rest)" using assms(1) by (cases p) auto
  with Cons show ?case by (simp add: split_once_str.simps [of p "x # xs @ p @ rest"])
qed

lemma is_whitespace_not_digit: "is_ascii_digit c \<Longrightarrow> \<not> is_whitespace c"
  by (auto simp: is_ascii_digit_def is_whitespace_def)

lemma dropWhile_none: "list_all (\<lambda>c. \<not> P c) xs \<Longrightarrow> dropWhile P xs = xs"
  by (cases xs) auto

lemma trim_digits:
  assumes "list_all is_ascii_digit ds"
  shows "trim ds = ds \<and> trim_start ds = ds"
proof -
  have "list_all (\<lambda>c. \<not> is_whitespace c) ds" "list_all (\<lambda>c. \<not> is_whitespace c) (rev ds)"
    using assms is_whitespace_not_digit by (auto simp: list_all_iff)
  then show ?thesis by (simp add: trim_def trim_start_def trim_end_def dropWhile_none)
qed

lemma first_word_digits: "list_all is_ascii_digit ds \<Longrightarrow> ds \<noteq> [] \<Longrightarrow> first_word ds = Some ds"
  using trim_digits [of ds] is_whitespace_not_digit
  by (cases ds) (simp_all add: first_word_def Let_def list_all_iff)

lemma digit_not_special: "is_ascii_digit c \<Longrightarrow> c \<noteq> nl \<and> c \<noteq> CHR 0x0D"
  by (auto simp: is_ascii_digit_def)

lemma unat_u64_less: "unat (h :: u64) \<le> 2 ^ 64 - 1"
  using unsigned_less [of h, where 'a = nat] by simp

lemma parse_nft_handle_echo:
  assumes "CHR ''#'' \<notin> set pre" and "nl \<notin> set pre"
  shows "parse_nft_handle (pre @ ''# handle '' @ show_nat (unat h) @ [nl]) = Some h"
proof -
  let ?line = "pre @ ''# handle '' @ show_nat (unat h)"
  have digits: "list_all is_ascii_digit (show_nat (unat h))" by (rule show_nat_digits)
  then have "nl \<notin> set ?line" using assms(2) digit_not_special by (auto simp: list_all_iff)
  then have "split_on nl (?line @ nl # []) = [?line, []]"
    using split_on_append [of nl ?line "[]"] by simp
  moreover have "is_ascii_digit (last ?line)"
    using digits by (simp add: list_all_iff)
  then have "strip_suffix_char (CHR 0x0D) ?line = ?line"
    using digit_not_special [of "last ?line"] unfolding strip_suffix_char_def by presburger
  ultimately have "str_lines (?line @ nl # []) = [?line]"
    by (simp add: str_lines_def)
  moreover have "split_once_str ''# handle '' ?line = Some (pre, show_nat (unat h))"
    using assms(1) by (intro split_once_str_skip) simp_all
  then have "handle_of_line ?line = Some h"
    using digits unat_u64_less [of h]
    by (simp add: trim_digits first_word_digits parse_u64_def parse_show_nat del: unsigned_less)
  ultimately show ?thesis by (simp add: parse_nft_handle_def)
qed

section \<open>The system controller\<close>

context nft_program
begin

lemma nft_insert_ok:
  assumes "nft_insert ext run src dst proto port s = (Inr h, s')"
  shows "active s h = None \<and> active s' = (active s)(h \<mapsto> nft_expression src dst proto port)"
proof -
  obtain out err where run: "run (insert_args (nft_expression src dst proto port)) [] s
      = (Exited True out err, s')" and h: "parse_nft_handle out = Some h"
    using assms by (auto simp: nft_insert_def result_simps split: prod.splits if_splits
        elim!: output_with_timeout.elims)
  from run_insert [OF run] obtain k pre where k: "active s k = None"
    "active s' = (active s)(k \<mapsto> nft_expression src dst proto port)"
    "out = pre @ ''# handle '' @ show_nat (unat k) @ [nl]"
    "CHR ''#'' \<notin> set pre" "nl \<notin> set pre" by blast
  then have "parse_nft_handle out = Some k" using parse_nft_handle_echo by blast
  with h k show ?thesis by simp
qed

lemma nft_insert_err:
  assumes "nft_insert ext run src dst proto port s = (Inl e, s')"
  shows "active s' = active s"
proof (cases "is_ipv6 src \<noteq> is_ipv6_addr ext dst")
  case True
  with assms show ?thesis by (simp add: nft_insert_def)
next
  case False
  obtain oc where run: "run (insert_args (nft_expression src dst proto port)) [] s = (oc, s')"
    using assms False by (auto simp: nft_insert_def split: prod.splits)
  have "oc \<noteq> Exited True out err" for out err
  proof
    assume "oc = Exited True out err"
    note run' = run [unfolded this]
    from run_insert [OF run'] obtain k where "parse_nft_handle out = Some k"
      using parse_nft_handle_echo by blast
    with assms run' False show False by (simp add: nft_insert_def)
  qed
  with run show ?thesis using run_insert_not by blast
qed

lemma run_transaction_any:
  "run [''-f'', ''-''] (render_transaction name services present) s = (outcome, s') \<Longrightarrow>
     active s' \<subseteq>\<^sub>m active s"
  using run_load_any [of "render_transaction name services present" name services]
  by (cases present) (simp_all add: render_transaction_def Let_def)

lemma reset_policy_ok:
  assumes "reset_policy run bridge s = (Inr u, s')"
  shows "active s' = Map.empty"
proof -
  obtain present s1 where t: "table_active run s = (Inr present, s1)"
    and p: "run_policy run (render_transaction (br_name bridge) (br_host_services bridge) present) s1
      = (Inr u, s')"
    using assms by (auto simp: reset_policy_def apply_base_def split: prod.splits sum.splits)
  obtain out err where l: "run [''-f'', ''-'']
      (render_transaction (br_name bridge) (br_host_services bridge) present) s1
      = (Exited True out err, s')"
    using p by (auto simp: run_policy_def result_simps split: prod.splits if_splits
        elim!: output_with_timeout.elims)
  show ?thesis
  proof (cases present)
    case True
    with l show ?thesis by (simp add: render_transaction_def run_load)
  next
    case False
    with t obtain out' err' where "run [''list'', ''table'', ''inet'', ''outcall''] [] s
        = (Exited False out' err', s1)" "table_missing err'"
      by (auto simp: table_active_def result_simps split: prod.splits if_splits
          elim!: output_with_timeout.elims)
    then have "active s1 = Map.empty" using run_list run_list_missing by metis
    then show ?thesis
      using run_transaction_any [OF l] by (metis map_le_antisym map_le_empty)
  qed
qed

lemma reset_policy_any:
  assumes "reset_policy run bridge s = (r, s')"
  shows "active s' \<subseteq>\<^sub>m active s"
proof -
  obtain t s1 where t: "table_active run s = (t, s1)" by fastforce
  then have s1: "active s1 = active s"
    using run_list by (auto simp: table_active_def split: prod.splits)
  show ?thesis
  proof (cases t)
    case (Inl e)
    with assms t s1 show ?thesis by (simp add: reset_policy_def apply_base_def)
  next
    case (Inr present)
    with assms t obtain outcome where "run [''-f'', ''-'']
        (render_transaction (br_name bridge) (br_host_services bridge) present) s1 = (outcome, s')"
      by (auto simp: reset_policy_def apply_base_def run_policy_def split: prod.splits)
    then show ?thesis unfolding s1 [symmetric] by (rule run_transaction_any)
  qed
qed

end

sublocale nft_program \<subseteq> system: nft_controller "system_nft ext run bridge" active
  for ext bridge
proof unfold_locales
  show "active s' = (active s)(h := None)"
    if "ctl_delete (system_nft ext run bridge) h s = (Inr u, s')" for h s u s'
    using that run_delete
    by (auto simp: system_nft_def nft_delete_def result_simps split: prod.splits if_splits
        elim!: output_with_timeout.elims)
  show "active s' \<subseteq>\<^sub>m active s" if "ctl_delete (system_nft ext run bridge) h s = (Inl e, s')" for h s e s'
    using that run_delete_any by (auto simp: system_nft_def nft_delete_def split: prod.splits)
qed (auto simp: system_nft_def dest: nft_insert_ok nft_insert_err reset_policy_ok reset_policy_any)

context nft_program
begin

lemma system_controller: "nft_controller (system_nft ext run bridge) active"
  by (rule system.nft_controller_axioms)

end

section \<open>A reference implementation of nft\<close>

text \<open>
  A kernel with one table, its dynamic rules by handle, and a schedule of faults: a command may be
  refused or hang before it reaches the kernel. \<open>Hang_Applied\<close> is the fault the locale excludes for
  insertions: the command reaches the kernel and then hangs.
\<close>

datatype nft_fault = Fine | Refuse | Hang | Hang_Applied

record nft_kernel =
  k_table :: bool
  k_rules :: "(u64 \<times> string list) list"
  k_faults :: "nft_fault list"

definition k_active :: "nft_kernel \<Rightarrow> u64 \<rightharpoonup> string list" where
  "k_active k = (if k_table k then map_of (k_rules k) else Map.empty)"

definition fresh_handle :: "nft_kernel \<Rightarrow> u64 option" where
  "fresh_handle k =
     map_option of_nat (find (\<lambda>n. (of_nat n :: u64) \<notin> fst ` set (k_rules k)) [1..<length (k_rules k) + 2])"

definition sim_apply :: "string list \<Rightarrow> string \<Rightarrow> nft_kernel \<Rightarrow> command_outcome \<times> nft_kernel" where
  "sim_apply args input k =
     (if prefix (insert_args []) args then
        (if \<not> k_table k then (Exited False [] ''No such file or directory'', k)
         else (case fresh_handle k of
                 None \<Rightarrow> (Exited False [] ''No space left'', k)
               | Some h \<Rightarrow>
                   (Exited True (''insert rule inet outcall forward '' @ ''# handle ''
                      @ show_nat (unat h) @ [nl]) [],
                    k\<lparr>k_rules := (h, drop 7 args) # k_rules k\<rparr>)))
      else if prefix [''delete'', ''rule''] args then
        (case parse_u64 (last args) of
           None \<Rightarrow> (Exited False [] ''syntax error'', k)
         | Some n \<Rightarrow>
             if of_nat n \<in> fst ` set (k_rules k)
             then (Exited True [] [], k\<lparr>k_rules := AList.delete (of_nat n) (k_rules k)\<rparr>)
             else (Exited False [] ''No such file or directory'', k))
      else if args = [''list'', ''table'', ''inet'', ''outcall''] then
        (if k_table k then (Exited True [] [], k)
         else (Exited False [] ''No such file or directory'', k))
      else if args = [''-f'', ''-''] then
        (if prefix delete_table_line input then
           (if k_table k then (Exited True [] [], k\<lparr>k_rules := []\<rparr>)
            else (Exited False [] ''No such file or directory'', k))
         else if k_table k then (Exited True [] [], k)
         else (Exited True [] [], k\<lparr>k_table := True, k_rules := []\<rparr>))
      else (Exited False [] ''syntax error'', k))"

definition sim_nft :: "nft_kernel nft_tool" where
  "sim_nft args input k =
     (let k' = k\<lparr>k_faults := tl (k_faults k)\<rparr>
      in case k_faults k of
           Refuse # _ \<Rightarrow> (Exited False [] ''Operation not permitted'', k')
         | Hang # _ \<Rightarrow> (Timed_Out, k')
         | Hang_Applied # _ \<Rightarrow>
             if prefix (insert_args []) args then (Timed_Out, k')
             else (Timed_Out, snd (sim_apply args input k'))
         | _ \<Rightarrow> sim_apply args input k')"

text \<open>The same program, but an insertion too may hang after it reached the kernel.\<close>

definition late_nft :: "nft_kernel nft_tool" where
  "late_nft args input k =
     (case k_faults k of
        Hang_Applied # _ \<Rightarrow>
          (Timed_Out, snd (sim_apply args input (k\<lparr>k_faults := tl (k_faults k)\<rparr>)))
      | _ \<Rightarrow> sim_nft args input k)"

lemma k_active_faults [simp]: "k_active (k\<lparr>k_faults := fs\<rparr>) = k_active k"
  by (simp add: k_active_def)

lemma fresh_handle_unused: "fresh_handle k = Some h \<Longrightarrow> k_active k h = None"
  by (auto simp: fresh_handle_def k_active_def find_Some_iff map_of_eq_None_iff)

lemma sim_insert_apply:
  "sim_apply (insert_args e) [] k =
     (if \<not> k_table k then (Exited False [] ''No such file or directory'', k)
      else (case fresh_handle k of
              None \<Rightarrow> (Exited False [] ''No space left'', k)
            | Some h \<Rightarrow>
                (Exited True (''insert rule inet outcall forward '' @ ''# handle ''
                   @ show_nat (unat h) @ [nl]) [], k\<lparr>k_rules := (h, e) # k_rules k\<rparr>)))"
  by (simp add: sim_apply_def insert_args_def split: option.split)

lemma sim_insert_cases:
  assumes "sim_nft (insert_args e) [] k = (outcome, k')"
  shows "(\<exists>h. outcome = Exited True (''insert rule inet outcall forward '' @ ''# handle ''
              @ show_nat (unat h) @ [nl]) []
            \<and> k_active k h = None \<and> k_active k' = (k_active k)(h \<mapsto> e))
    \<or> (\<forall>out err. outcome \<noteq> Exited True out err) \<and> k_active k' = k_active k"
proof -
  let ?k = "k\<lparr>k_faults := tl (k_faults k)\<rparr>"
  have "sim_apply (insert_args e) [] ?k = (outcome, k')
      \<or> (\<forall>out err. outcome \<noteq> Exited True out err) \<and> k' = ?k"
    using assms by (auto simp: sim_nft_def Let_def insert_args_def split: list.splits nft_fault.splits)
  then show ?thesis
  proof
    assume a: "sim_apply (insert_args e) [] ?k = (outcome, k')"
    show ?thesis
    proof (cases "k_table k \<and> fresh_handle ?k \<noteq> None")
      case True
      then obtain h where "k_table k" "fresh_handle ?k = Some h" by auto
      then show ?thesis
        using a fresh_handle_unused [of ?k h]
        by (intro disjI1 exI [of _ h]) (auto simp: sim_insert_apply k_active_def)
    next
      case False
      with a show ?thesis
        by (auto simp: sim_insert_apply k_active_def split: option.splits)
    qed
  qed auto
qed

lemma sim_nft_cases:
  assumes "sim_nft args input k = (outcome, k')" and "\<not> prefix (insert_args []) args"
  obtains "sim_apply args input (k\<lparr>k_faults := tl (k_faults k)\<rparr>) = (outcome, k')"
  | out where "outcome = Exited False out ''Operation not permitted''"
      "k' = k\<lparr>k_faults := tl (k_faults k)\<rparr>"
  | "outcome = Timed_Out" "k' = k\<lparr>k_faults := tl (k_faults k)\<rparr>"
  | "outcome = Timed_Out" "k' = snd (sim_apply args input (k\<lparr>k_faults := tl (k_faults k)\<rparr>))"
  using assms by (auto simp: sim_nft_def Let_def split: list.splits nft_fault.splits)

lemma sim_delete_apply:
  "sim_apply (delete_args h) [] k =
     (if h \<in> fst ` set (k_rules k)
      then (Exited True [] [], k\<lparr>k_rules := AList.delete h (k_rules k)\<rparr>)
      else (Exited False [] ''No such file or directory'', k))"
  using unat_u64_less [of h]
  by (simp add: sim_apply_def delete_args_def insert_args_def parse_u64_def parse_show_nat)

lemma delete_args_not_insert: "\<not> prefix (insert_args []) (delete_args h)"
  by (simp add: insert_args_def delete_args_def)

lemma sim_list_apply:
  "sim_apply [''list'', ''table'', ''inet'', ''outcall''] [] k =
     (if k_table k then (Exited True [] [], k)
      else (Exited False [] ''No such file or directory'', k))"
  by (simp add: sim_apply_def insert_args_def)

lemma sim_load_apply:
  "sim_apply [''-f'', ''-''] input k =
     (if prefix delete_table_line input then
        (if k_table k then (Exited True [] [], k\<lparr>k_rules := []\<rparr>)
         else (Exited False [] ''No such file or directory'', k))
      else if k_table k then (Exited True [] [], k)
      else (Exited True [] [], k\<lparr>k_table := True, k_rules := []\<rparr>))"
  by (simp add: sim_apply_def insert_args_def)

interpretation sim: nft_program sim_nft k_active
proof unfold_locales
  fix e k out err k'
  assume "sim_nft (insert_args e) [] k = (Exited True out err, k')"
  then show "\<exists>h pre. k_active k h = None \<and> k_active k' = (k_active k)(h \<mapsto> e)
      \<and> out = pre @ ''# handle '' @ show_nat (unat h) @ [nl] \<and> CHR ''#'' \<notin> set pre \<and> nl \<notin> set pre"
    using sim_insert_cases by (fastforce intro: exI [of _ "''insert rule inet outcall forward ''"])
next
  fix e k outcome k'
  assume "sim_nft (insert_args e) [] k = (outcome, k')" "\<forall>out err. outcome \<noteq> Exited True out err"
  then show "k_active k' = k_active k" using sim_insert_cases by blast
next
  fix h k out err k'
  assume "sim_nft (delete_args h) [] k = (Exited True out err, k')"
  then show "k_active k' = (k_active k)(h := None)"
    by (rule sim_nft_cases)
      (auto simp: delete_args_not_insert sim_delete_apply k_active_def delete_conv fun_upd_def
        split: if_splits)
next
  fix h k outcome k'
  assume "sim_nft (delete_args h) [] k = (outcome, k')"
  then show "k_active k' \<subseteq>\<^sub>m k_active k"
    by (rule sim_nft_cases)
      (auto simp: delete_args_not_insert sim_delete_apply k_active_def delete_conv map_le_def
        split: if_splits)
next
  fix k outcome k'
  assume "sim_nft [''list'', ''table'', ''inet'', ''outcall''] [] k = (outcome, k')"
  then show "k_active k' = k_active k"
    by (rule sim_nft_cases) (auto simp: sim_list_apply insert_args_def split: if_splits)
next
  fix k out err k'
  assume "sim_nft [''list'', ''table'', ''inet'', ''outcall''] [] k = (Exited False out err, k')"
    and "table_missing err"
  moreover have "\<not> table_missing ''Operation not permitted''" by code_simp
  ultimately show "k_active k = Map.empty"
    by (elim sim_nft_cases)
      (auto simp: sim_list_apply insert_args_def k_active_def split: if_splits)
next
  fix name services k out err k'
  assume "sim_nft [''-f'', ''-''] (delete_table_line @ render_base name services) k
    = (Exited True out err, k')"
  then show "k_active k' = Map.empty"
    by (rule sim_nft_cases)
      (auto simp: sim_load_apply insert_args_def k_active_def split: if_splits)
next
  fix ruleset name services k outcome k'
  assume "sim_nft [''-f'', ''-''] ruleset k = (outcome, k')"
  then show "k_active k' \<subseteq>\<^sub>m k_active k"
    by (rule sim_nft_cases)
      (auto simp: sim_load_apply insert_args_def k_active_def map_le_def split: if_splits)
qed

end
