(* ===== verification/State_File.thy ===== *)
theory State_File
  imports Outcall_Prelude "HOL-Library.AList"
begin

text \<open>
  Durable state files (outcalld/src/state_file.rs): bounded reads that refuse symbolic links, and
  atomic replacement through a temporary file. The file system is an association list of nodes
  under absolute paths (lists of components). Every system call first takes an event from a
  schedule: it may fail (a failed write leaves a prefix of the data behind), or another process may
  replace some node just before it, so the theorems quantify over fault and race schedules.
\<close>

type_synonym path = "string list"

datatype node = File (file_bytes: string) (file_mode: nat) | Dir | Symlink

datatype io_event = Quiet | Fail nat | Swap path "node option"

record fs =
  nodes :: "(path \<times> node) list"
  events :: "io_event list"
  next_seq :: nat
  proc_id :: nat

datatype io_kind = Not_Found | Already_Exists | Io_Other

datatype state_error =
    Stat_Failed path
  | Not_Real_File path
  | Too_Large path nat
  | Open_Failed path
  | Inspect_Failed path
  | Read_Failed path
  | File_Exists path
  | Rename_Failed path path
  | Link_Failed path path
  | Remove_Failed path
  | Is_A_Directory path
  | No_Parent path
  | Sync_Failed path
  | Name_Not_Utf8
  | Create_Failed path
  | Write_Failed path
  | Mode_Failed
  | Not_Real_Directory path
  | Also_Cleanup_Failed state_error path

text \<open>Computations over the file system that may fail with an error of type \<open>'e\<close>.\<close>

type_synonym ('e, 'a) fs_io = "fs \<Rightarrow> ('e, 'a) result \<times> fs"

type_synonym 'a io = "(state_error, 'a) fs_io"

definition io_return :: "'a \<Rightarrow> ('e, 'a) fs_io" where
  "io_return x s = (Inr x, s)"

definition io_fail :: "'e \<Rightarrow> ('e, 'a) fs_io" where
  "io_fail e s = (Inl e, s)"

definition io_bind :: "('e, 'a) fs_io \<Rightarrow> ('a \<Rightarrow> ('e, 'b) fs_io) \<Rightarrow> ('e, 'b) fs_io" where
  "io_bind m f s = (case m s of (Inl e, t) \<Rightarrow> (Inl e, t) | (Inr x, t) \<Rightarrow> f x t)"

definition node_at :: "fs \<Rightarrow> path \<Rightarrow> node option" where
  "node_at s p = map_of (nodes s) p"

definition put_node :: "path \<Rightarrow> node option \<Rightarrow> fs \<Rightarrow> fs" where
  "put_node p n s =
     s\<lparr>nodes := (case n of None \<Rightarrow> AList.delete p (nodes s) | Some x \<Rightarrow> AList.update p x (nodes s))\<rparr>"

section \<open>System calls\<close>

text \<open>Start of a system call: consume one scheduled event; \<open>Some k\<close> is an injected failure.\<close>

definition syscall :: "fs \<Rightarrow> nat option \<times> fs" where
  "syscall s =
     (case events s of
        [] \<Rightarrow> (None, s)
      | e # es \<Rightarrow>
          (let t = s\<lparr>events := es\<rparr>
           in case e of
                Quiet \<Rightarrow> (None, t)
              | Fail k \<Rightarrow> (Some k, t)
              | Swap p n \<Rightarrow> (None, put_node p n t)))"

definition lstat :: "path \<Rightarrow> fs \<Rightarrow> (io_kind, node) result \<times> fs" where
  "lstat p s =
     (case syscall s of
        (Some _, t) \<Rightarrow> (Inl Io_Other, t)
      | (None, t) \<Rightarrow> (case node_at t p of None \<Rightarrow> (Inl Not_Found, t) | Some n \<Rightarrow> (Inr n, t)))"

text \<open>\<open>open\<close> with \<open>O_NOFOLLOW\<close>: the handle refers to the node found; a symbolic link is refused.\<close>

definition open_nofollow :: "path \<Rightarrow> fs \<Rightarrow> (io_kind, node) result \<times> fs" where
  "open_nofollow p s =
     (case lstat p s of
        (Inl e, t) \<Rightarrow> (Inl e, t)
      | (Inr n, t) \<Rightarrow> (if n = Symlink then (Inl Io_Other, t) else (Inr n, t)))"

definition create_new :: "path \<Rightarrow> fs \<Rightarrow> (io_kind, unit) result \<times> fs" where
  "create_new p s =
     (case syscall s of
        (Some _, t) \<Rightarrow> (Inl Io_Other, t)
      | (None, t) \<Rightarrow>
          (if node_at t p \<noteq> None then (Inl Already_Exists, t)
           else if node_at t (butlast p) \<noteq> Some Dir then (Inl Not_Found, t)
           else (Inr (), put_node p (Some (File [] 420)) t)))"

definition write_all :: "path \<Rightarrow> string \<Rightarrow> fs \<Rightarrow> (io_kind, unit) result \<times> fs" where
  "write_all p bytes s =
     (case syscall s of
        (Some k, t) \<Rightarrow>
          (Inl Io_Other, put_node p (Some (File (take k bytes) 420)) t)
      | (None, t) \<Rightarrow> (Inr (), put_node p (Some (File bytes 420)) t))"

definition set_permissions :: "path \<Rightarrow> string \<Rightarrow> nat \<Rightarrow> fs \<Rightarrow> (io_kind, unit) result \<times> fs" where
  "set_permissions p bytes m s =
     (case syscall s of
        (Some _, t) \<Rightarrow> (Inl Io_Other, t)
      | (None, t) \<Rightarrow> (Inr (), put_node p (Some (File bytes m)) t))"

text \<open>A call on an open handle that changes no node: \<open>fsync\<close>, \<open>fstat\<close>, \<open>read\<close>.\<close>

definition plain_call :: "fs \<Rightarrow> (io_kind, unit) result \<times> fs" where
  "plain_call s = (case syscall s of (Some _, t) \<Rightarrow> (Inl Io_Other, t) | (None, t) \<Rightarrow> (Inr (), t))"

definition sys_rename :: "path \<Rightarrow> path \<Rightarrow> fs \<Rightarrow> (io_kind, unit) result \<times> fs" where
  "sys_rename from to s =
     (case syscall s of
        (Some _, t) \<Rightarrow> (Inl Io_Other, t)
      | (None, t) \<Rightarrow>
          (case node_at t from of
             None \<Rightarrow> (Inl Not_Found, t)
           | Some n \<Rightarrow>
               if node_at t to = Some Dir then (Inl Io_Other, t)
               else (Inr (), put_node from None (put_node to (Some n) t))))"

definition hard_link :: "path \<Rightarrow> path \<Rightarrow> fs \<Rightarrow> (io_kind, unit) result \<times> fs" where
  "hard_link from to s =
     (case syscall s of
        (Some _, t) \<Rightarrow> (Inl Io_Other, t)
      | (None, t) \<Rightarrow>
          (case node_at t from of
             None \<Rightarrow> (Inl Not_Found, t)
           | Some n \<Rightarrow>
               if node_at t to \<noteq> None then (Inl Already_Exists, t)
               else (Inr (), put_node to (Some n) t)))"

definition unlink :: "path \<Rightarrow> fs \<Rightarrow> (io_kind, unit) result \<times> fs" where
  "unlink p s =
     (case syscall s of
        (Some _, t) \<Rightarrow> (Inl Io_Other, t)
      | (None, t) \<Rightarrow>
          (case node_at t p of
             None \<Rightarrow> (Inl Not_Found, t)
           | Some n \<Rightarrow> if n = Dir then (Inl Io_Other, t) else (Inr (), put_node p None t)))"

text \<open>\<open>create_dir_all\<close>: a directory node for every missing prefix of the path.\<close>

definition create_dirs :: "path \<Rightarrow> fs \<Rightarrow> fs" where
  "create_dirs p s =
     foldl (\<lambda>t n. if node_at t (take n p) = None then put_node (take n p) (Some Dir) t else t)
       s [0..<Suc (length p)]"

definition create_dir_all :: "path \<Rightarrow> fs \<Rightarrow> (io_kind, unit) result \<times> fs" where
  "create_dir_all p s =
     (case syscall s of
        (Some _, t) \<Rightarrow> (Inl Io_Other, t)
      | (None, t) \<Rightarrow> (Inr (), create_dirs p t))"

text \<open>\<open>.with_context(..)?\<close>: an I/O error becomes the error of the caller.\<close>

definition with_context :: "'e \<Rightarrow> (io_kind, 'a) fs_io \<Rightarrow> ('e, 'a) fs_io" where
  "with_context e m s = (case m s of (Inl _, t) \<Rightarrow> (Inl e, t) | (Inr x, t) \<Rightarrow> (Inr x, t))"

text \<open>Lifting of pure fallible code, renaming of errors, and loops over lists.\<close>

definition io_lift :: "('e, 'a) result \<Rightarrow> ('e, 'a) fs_io" where
  "io_lift r s = (r, s)"

definition io_map_err :: "('d \<Rightarrow> 'e) \<Rightarrow> ('d, 'a) fs_io \<Rightarrow> ('e, 'a) fs_io" where
  "io_map_err f m s = (case m s of (Inl e, t) \<Rightarrow> (Inl (f e), t) | (Inr x, t) \<Rightarrow> (Inr x, t))"

fun io_fold :: "('x \<Rightarrow> 'a \<Rightarrow> ('e, 'a) fs_io) \<Rightarrow> 'x list \<Rightarrow> 'a \<Rightarrow> ('e, 'a) fs_io" where
  "io_fold f [] a = io_return a"
| "io_fold f (x # xs) a = io_bind (f x a) (io_fold f xs)"

section \<open>Operations of state\_file.rs\<close>

definition read_optional :: "path \<Rightarrow> nat \<Rightarrow> string option io" where
  "read_optional p limit s =
     (case lstat p s of
        (Inl Not_Found, t) \<Rightarrow> (Inr None, t)
      | (Inl _, t) \<Rightarrow> (Inl (Stat_Failed p), t)
      | (Inr (File bytes _), t) \<Rightarrow>
          if limit < length bytes then (Inl (Too_Large p limit), t)
          else
            (case with_context (Open_Failed p) (open_nofollow p) t of
               (Inl e, u) \<Rightarrow> (Inl e, u)
             | (Inr opened, u) \<Rightarrow>
                 (case with_context (Inspect_Failed p) plain_call u of
                    (Inl e, v) \<Rightarrow> (Inl e, v)
                  | (Inr _, v) \<Rightarrow>
                      (case opened of
                         File contents _ \<Rightarrow>
                           (case with_context (Read_Failed p) plain_call v of
                              (Inl e, w) \<Rightarrow> (Inl e, w)
                            | (Inr _, w) \<Rightarrow>
                                (let data = take (limit + 1) contents
                                 in if limit < length data then (Inl (Too_Large p limit), w)
                                    else (Inr (Some data), w)))
                       | _ \<Rightarrow> (Inl (Not_Real_File p), v))))
      | (Inr _, t) \<Rightarrow> (Inl (Not_Real_File p), t))"

definition with_temporary_cleanup :: "state_error \<Rightarrow> path \<Rightarrow> fs \<Rightarrow> state_error \<times> fs" where
  "with_temporary_cleanup e temporary s =
     (case unlink temporary s of
        (Inr _, t) \<Rightarrow> (e, t)
      | (Inl Not_Found, t) \<Rightarrow> (e, t)
      | (Inl _, t) \<Rightarrow> (Also_Cleanup_Failed e temporary, t))"

definition sync_parent :: "path \<Rightarrow> unit io" where
  "sync_parent p =
     (if p = [] then io_fail (No_Parent p)
      else io_bind (with_context (Open_Failed (butlast p)) plain_call)
             (\<lambda>_. with_context (Sync_Failed (butlast p)) plain_call))"

definition ensure_real_directory :: "path \<Rightarrow> unit io" where
  "ensure_real_directory p s =
     (case lstat p s of
        (Inr n, t) \<Rightarrow> if n = Dir then (Inr (), t) else (Inl (Not_Real_Directory p), t)
      | (Inl Not_Found, t) \<Rightarrow>
          io_bind (with_context (Create_Failed p) (create_dir_all p))
            (\<lambda>_. io_bind (with_context (Stat_Failed p) (lstat p))
               (\<lambda>n. if n = Dir then io_return () else io_fail (Not_Real_Directory p))) t
      | (Inl _, t) \<Rightarrow> (Inl (Stat_Failed p), t))"

text \<open>The name of the temporary file: process id and a process-wide sequence number.\<close>

definition temporary_path :: "path \<Rightarrow> nat \<Rightarrow> nat \<Rightarrow> path" where
  "temporary_path p pid sequence =
     butlast p @ [''.'' @ last p @ ''.outcall-tmp-'' @ show_nat pid @ ''-'' @ show_nat sequence]"

text \<open>
  Well-formed UTF-8, as \<open>str::from_utf8\<close> checks it: no overlong form, no surrogate, nothing above
  U+10FFFF.
\<close>

abbreviation in_byte_range :: "nat \<Rightarrow> nat \<Rightarrow> char \<Rightarrow> bool" where
  "in_byte_range lo hi c \<equiv> lo \<le> byte c \<and> byte c \<le> hi"

definition utf8_head :: "string \<Rightarrow> nat" where
  "utf8_head s =
     (case s of
        [] \<Rightarrow> 0
      | a # r1 \<Rightarrow>
          if byte a < 128 then 1
          else (case r1 of
             [] \<Rightarrow> 0
           | b # r2 \<Rightarrow>
               if in_byte_range 194 223 a then (if in_byte_range 128 191 b then 2 else 0)
               else (case r2 of
                  [] \<Rightarrow> 0
                | c # r3 \<Rightarrow>
                    if in_byte_range 224 239 a then
                      (if in_byte_range (if byte a = 224 then 160 else 128)
                            (if byte a = 237 then 159 else 191) b
                          \<and> in_byte_range 128 191 c then 3 else 0)
                    else (case r3 of
                       [] \<Rightarrow> 0
                     | d # _ \<Rightarrow>
                         if in_byte_range 240 244 a
                            \<and> in_byte_range (if byte a = 240 then 144 else 128)
                                 (if byte a = 244 then 143 else 191) b
                            \<and> in_byte_range 128 191 c \<and> in_byte_range 128 191 d
                         then 4 else 0))))"

function valid_utf8 :: "string \<Rightarrow> bool" where
  "valid_utf8 s =
     (if s = [] then True
      else if utf8_head s = 0 then False
      else valid_utf8 (drop (utf8_head s) s))"
  by pat_completeness auto
termination
  by (relation "measure length") auto

declare valid_utf8.simps [simp del]

text \<open>The part of \<open>write_temporary\<close> that fills the temporary file.\<close>

definition fill_temporary :: "path \<Rightarrow> string \<Rightarrow> nat \<Rightarrow> unit io" where
  "fill_temporary k bytes mode =
     io_bind (with_context (Create_Failed k) (create_new k))
       (\<lambda>_. io_bind (with_context (Write_Failed k) (write_all k bytes))
         (\<lambda>_. io_bind (with_context Mode_Failed (set_permissions k bytes mode))
           (\<lambda>_. with_context (Sync_Failed k) plain_call)))"

definition write_temporary :: "path \<Rightarrow> string \<Rightarrow> nat \<Rightarrow> path io" where
  "write_temporary p bytes mode =
     (if p = [] then io_fail (No_Parent p)
      else io_bind (ensure_real_directory (butlast p)) (\<lambda>_ s.
        if \<not> valid_utf8 (last p) then (Inl Name_Not_Utf8, s)
        else
          (let temporary = temporary_path p (proc_id s) (next_seq s)
           in case fill_temporary temporary bytes mode (s\<lparr>next_seq := next_seq s + 1\<rparr>) of
                (Inr _, t) \<Rightarrow> (Inr temporary, t)
              | (Inl e, t) \<Rightarrow>
                  (case with_temporary_cleanup e temporary t of (e', u) \<Rightarrow> (Inl e', u)))))"

definition write_atomic :: "path \<Rightarrow> string \<Rightarrow> nat \<Rightarrow> unit io" where
  "write_atomic p bytes mode =
     io_bind (write_temporary p bytes mode) (\<lambda>temporary s.
       case io_bind (with_context (Rename_Failed p temporary) (sys_rename temporary p))
              (\<lambda>_. sync_parent p) s of
         (Inr _, t) \<Rightarrow> (Inr (), t)
       | (Inl e, t) \<Rightarrow>
           (case with_temporary_cleanup e temporary t of (e', u) \<Rightarrow> (Inl e', u)))"

definition write_new_atomic :: "path \<Rightarrow> string \<Rightarrow> nat \<Rightarrow> unit io" where
  "write_new_atomic p bytes mode s =
     (case lstat p s of
        (Inr _, t) \<Rightarrow> (Inl (File_Exists p), t)
      | (Inl Not_Found, t) \<Rightarrow>
          io_bind (write_temporary p bytes mode) (\<lambda>temporary u.
            case io_bind (with_context (Link_Failed p temporary) (hard_link temporary p))
                   (\<lambda>_. io_bind (with_context (Remove_Failed temporary) (unlink temporary))
                     (\<lambda>_. sync_parent p)) u of
              (Inr _, v) \<Rightarrow> (Inr (), v)
            | (Inl e, v) \<Rightarrow>
                (case with_temporary_cleanup e temporary v of (e', w) \<Rightarrow> (Inl e', w))) t
      | (Inl _, t) \<Rightarrow> (Inl (Stat_Failed p), t))"

definition remove_if_exists :: "path \<Rightarrow> bool io" where
  "remove_if_exists p s =
     (case lstat p s of
        (Inr n, t) \<Rightarrow>
          if n = Dir then (Inl (Is_A_Directory p), t)
          else io_bind (with_context (Remove_Failed p) (unlink p))
                 (\<lambda>_. io_bind (sync_parent p) (\<lambda>_. io_return True)) t
      | (Inl Not_Found, t) \<Rightarrow> (Inr False, t)
      | (Inl _, t) \<Rightarrow> (Inl (Stat_Failed p), t))"

section \<open>Frames\<close>

text \<open>No other process replaces nodes; calls may still fail.\<close>

fun is_race :: "io_event \<Rightarrow> bool" where
  "is_race (Swap _ _) = True"
| "is_race _ = False"

definition no_race :: "fs \<Rightarrow> bool" where
  "no_race s \<longleftrightarrow> list_all (\<lambda>e. \<not> is_race e) (events s)"

text \<open>From \<open>s\<close> to \<open>t\<close> only nodes at paths in \<open>A\<close> may have changed.\<close>

definition frame :: "path set \<Rightarrow> fs \<Rightarrow> fs \<Rightarrow> bool" where
  "frame A s t \<longleftrightarrow>
     no_race t \<and> proc_id t = proc_id s \<and> (\<forall>q. q \<notin> A \<longrightarrow> node_at t q = node_at s q)"

lemma node_at_put_node [simp]: "node_at (put_node p n s) q = (if q = p then n else node_at s q)"
  by (simp add: node_at_def put_node_def update_conv' delete_conv' split: option.splits)

lemma put_node_fields [simp]:
  "events (put_node p n s) = events s" "proc_id (put_node p n s) = proc_id s"
  "next_seq (put_node p n s) = next_seq s"
  by (simp_all add: put_node_def)

lemma node_at_next_seq [simp]: "node_at (s\<lparr>next_seq := n\<rparr>) q = node_at s q"
  by (simp add: node_at_def)

lemma no_race_put_node [simp]: "no_race (put_node p n s) = no_race s"
  by (simp add: no_race_def)

lemma frame_refl: "no_race s \<Longrightarrow> frame {} s s"
  by (simp add: frame_def)

lemma frame_trans: "frame A s t \<Longrightarrow> frame B t u \<Longrightarrow> frame (A \<union> B) s u"
  by (simp add: frame_def)

lemma frame_mono: "frame A s t \<Longrightarrow> A \<subseteq> B \<Longrightarrow> frame B s t"
  by (auto simp: frame_def)

lemma frame_no_race: "frame A s t \<Longrightarrow> no_race t"
  by (simp add: frame_def)

lemma frame_node: "frame A s t \<Longrightarrow> q \<notin> A \<Longrightarrow> node_at t q = node_at s q"
  by (simp add: frame_def)

lemma syscall_frame:
  assumes "no_race s" and "syscall s = (r, t)"
  shows "frame {} s t" "node_at t = node_at s"
  using assms
  by (auto simp: syscall_def frame_def no_race_def node_at_def fun_eq_iff Let_def
      split: list.splits io_event.splits)

lemma syscall_quiet: "events s = [] \<Longrightarrow> syscall s = (None, s)"
  by (simp add: syscall_def)

lemmas call_defs = lstat_def open_nofollow_def create_new_def write_all_def set_permissions_def
  plain_call_def sys_rename_def hard_link_def unlink_def

lemma frame_put: "frame A s t \<Longrightarrow> frame (insert p A) s (put_node p n t)"
  by (auto simp: frame_def)

lemma lstat_frame: "no_race s \<Longrightarrow> lstat p s = (r, t) \<Longrightarrow> frame {} s t"
  and lstat_value: "no_race s \<Longrightarrow> lstat p s = (Inr n, t) \<Longrightarrow> node_at s p = Some n"
  and lstat_missing: "no_race s \<Longrightarrow> lstat p s = (Inl Not_Found, t) \<Longrightarrow> node_at s p = None"
  using syscall_frame [of s]
  by (auto simp: lstat_def split: prod.splits option.splits)

lemma create_new_frame: "no_race s \<Longrightarrow> create_new p s = (r, t) \<Longrightarrow> frame {p} s t"
  using syscall_frame [of s]
  by (force simp: create_new_def frame_def split: prod.splits option.splits if_splits)

lemma write_all_frame: "no_race s \<Longrightarrow> write_all p b s = (r, t) \<Longrightarrow> frame {p} s t"
  using syscall_frame [of s]
  by (force simp: write_all_def frame_def split: prod.splits option.splits if_splits)

lemma set_permissions_frame:
  "no_race s \<Longrightarrow> set_permissions p b m s = (r, t) \<Longrightarrow>
     frame {p} s t \<and> (is_ok r \<longrightarrow> node_at t p = Some (File b m))"
  using syscall_frame [of s]
  by (force simp: set_permissions_def frame_def split: prod.splits option.splits if_splits)

lemma plain_call_frame: "no_race s \<Longrightarrow> plain_call s = (r, t) \<Longrightarrow> frame {} s t"
  using syscall_frame [of s]
  by (force simp: plain_call_def frame_def split: prod.splits option.splits if_splits)

lemma sys_rename_frame:
  "no_race s \<Longrightarrow> sys_rename a b s = (r, t) \<Longrightarrow> a \<noteq> b \<Longrightarrow>
     (case r of Inl _ \<Rightarrow> frame {} s t
      | Inr _ \<Rightarrow> frame {a, b} s t \<and> node_at t b = node_at s a \<and> node_at t a = None)"
  using syscall_frame [of s]
  by (force simp: sys_rename_def frame_def split: prod.splits option.splits if_splits)

lemma hard_link_frame:
  "no_race s \<Longrightarrow> hard_link a b s = (r, t) \<Longrightarrow>
     (case r of Inl _ \<Rightarrow> frame {} s t
      | Inr _ \<Rightarrow> frame {b} s t \<and> node_at s b = None \<and> node_at t b = node_at s a)"
  using syscall_frame [of s]
  by (force simp: hard_link_def frame_def split: prod.splits option.splits if_splits)

lemma unlink_frame:
  "no_race s \<Longrightarrow> unlink p s = (r, t) \<Longrightarrow>
     frame {p} s t \<and> (is_ok r \<longrightarrow> node_at t p = None) \<and> (r = Inl Not_Found \<longrightarrow> node_at t p = None)"
  using syscall_frame [of s]
  by (force simp: unlink_def frame_def split: prod.splits option.splits if_splits)


lemma with_context_eq:
  "with_context e m s = (r, t) \<longleftrightarrow>
     (\<exists>x. m s = (Inr x, t) \<and> r = Inr x) \<or> (\<exists>k. m s = (Inl k, t) \<and> r = Inl e)"
  by (auto simp: with_context_def split: prod.splits sum.splits)

lemma io_bind_eq:
  "io_bind m f s = (r, t) \<longleftrightarrow>
     (\<exists>x u. m s = (Inr x, u) \<and> f x u = (r, t)) \<or> (\<exists>e. m s = (Inl e, t) \<and> r = Inl e)"
  by (auto simp: io_bind_def split: prod.splits sum.splits)

lemma io_return_eq: "io_return x s = (r, t) \<longleftrightarrow> r = Inr x \<and> t = s"
  by (auto simp: io_return_def)

lemma io_fail_eq: "io_fail e s = (r, t) \<longleftrightarrow> r = Inl e \<and> t = s"
  by (auto simp: io_fail_def)

lemma io_lift_eq: "io_lift x s = (r, t) \<longleftrightarrow> r = x \<and> t = s"
  by (auto simp: io_lift_def)

lemma io_map_err_eq:
  "io_map_err f m s = (r, t) \<longleftrightarrow>
     (\<exists>x. m s = (Inr x, t) \<and> r = Inr x) \<or> (\<exists>e. m s = (Inl e, t) \<and> r = Inl (f e))"
  by (auto simp: io_map_err_def split: prod.splits sum.splits)

lemmas io_eqs = with_context_eq io_bind_eq io_return_eq io_fail_eq io_lift_eq io_map_err_eq

text \<open>An invariant of the accumulated value of a loop.\<close>

lemma io_fold_invariant:
  assumes "io_fold f xs a s = (Inr b, t)" and "P a"
    and "\<And>x a b s t. x \<in> set xs \<Longrightarrow> P a \<Longrightarrow> f x a s = (Inr b, t) \<Longrightarrow> P b"
  shows "P b"
  using assms
proof (induction xs arbitrary: a s)
  case Nil
  then show ?case by (simp add: io_return_eq)
next
  case (Cons x xs)
  from Cons.prems(1) obtain c u where c: "f x a s = (Inr c, u)" "io_fold f xs c u = (Inr b, t)"
    by (auto simp: io_bind_eq)
  moreover have "P c" using Cons.prems(3) [OF _ Cons.prems(2) c(1)] by simp
  moreover have "P d" if "y \<in> set xs" "P e" "f y e v = (Inr d, w)" for y e d v w
    using Cons.prems(3) [OF _ that(2,3)] that(1) by simp
  ultimately show ?case using Cons.IH by blast
qed

lemma create_dirs_frame:
  assumes "no_race s"
  shows "frame {q. prefix q p} s (create_dirs p s)"
proof -
  let ?f = "\<lambda>t n. if node_at t (take n p) = None then put_node (take n p) (Some Dir) t else t"
  have "frame {q. prefix q p} s (foldl ?f t ns)" if "frame {q. prefix q p} s t" for t ns
    using that
  proof (induction ns arbitrary: t)
    case Nil
    then show ?case by simp
  next
    case (Cons n ns)
    have "frame {q. prefix q p} s (?f t n)"
      using Cons.prems(1) frame_put [OF Cons.prems(1), of "take n p" "Some Dir"]
      by (auto simp: insert_absorb take_is_prefix)
    with Cons.IH show ?case by simp
  qed
  moreover have "frame {q. prefix q p} s s" using assms by (simp add: frame_def)
  ultimately show ?thesis unfolding create_dirs_def by blast
qed

text \<open>A computation that, in every fault schedule, changes only nodes at paths in \<open>A\<close>.\<close>

definition touches :: "path set \<Rightarrow> (fs \<Rightarrow> ('e, 'a) result \<times> fs) \<Rightarrow> bool" where
  "touches A m \<longleftrightarrow> (\<forall>s r t. no_race s \<longrightarrow> m s = (r, t) \<longrightarrow> frame A s t)"

lemma touchesI: "(\<And>s r t. no_race s \<Longrightarrow> m s = (r, t) \<Longrightarrow> frame A s t) \<Longrightarrow> touches A m"
  by (simp add: touches_def)

lemma touchesD: "touches A m \<Longrightarrow> no_race s \<Longrightarrow> m s = (r, t) \<Longrightarrow> frame A s t"
  by (simp add: touches_def)

lemma touches_mono: "touches A m \<Longrightarrow> A \<subseteq> B \<Longrightarrow> touches B m"
  by (auto simp: touches_def intro: frame_mono)

lemma touches_with_context: "touches A m \<Longrightarrow> touches A (with_context e m)"
  by (auto simp: touches_def with_context_eq)

lemma touches_io_bind:
  assumes "touches A m" and "\<And>x. touches A (f x)"
  shows "touches A (io_bind m f)"
proof (rule touchesI)
  fix s r t
  assume nr: "no_race s" and "io_bind m f s = (r, t)"
  then consider x u where "m s = (Inr x, u)" "f x u = (r, t)" | e where "m s = (Inl e, t)"
    by (auto simp: io_bind_eq)
  then show "frame A s t"
  proof cases
    case 1
    have "frame A s u" using assms(1) nr 1(1) by (rule touchesD)
    moreover have "frame A u t"
      using assms(2) frame_no_race [OF \<open>frame A s u\<close>] 1(2) by (rule touchesD)
    ultimately show ?thesis using frame_trans [of A s u A t] by simp
  next
    case 2
    with assms(1) nr show ?thesis by (auto dest: touchesD)
  qed
qed

lemma touches_return: "touches A (io_return x)" "touches A (io_fail e)"
  using frame_refl frame_mono [of "{}" _ _ A]
  by (auto simp: touches_def io_return_eq io_fail_eq)

lemma touches_calls:
  "touches {} (lstat p)" "touches {p} (create_new p)" "touches {p} (write_all p b)"
  "touches {p} (set_permissions p b m)" "touches {} plain_call" "touches {p} (unlink p)"
  using lstat_frame create_new_frame write_all_frame set_permissions_frame plain_call_frame
    unlink_frame
  by (auto simp: touches_def)

lemma touches_create_dir_all: "touches {q. prefix q p} (create_dir_all p)"
proof (rule touchesI)
  fix s r t
  assume nr: "no_race s" and eq: "create_dir_all p s = (r, t)"
  obtain f u where sc: "syscall s = (f, u)" by fastforce
  note fr = syscall_frame(1) [OF nr sc]
  show "frame {q. prefix q p} s t"
  proof (cases f)
    case None
    with eq sc have "t = create_dirs p u" by (simp add: create_dir_all_def)
    with create_dirs_frame [OF frame_no_race [OF fr]] frame_trans [OF fr] show ?thesis
      by fastforce
  next
    case (Some k)
    with eq sc fr show ?thesis by (auto simp: create_dir_all_def intro: frame_mono)
  qed
qed

lemma touches_ensure_real_directory: "touches {q. prefix q p} (ensure_real_directory p)"
proof (rule touchesI)
  fix s r t
  assume nr: "no_race s" and eq: "ensure_real_directory p s = (r, t)"
  obtain l u where l: "lstat p s = (l, u)" by fastforce
  note fr = lstat_frame [OF nr l]
  let ?make = "io_bind (with_context (Create_Failed p) (create_dir_all p))
            (\<lambda>_. io_bind (with_context (Stat_Failed p) (lstat p))
               (\<lambda>n. if n = Dir then io_return () else io_fail (Not_Real_Directory p)))"
  have "touches {q. prefix q p} ?make"
    by (intro touches_io_bind touches_with_context touches_create_dir_all
        touches_mono [OF touches_calls(1)])
       (auto simp: touches_return)
  then have "frame {q. prefix q p} u t" if "?make u = (r, t)"
    using that frame_no_race [OF fr] by (auto dest: touchesD)
  moreover have "?make u = (r, t) \<or> t = u"
    using eq l by (auto simp: ensure_real_directory_def split: sum.splits io_kind.splits if_splits)
  ultimately show "frame {q. prefix q p} s t"
    using frame_trans [OF fr] fr by (fastforce intro: frame_mono)
qed

lemma touches_sync_parent: "touches {} (sync_parent p)"
  unfolding sync_parent_def
  by (auto intro: touches_io_bind touches_with_context touches_calls touches_return)

section \<open>Atomicity\<close>

definition temporaries :: "path \<Rightarrow> path set" where
  "temporaries p = {temporary_path p pid k | pid k. True}"

text \<open>What a write may touch besides its target: temporary names and missing parent directories.\<close>

definition scratch :: "path \<Rightarrow> path set" where
  "scratch p = temporaries p \<union> {q. prefix q (butlast p)}"

lemma temporary_path_neq: "p \<noteq> [] \<Longrightarrow> temporary_path p pid k \<noteq> p"
proof
  assume "p \<noteq> []" and "temporary_path p pid k = p"
  then have "last (temporary_path p pid k) = last p" by simp
  then have "length (last (temporary_path p pid k)) = length (last p)" by simp
  then show False by (simp add: temporary_path_def)
qed

lemma target_not_scratch: "p \<noteq> [] \<Longrightarrow> p \<notin> scratch p"
proof
  assume p: "p \<noteq> []" "p \<in> scratch p"
  then have "prefix p (butlast p)"
    using temporary_path_neq [OF p(1)] unfolding scratch_def temporaries_def
    by (smt (verit) Un_iff mem_Collect_eq)
  then have "length p \<le> length (butlast p)" by (rule prefix_length_le)
  then show False using p(1) by (cases p) (simp_all split: if_splits)
qed

lemma touches_cleanup:
  assumes "touches A m" and "k \<in> A"
  shows "touches A (\<lambda>s. case m s of (Inr x, t) \<Rightarrow> (Inr (g x), t)
     | (Inl e, t) \<Rightarrow> (case with_temporary_cleanup e k t of (e', u) \<Rightarrow> (Inl e', u)))"
proof (rule touchesI)
  fix s r t
  assume nr: "no_race s"
    and eq: "(case m s of (Inr x, t) \<Rightarrow> (Inr (g x), t)
     | (Inl e, t) \<Rightarrow> (case with_temporary_cleanup e k t of (e', u) \<Rightarrow> (Inl e', u))) = (r, t)"
  obtain a u where a: "m s = (a, u)" by fastforce
  note fr = touchesD [OF assms(1) nr a]
  have "t = u \<or> (\<exists>x. unlink k u = (x, t))"
    using eq a by (auto simp: with_temporary_cleanup_def
        split: sum.splits prod.splits io_kind.splits)
  then show "frame A s t"
  proof
    assume "\<exists>x. unlink k u = (x, t)"
    then have "frame {k} u t" using unlink_frame [OF frame_no_race [OF fr]] by blast
    with frame_trans [OF fr] assms(2) show ?thesis by (metis Un_insert_right insert_absorb sup_bot_right)
  qed (use fr in simp)
qed

lemma touches_fill_temporary: "touches {k} (fill_temporary k bytes mode)"
  unfolding fill_temporary_def
  by (intro touches_io_bind touches_with_context touches_calls touches_mono [OF touches_calls(5)])
     simp

lemma fill_temporary_ok:
  assumes nr: "no_race s" and ok: "fill_temporary k bytes mode s = (Inr u, t)"
  shows "node_at t k = Some (File bytes mode)"
proof -
  from ok obtain x y where calls: "create_new k s = (Inr (), x)"
      "\<exists>z. write_all k bytes x = (Inr (), z) \<and> set_permissions k bytes mode z = (Inr (), y)"
      "plain_call y = (Inr (), t)"
    by (auto simp: fill_temporary_def io_eqs)
  then obtain z where z: "write_all k bytes x = (Inr (), z)"
      "set_permissions k bytes mode z = (Inr (), y)" by blast
  have "no_race x" using create_new_frame [OF nr calls(1)] by (rule frame_no_race)
  then have "no_race z" using write_all_frame z(1) frame_no_race by blast
  then have y: "frame {k} z y" "node_at y k = Some (File bytes mode)"
    using set_permissions_frame [OF _ z(2)] by auto
  have "frame {} y t" using plain_call_frame [OF frame_no_race [OF y(1)] calls(3)] .
  with y(2) show ?thesis by (simp add: frame_def)
qed

lemma write_temporary_unfold:
  "p \<noteq> [] \<Longrightarrow> write_temporary p bytes mode =
     io_bind (ensure_real_directory (butlast p)) (\<lambda>_ s.
       if \<not> valid_utf8 (last p) then (Inl Name_Not_Utf8, s)
       else (\<lambda>k. case fill_temporary k bytes mode (s\<lparr>next_seq := next_seq s + 1\<rparr>) of
              (Inr _, t) \<Rightarrow> (Inr k, t)
            | (Inl e, t) \<Rightarrow> (case with_temporary_cleanup e k t of (e', u) \<Rightarrow> (Inl e', u)))
            (temporary_path p (proc_id s) (next_seq s)))"
  unfolding write_temporary_def Let_def by simp

lemma frame_next_seq: "no_race (s::fs) \<Longrightarrow> frame {} s (s\<lparr>next_seq := n\<rparr>)"
  by (simp add: frame_def no_race_def node_at_def)

lemma touches_write_temporary:
  assumes p: "p \<noteq> []"
  shows "touches (scratch p) (write_temporary p bytes mode)"
  unfolding write_temporary_unfold [OF p]
proof (rule touches_io_bind)
  show "touches (scratch p) (ensure_real_directory (butlast p))"
    by (rule touches_mono [OF touches_ensure_real_directory]) (simp add: scratch_def)
next
  fix x :: unit
  show "touches (scratch p) (\<lambda>s. if \<not> valid_utf8 (last p) then (Inl Name_Not_Utf8, s)
       else (\<lambda>k. case fill_temporary k bytes mode (s\<lparr>next_seq := next_seq s + 1\<rparr>) of
              (Inr _, t) \<Rightarrow> (Inr k, t)
            | (Inl e, t) \<Rightarrow> (case with_temporary_cleanup e k t of (e', u) \<Rightarrow> (Inl e', u)))
            (temporary_path p (proc_id s) (next_seq s)))"
  proof (rule touchesI)
    fix s :: fs and r t
    let ?k = "temporary_path p (proc_id s) (next_seq s)"
    assume nr: "no_race s" and eq: "(if \<not> valid_utf8 (last p) then (Inl Name_Not_Utf8, s)
       else (\<lambda>k. case fill_temporary k bytes mode (s\<lparr>next_seq := next_seq s + 1\<rparr>) of
              (Inr _, t) \<Rightarrow> (Inr k, t)
            | (Inl e, t) \<Rightarrow> (case with_temporary_cleanup e k t of (e', u) \<Rightarrow> (Inl e', u))) ?k)
         = (r, t)"
    show "frame (scratch p) s t"
    proof (cases "valid_utf8 (last p)")
      case False
      with eq nr show ?thesis by (auto intro: frame_mono [OF frame_refl])
    next
      case True
      note fr = frame_next_seq [OF nr, of "next_seq s + 1"]
      have "frame {?k} (s\<lparr>next_seq := next_seq s + 1\<rparr>) t"
        using touchesD [OF touches_cleanup [OF touches_fill_temporary,
              where k = ?k and g = "\<lambda>_. ?k"] frame_no_race [OF fr]] eq True
        by simp
      then have "frame {?k} s t" using frame_trans [OF fr] by simp
      then show ?thesis
        by (rule frame_mono) (auto simp: scratch_def temporaries_def)
    qed
  qed
qed

lemma write_temporary_ok:
  assumes nr: "no_race s" and p: "p \<noteq> []"
    and ok: "write_temporary p bytes mode s = (Inr k, t)"
  shows "k \<in> temporaries p" "node_at t k = Some (File bytes mode)"
proof -
  from ok [unfolded write_temporary_unfold [OF p] io_bind_eq]
  obtain x u where d: "ensure_real_directory (butlast p) s = (Inr x, u)"
    and f: "fill_temporary k bytes mode (u\<lparr>next_seq := next_seq u + 1\<rparr>) = (Inr (), t)"
    and k: "k = temporary_path p (proc_id u) (next_seq u)"
    by (auto split: if_splits prod.splits sum.splits)
  show "k \<in> temporaries p" using k by (auto simp: temporaries_def)
  have "no_race u" using touchesD [OF touches_ensure_real_directory nr d] by (rule frame_no_race)
  then show "node_at t k = Some (File bytes mode)"
    using fill_temporary_ok [OF _ f] frame_no_race [OF frame_next_seq] by blast
qed

text \<open>
  The step after the temporary file is complete: rename it over the target and sync, removing it
  if either fails. The target holds its old node or the complete new file.
\<close>

lemma rename_sync_cases:
  assumes nr: "no_race s" and neq: "k \<noteq> p"
    and eq: "io_bind (with_context e (sys_rename k p)) (\<lambda>_. sync_parent p) s = (r, t)"
  shows "(\<exists>e. r = Inl e) \<and> frame {} s t
       \<or> frame {k, p} s t \<and> node_at t p = node_at s k \<and> node_at t k = None"
proof -
  obtain a u where a: "sys_rename k p s = (a, u)" by fastforce
  note rn = sys_rename_frame [OF nr a neq]
  show ?thesis
  proof (cases a)
    case (Inl x)
    with eq a rn show ?thesis by (auto simp: io_eqs)
  next
    case (Inr x)
    with rn have u: "frame {k, p} s u" "node_at u p = node_at s k" "node_at u k = None" by auto
    from eq a Inr have "sync_parent p u = (r, t)" by (auto simp: io_eqs)
    then have "frame {} u t" using touchesD [OF touches_sync_parent frame_no_race [OF u(1)]] by blast
    with u show ?thesis using frame_trans [OF u(1), of "{}" t] by (auto simp: frame_def)
  qed
qed

lemma write_atomic_cases:
  assumes nr: "no_race s" and p: "p \<noteq> []" and eq: "write_atomic p bytes mode s = (r, t)"
  shows "frame (insert p (scratch p)) s t"
    and "node_at t p = node_at s p \<or> node_at t p = Some (File bytes mode)"
    and "r = Inr () \<Longrightarrow> node_at t p = Some (File bytes mode)"
proof -
  obtain w u where w: "write_temporary p bytes mode s = (w, u)" by fastforce
  note fw = touchesD [OF touches_write_temporary [OF p] nr w]
  have pu: "node_at u p = node_at s p" using frame_node [OF fw target_not_scratch [OF p]] .
  have "frame (insert p (scratch p)) s t
      \<and> (node_at t p = node_at s p \<or> node_at t p = Some (File bytes mode))
      \<and> (r = Inr () \<longrightarrow> node_at t p = Some (File bytes mode))"
  proof (cases w)
    case (Inl e)
    with eq w have "r = Inl e" "t = u" by (auto simp: write_atomic_def io_bind_eq)
    with fw pu show ?thesis by (auto intro: frame_mono)
  next
    case (Inr k)
    note k = write_temporary_ok [OF nr p w [unfolded Inr]]
    have neq: "k \<noteq> p" and ks: "k \<in> scratch p"
      using k(1) temporary_path_neq [OF p] by (auto simp: temporaries_def scratch_def)
    let ?rest = "io_bind (with_context (Rename_Failed p k) (sys_rename k p)) (\<lambda>_. sync_parent p)"
    obtain a v where a: "?rest u = (a, v)" by fastforce
    have cases: "(\<exists>e. a = Inl e) \<and> frame {} u v
       \<or> frame {k, p} u v \<and> node_at v p = node_at u k \<and> node_at v k = None"
      using rename_sync_cases [OF frame_no_race [OF fw] neq a] .
    have v: "frame (insert p (scratch p)) s v"
      using cases frame_trans [OF fw, of "{}" v] frame_trans [OF fw, of "{k, p}" v] ks
      by (elim disjE conjE) (auto elim: frame_mono)
    have v2: "node_at v p = node_at s p \<and> a \<noteq> Inr () \<or> node_at v p = Some (File bytes mode)"
      using cases k(2) pu by (auto simp: frame_def)
    have tv: "(r = Inr () \<and> a = Inr () \<and> t = v) \<or> ((\<exists>x. r = Inl x) \<and> (\<exists>y. unlink k v = (y, t)))"
      using eq w Inr a
      by (auto simp: write_atomic_def io_bind_eq with_temporary_cleanup_def
          split: sum.splits prod.splits io_kind.splits)
    then show ?thesis
    proof
      assume "(\<exists>x. r = Inl x) \<and> (\<exists>y. unlink k v = (y, t))"
      then obtain x y where r: "r = Inl x" and y: "unlink k v = (y, t)" by blast
      have fu: "frame {k} v t" using unlink_frame [OF frame_no_race [OF v] y] by blast
      then have "frame (insert p (scratch p)) s t"
        using frame_trans [OF v fu] ks by (simp add: insert_absorb insert_commute)
      moreover have "node_at t p = node_at v p" using frame_node [OF fu] neq by auto
      ultimately show ?thesis using v2 r by auto
    qed (use v v2 in auto)
  qed
  then show "frame (insert p (scratch p)) s t"
    and "node_at t p = node_at s p \<or> node_at t p = Some (File bytes mode)"
    and "r = Inr () \<Longrightarrow> node_at t p = Some (File bytes mode)"
    by blast+
qed

lemma link_sync_cases:
  assumes nr: "no_race s" and neq: "k \<noteq> p" and k: "node_at s k = Some n"
    and eq: "io_bind (with_context e (hard_link k p))
        (\<lambda>_. io_bind (with_context e' (unlink k)) (\<lambda>_. sync_parent p)) s = (r, t)"
  shows "(\<exists>e. r = Inl e) \<and> frame {} s t
       \<or> frame {k, p} s t \<and> node_at s p = None \<and> node_at t p = Some n"
proof -
  obtain a u where a: "hard_link k p s = (a, u)" by fastforce
  note hl = hard_link_frame [OF nr a]
  show ?thesis
  proof (cases a)
    case (Inl x)
    with eq a hl show ?thesis by (auto simp: io_eqs)
  next
    case (Inr x)
    with hl k have u: "frame {p} s u" "node_at s p = None" "node_at u p = Some n" by auto
    have "touches {k} (io_bind (with_context e' (unlink k)) (\<lambda>_. sync_parent p))"
      by (intro touches_io_bind touches_with_context touches_calls(6)
          touches_mono [OF touches_sync_parent]) simp
    moreover have "io_bind (with_context e' (unlink k)) (\<lambda>_. sync_parent p) u = (r, t)"
      using eq a Inr by (auto simp: io_eqs)
    ultimately have ut: "frame {k} u t" using frame_no_race [OF u(1)] by (auto dest: touchesD)
    then have "node_at t p = Some n" using u(3) neq by (simp add: frame_def)
    moreover have "frame {k, p} s t" using frame_trans [OF u(1) ut] by (simp add: insert_commute)
    ultimately show ?thesis using u(2) by blast
  qed
qed

lemma install_new_cases:
  assumes nr: "no_race s" and p: "p \<noteq> []"
    and eq: "io_bind (write_temporary p bytes mode) (\<lambda>temporary u.
            case io_bind (with_context (Link_Failed p temporary) (hard_link temporary p))
                   (\<lambda>_. io_bind (with_context (Remove_Failed temporary) (unlink temporary))
                     (\<lambda>_. sync_parent p)) u of
              (Inr _, v) \<Rightarrow> (Inr (), v)
            | (Inl e, v) \<Rightarrow>
                (case with_temporary_cleanup e temporary v of (e', w) \<Rightarrow> (Inl e', w))) s = (r, t)"
  shows "(\<exists>e. r = Inl e) \<and> node_at t p = node_at s p
       \<or> node_at s p = None \<and> node_at t p = Some (File bytes mode)"
proof -
  obtain w u where w: "write_temporary p bytes mode s = (w, u)" by fastforce
  note fw = touchesD [OF touches_write_temporary [OF p] nr w]
  have pu: "node_at u p = node_at s p" using frame_node [OF fw target_not_scratch [OF p]] .
  show ?thesis
  proof (cases w)
    case (Inl e)
    with eq w pu show ?thesis by (auto simp: io_bind_eq)
  next
    case (Inr k)
    note k = write_temporary_ok [OF nr p w [unfolded Inr]]
    have neq: "k \<noteq> p" using k(1) temporary_path_neq [OF p] by (auto simp: temporaries_def)
    let ?rest = "io_bind (with_context (Link_Failed p k) (hard_link k p))
        (\<lambda>_. io_bind (with_context (Remove_Failed k) (unlink k)) (\<lambda>_. sync_parent p))"
    obtain a v where a: "?rest u = (a, v)" by fastforce
    note cs = link_sync_cases [OF frame_no_race [OF fw] neq k(2) a]
    have nv: "no_race v" using cs by (auto simp: frame_def)
    have "(r = Inr () \<and> a = Inr () \<and> t = v) \<or> ((\<exists>x. r = Inl x) \<and> (\<exists>y. unlink k v = (y, t)))"
      using eq w Inr a
      by (auto simp: io_bind_eq with_temporary_cleanup_def
          split: sum.splits prod.splits io_kind.splits)
    moreover have "node_at t p = node_at v p" if "unlink k v = (y, t)" for y
      using unlink_frame [OF nv that] neq by (auto simp: frame_def)
    ultimately have "node_at t p = node_at v p" "r = Inr () \<Longrightarrow> a = Inr ()" by auto
    with cs pu show ?thesis by (cases r) (auto simp: frame_def)
  qed
qed

section \<open>Properties\<close>

text \<open>
  whatever fails and whatever another process does between the calls, a read that returns data
  returns at most \<open>limit\<close> bytes, and they are the whole contents of a regular file that was at the
  path when it was opened, never the target of a symbolic link.
\<close>

lemma read_optional_bounded:
  assumes "read_optional p limit s = (Inr (Some bytes), t)"
  shows "length bytes \<le> limit
    \<and> (\<exists>m. node_at (snd (open_nofollow p (snd (lstat p s)))) p = Some (File bytes m))"
  using assms
  by (auto simp: read_optional_def with_context_def open_nofollow_def lstat_def Let_def
      split: prod.splits sum.splits io_kind.splits node.splits option.splits if_splits)

text \<open>
  A small file system used in the examples: a directory with one file; its schedule lets another
  process replace that file right after the size check of a read.
\<close>

definition demo_fs :: "io_event list \<Rightarrow> fs" where
  "demo_fs es = \<lparr>nodes = [([], Dir), ([''d''], Dir), ([''d'', ''f''], File ''old'' 384)],
     events = es, next_seq = 0, proc_id = 7\<rparr>"

text \<open>
  C20: a write that may fail at any system call leaves at the target either what was there or the
  complete new contents, the latter whenever it reports success, and changes nothing but the
  target, its temporary names and missing parent directories.
\<close>

theorem write_atomic_all_or_nothing:
  assumes "no_race s" and "p \<noteq> []" and "write_atomic p bytes mode s = (r, t)"
  shows "(node_at t p = node_at s p \<or> node_at t p = Some (File bytes mode))
    \<and> (r = Inr () \<longrightarrow> node_at t p = Some (File bytes mode))
    \<and> (\<forall>q. q \<notin> insert p (scratch p) \<longrightarrow> node_at t q = node_at s q)"
  using write_atomic_cases [OF assms] by (auto simp: frame_def)

text \<open>The disk filling up after one byte of the temporary file: the old contents stay in place.\<close>

theorem write_atomic_all_or_nothing_witness:
  "(let (r, t) = write_atomic [''d'', ''f''] ''new'' 384 (demo_fs [Quiet, Quiet, Fail 1])
    in is_ok r = False \<and> node_at t [''d'', ''f''] = Some (File ''old'' 384))
   \<and> (\<exists>t. write_atomic [''d'', ''f''] ''new'' 384 (demo_fs []) = (Inr (), t)
        \<and> node_at t [''d'', ''f''] = Some (File ''new'' 384))"
proof
  have "no_race (demo_fs [Quiet, Quiet, Fail 1])" by (simp add: no_race_def demo_fs_def)
  then have "(let (r, t) = write_atomic [''d'', ''f''] ''new'' 384 (demo_fs [Quiet, Quiet, Fail 1])
    in node_at t [''d'', ''f''] = node_at (demo_fs [Quiet, Quiet, Fail 1]) [''d'', ''f'']
      \<or> node_at t [''d'', ''f''] = Some (File ''new'' 384))"
    using write_atomic_all_or_nothing [of "demo_fs [Quiet, Quiet, Fail 1]" "[''d'', ''f'']"]
    by (auto split: prod.splits)
  show "(let (r, t) = write_atomic [''d'', ''f''] ''new'' 384 (demo_fs [Quiet, Quiet, Fail 1])
    in is_ok r = False \<and> node_at t [''d'', ''f''] = Some (File ''old'' 384))"
    by code_simp
next
  have "\<exists>t. write_atomic [''d'', ''f''] ''new'' 384 (demo_fs []) = (Inr (), t)"
    by (rule exI [of _ "snd (write_atomic [''d'', ''f''] ''new'' 384 (demo_fs []))"]) code_simp
  then obtain t where t: "write_atomic [''d'', ''f''] ''new'' 384 (demo_fs []) = (Inr (), t)" ..
  have "no_race (demo_fs [])" by (simp add: no_race_def demo_fs_def)
  from write_atomic_all_or_nothing [OF this _ t] t
  show "\<exists>t. write_atomic [''d'', ''f''] ''new'' 384 (demo_fs []) = (Inr (), t)
        \<and> node_at t [''d'', ''f''] = Some (File ''new'' 384)"
    by auto
qed

text \<open>
  installing a new file never replaces an existing one, and success means the complete
  contents are at a path that held nothing.
\<close>

lemma write_new_atomic_never_replaces:
  assumes "no_race s" and "p \<noteq> []" and "write_new_atomic p bytes mode s = (r, t)"
  shows "(node_at s p \<noteq> None \<longrightarrow> node_at t p = node_at s p \<and> (\<exists>e. r = Inl e))
    \<and> (r = Inr () \<longrightarrow> node_at s p = None \<and> node_at t p = Some (File bytes mode))"
proof -
  obtain l u where l: "lstat p s = (l, u)" by fastforce
  note fr = lstat_frame [OF assms(1) l]
  have "(\<exists>e. r = Inl e) \<and> node_at t p = node_at s p
       \<or> node_at s p = None \<and> node_at t p = Some (File bytes mode)"
  proof (cases "l = Inl Not_Found")
    case True
    with assms(3) l have "(\<exists>e. r = Inl e) \<and> node_at t p = node_at u p
       \<or> node_at u p = None \<and> node_at t p = Some (File bytes mode)"
      using install_new_cases [OF frame_no_race [OF fr] assms(2)]
      by (simp add: write_new_atomic_def)
    with fr show ?thesis by (simp add: frame_def)
  next
    case False
    with assms(3) l fr show ?thesis
      by (auto simp: write_new_atomic_def frame_def split: sum.splits io_kind.splits)
  qed
  then show ?thesis by auto
qed

lemmas quiet_defs = write_atomic_def write_temporary_def fill_temporary_def io_bind_def
  with_context_def ensure_real_directory_def sync_parent_def call_defs syscall_quiet Let_def

text \<open>
  on a system where no call fails, writing a file below an existing directory succeeds, and
  reading it back within the limit returns exactly the bytes written.
\<close>

lemma write_read_roundtrip:
  assumes "events s = []" and "p \<noteq> []" and "valid_utf8 (last p)"
    and "node_at s (butlast p) = Some Dir" and "node_at s p \<noteq> Some Dir"
    and "node_at s (temporary_path p (proc_id s) (next_seq s)) = None"
    and "length bytes \<le> limit"
  shows "fst (write_atomic p bytes mode s) = Inr ()
    \<and> fst (read_optional p limit (snd (write_atomic p bytes mode s))) = Inr (Some bytes)"
proof -
  let ?k = "temporary_path p (proc_id s) (next_seq s)"
  have neq: "p \<noteq> ?k" "?k \<noteq> p" using temporary_path_neq [OF assms(2)] by metis+
  have parent: "butlast ?k = butlast p" by (simp add: temporary_path_def)
  define t where "t = put_node ?k None (put_node p (Some (File bytes mode))
     (put_node ?k (Some (File bytes mode)) (put_node ?k (Some (File bytes 420))
       (put_node ?k (Some (File [] 420)) (s\<lparr>next_seq := next_seq s + 1\<rparr>)))))"
  have w: "write_atomic p bytes mode s = (Inr (), t)"
    using assms neq parent by (simp add: quiet_defs t_def)
  have "events t = []" "node_at t p = Some (File bytes mode)"
    using assms(1) neq by (simp_all add: t_def)
  then have "read_optional p limit t = (Inr (Some bytes), t)"
    using assms(7) by (simp add: read_optional_def call_defs with_context_def syscall_quiet Let_def)
  then show ?thesis by (simp add: w)
qed

end
