(* ===== verification/Agent_Context.thy ===== *)
theory Agent_Context
  imports Ip_Address "HOL-Library.AList"
begin

text \<open>
  The evaluation context of a permission request (outcalld/src/agent\_api/context.rs): the agent sends
  an action, a target and free metadata; the daemon turns them into the context the rules see and
  adds the agent's name, which it derives from the container. A \<open>HashMap\<close> is an association list
  read with \<open>map_of\<close>. The crates url and serde\_json are parameters: \<open>context_ext\<close>.
\<close>

section \<open>Requests (outcall-api/src/agent.rs)\<close>

datatype action_type = Tool_Exec | Network_Call | File_Access | Shell_Exec

record permission_request =
  pr_action_type :: action_type
  pr_target :: string
  pr_metadata :: "(string \<times> string) list option"

record url =
  url_scheme :: string
  url_username :: string
  url_password :: "string option"
  url_host_str :: "string option"
  url_port_or_known_default :: "u16 option"
  url_path :: string
  url_query :: "string option"

record context_ext =
  url_parse :: "string \<Rightarrow> url option"
  host_parse_ok :: "string \<Rightarrow> bool"
  json_string_array :: "string \<Rightarrow> string list option"

datatype context_error =
    Empty_Target
  | Bad_Args_Json
  | Too_Many_Args
  | Bad_Argument
  | Args_Too_Long
  | Bad_Protocol
  | Bad_Url
  | Bad_Scheme
  | Http_Needs_Tcp
  | Url_Credentials
  | Url_No_Host
  | Url_No_Port
  | Bad_Method
  | Target_White_Space
  | Unbracketed_Ipv6
  | Bad_Target_Port
  | Bad_Hostname_Text
  | Zero_Port

section \<open>Socket addresses as text (std::net)\<close>

definition parse_port :: "string \<Rightarrow> u16 option" where
  "parse_port s =
     (if s \<noteq> [] \<and> list_all is_ascii_digit s \<and> digits_value s < 2 ^ 16
      then Some (of_nat (digits_value s)) else None)"

text \<open>\<open>rsplit_once\<close>: the parts around the last occurrence.\<close>

definition rsplit_once :: "char \<Rightarrow> string \<Rightarrow> (string \<times> string) option" where
  "rsplit_once c s = map_option (\<lambda>(a, b). (rev b, rev a)) (split_once c (rev s))"

definition strip_scope_id :: "string \<Rightarrow> string option" where
  "strip_scope_id s =
     (case split_once CHR ''%'' s of
        None \<Rightarrow> Some s
      | Some (a, scope) \<Rightarrow>
          if scope \<noteq> [] \<and> list_all is_ascii_digit scope \<and> digits_value scope < 2 ^ 32
          then Some a else None)"

definition parse_socket_addr :: "string \<Rightarrow> (ip_addr \<times> u16) option" where
  "parse_socket_addr s =
     (case rsplit_once CHR '':'' s of
        None \<Rightarrow> None
      | Some (host, port) \<Rightarrow>
          (case parse_port port of
             None \<Rightarrow> None
           | Some p \<Rightarrow>
               (case parse_ipv4 host of
                  Some a \<Rightarrow> Some (V4 a, p)
                | None \<Rightarrow>
                    if host \<noteq> [] \<and> hd host = CHR ''['' \<and> last host = CHR '']'' \<and> 2 \<le> length host
                    then (case strip_scope_id (butlast (tl host)) of
                            None \<Rightarrow> None
                          | Some inner \<Rightarrow> map_option (\<lambda>a. (V6 a, p)) (parse_ipv6 inner))
                    else None)))"

section \<open>context.rs\<close>

definition derive_agent_name :: "string \<Rightarrow> string" where
  "derive_agent_name container_name =
     (case rsplit_once CHR ''-'' container_name of
        Some (base, digits) \<Rightarrow>
          if digits \<noteq> [] \<and> list_all is_ascii_digit digits then base else container_name
      | None \<Rightarrow> container_name)"

fun action_type_name :: "action_type \<Rightarrow> string" where
  "action_type_name Tool_Exec = ''tool_exec''"
| "action_type_name Network_Call = ''network_call''"
| "action_type_name File_Access = ''file_access''"
| "action_type_name Shell_Exec = ''shell_exec''"

definition metadata_context ::
  "permission_request \<Rightarrow> (string \<times> string) list \<Rightarrow> (string \<times> json) list" where
  "metadata_context req metadata =
     (let metadata_object = map (\<lambda>(key, text). (key, JString text)) metadata
      in AList.update ''metadata'' (JObject metadata_object)
           (AList.update ''target'' (JString (pr_target req))
             (AList.update ''action_type'' (JString (action_type_name (pr_action_type req)))
               metadata_object)))"

definition MAX_ARGS :: nat where
  "MAX_ARGS = 1024"

definition MAX_ARG_BYTES :: nat where
  "MAX_ARG_BYTES = 32768"

definition MAX_TOTAL_BYTES :: nat where
  "MAX_TOTAL_BYTES = 65536"

definition parse_command_args ::
  "context_ext \<Rightarrow> (string \<times> string) list \<Rightarrow> (context_error, string list) result" where
  "parse_command_args ext metadata =
     res_bind
       (case map_of metadata ''args_json'' of
          Some text \<Rightarrow> ok_or Bad_Args_Json (json_string_array ext text)
        | None \<Rightarrow> Inr (case map_of metadata ''args'' of Some a \<Rightarrow> [a] | None \<Rightarrow> [])) (\<lambda>args.
     if MAX_ARGS < length args then Inl Too_Many_Args
     else
       res_bind
         (fold_res (\<lambda>arg sum.
            if MAX_ARG_BYTES < length arg \<or> CHR 0x00 \<in> set arg then Inl Bad_Argument
            else Inr (min (sum + length arg) (2 ^ 64 - 1))) args 0) (\<lambda>sum.
       if MAX_TOTAL_BYTES < sum then Inl Args_Too_Long else Inr args))"

definition command_flags :: "string list \<Rightarrow> string list" where
  "command_flags args = filter (\<lambda>arg. prefix ''-'' arg \<and> arg \<noteq> ''-'') args"

record parsed_network_target =
  nt_hostname :: string
  nt_port :: u16
  nt_protocol :: string
  nt_http :: "http_context option"

definition is_ascii_alphabetic :: "char \<Rightarrow> bool" where
  "is_ascii_alphabetic c \<longleftrightarrow> is_ascii_upper c \<or> is_ascii_lower c"

definition is_ascii_whitespace :: "char \<Rightarrow> bool" where
  "is_ascii_whitespace c \<longleftrightarrow> byte c \<in> {9, 10, 12, 13, 32}"

definition trim_end_matches :: "char \<Rightarrow> string \<Rightarrow> string" where
  "trim_end_matches c s = rev (dropWhile (\<lambda>x. x = c) (rev s))"

text \<open>The branch of \<open>parse_network_target\<close> for URLs.\<close>

definition parse_url_target ::
  "context_ext \<Rightarrow> string \<Rightarrow> (string \<times> string) list \<Rightarrow> string
    \<Rightarrow> (context_error, parsed_network_target) result" where
  "parse_url_target ext target metadata protocol =
     res_bind (ok_or Bad_Url (url_parse ext target)) (\<lambda>url.
     res_bind (ensure (url_scheme url = ''http'' \<or> url_scheme url = ''https'') Bad_Scheme) (\<lambda>_.
     res_bind (ensure (protocol = ''tcp'') Http_Needs_Tcp) (\<lambda>_.
     res_bind (ensure (url_username url = [] \<and> url_password url = None) Url_Credentials) (\<lambda>_.
     res_bind (ok_or Url_No_Host (url_host_str url)) (\<lambda>host.
     res_bind (ok_or Url_No_Port (url_port_or_known_default url)) (\<lambda>port.
       let hostname = map to_ascii_lower host;
           path = url_path url @ (case url_query url of Some query \<Rightarrow> ''?'' @ query | None \<Rightarrow> []);
           http_verb = (case map_of metadata ''method'' of
                          Some m \<Rightarrow> map to_ascii_upper m | None \<Rightarrow> ''GET'')
       in if http_verb = [] \<or> 32 < length http_verb \<or> \<not> list_all is_ascii_alphabetic http_verb
          then Inl Bad_Method
          else Inr \<lparr>nt_hostname = hostname, nt_port = port, nt_protocol = protocol,
                    nt_http = Some (default_http_context\<lparr>http_method := http_verb,
                      http_path := path, http_host := hostname\<rparr>)\<rparr>))))))"

text \<open>The branch for a host name or address with an optional port.\<close>

definition split_host_port :: "string \<Rightarrow> (context_error, string \<times> u16) result" where
  "split_host_port target =
     (case parse_socket_addr target of
        Some (address, port) \<Rightarrow> Inr (show_ip address, port)
      | None \<Rightarrow>
          if parse_ip target \<noteq> None then Inr (target, 443)
          else (case rsplit_once CHR '':'' target of
                  Some (host, port) \<Rightarrow>
                    if CHR '':'' \<in> set host then Inl Unbracketed_Ipv6
                    else res_bind (ok_or Bad_Target_Port (parse_u16 port)) (\<lambda>p. Inr (host, of_nat p))
                | None \<Rightarrow> Inr (target, 443)))"

definition parse_network_target ::
  "context_ext \<Rightarrow> string \<Rightarrow> (string \<times> string) list
    \<Rightarrow> (context_error, parsed_network_target) result" where
  "parse_network_target ext target metadata =
     (let protocol = (case map_of metadata ''protocol'' of
                        Some p \<Rightarrow> map to_ascii_lower p | None \<Rightarrow> ''tcp'')
      in if \<not> (protocol = ''tcp'' \<or> protocol = ''udp'') then Inl Bad_Protocol
         else if contains target ''://'' then parse_url_target ext target metadata protocol
         else if list_ex is_ascii_whitespace target then Inl Target_White_Space
         else
           res_bind (split_host_port target) (\<lambda>(hostname, port).
             let hostname = map to_ascii_lower (trim_end_matches CHR ''.'' hostname)
             in if hostname = [] \<or> 253 < length hostname \<or> CHR ''/'' \<in> set hostname
                then Inl Bad_Hostname_Text
                else if \<not> host_parse_ok ext hostname then Inl Bad_Hostname_Text
                else if port = 0 then Inl Zero_Port
                else Inr \<lparr>nt_hostname = hostname, nt_port = port, nt_protocol = protocol,
                          nt_http = None\<rparr>))"

definition cwd_of :: "(string \<times> string) list \<Rightarrow> string" where
  "cwd_of metadata = (case map_of metadata ''cwd'' of Some c \<Rightarrow> c | None \<Rightarrow> [])"

text \<open>The context of a command, for tools and for the shell alike.\<close>

definition command_context ::
  "context_ext \<Rightarrow> permission_request \<Rightarrow> (string \<times> string) list
    \<Rightarrow> (context_error, eval_context) result" where
  "command_context ext req metadata =
     res_bind (parse_command_args ext metadata) (\<lambda>args.
       Inr (default_eval_context\<lparr>ev_run := Some \<lparr>run_tool = pr_target req, run_args = args,
              run_flags = command_flags args, run_cwd = cwd_of metadata,
              run_ctx = metadata_context req metadata\<rparr>\<rparr>))"

definition build_eval_context ::
  "context_ext \<Rightarrow> permission_request \<Rightarrow> string \<Rightarrow> (context_error, eval_context) result" where
  "build_eval_context ext req container_name =
     (if trim_start_utf8 (pr_target req) = [] then Inl Empty_Target
      else
        let agent_name = derive_agent_name container_name;
            metadata = (case pr_metadata req of Some m \<Rightarrow> m | None \<Rightarrow> [])
        in res_bind
             (case pr_action_type req of
                Network_Call \<Rightarrow>
                  res_bind (parse_network_target ext (pr_target req) metadata) (\<lambda>target.
                    Inr (default_eval_context\<lparr>
                      ev_network := Some \<lparr>net_hostname = Some (nt_hostname target), net_ip = [],
                        net_port = nt_port target, net_protocol = nt_protocol target\<rparr>,
                      ev_http := nt_http target,
                      ev_run := Some (default_run_context\<lparr>run_tool := ''network_call'',
                        run_args := [pr_target req],
                        run_ctx := metadata_context req metadata\<rparr>)\<rparr>))
              | Tool_Exec \<Rightarrow> command_context ext req metadata
              | File_Access \<Rightarrow>
                  Inr (default_eval_context\<lparr>ev_run := Some (default_run_context\<lparr>run_tool := ''file'',
                    run_args := [pr_target req], run_cwd := cwd_of metadata,
                    run_ctx := metadata_context req metadata\<rparr>)\<rparr>)
              | Shell_Exec \<Rightarrow> command_context ext req metadata) (\<lambda>context.
           Inr (context\<lparr>ev_agent := Some \<lparr>ag_name = agent_name\<rparr>\<rparr>)))"

section \<open>Facts\<close>

lemma map_of_map_JString:
  "map_of (map (\<lambda>(key, text). (key, JString text)) m) k = map_option JString (map_of m k)"
  by (induction m) auto

lemma metadata_context_reads:
  "map_of (metadata_context req m) ''action_type''
     = Some (JString (action_type_name (pr_action_type req)))"
  "map_of (metadata_context req m) ''target'' = Some (JString (pr_target req))"
  "map_of (metadata_context req m) ''metadata''
     = Some (JObject (map (\<lambda>(key, text). (key, JString text)) m))"
  by (simp_all add: metadata_context_def Let_def update_conv')

lemma metadata_context_other:
  "k \<notin> {''action_type'', ''target'', ''metadata''} \<Longrightarrow>
     map_of (metadata_context req m) k = map_option JString (map_of m k)"
  by (simp add: metadata_context_def Let_def update_conv' map_of_map_JString)

lemma to_ascii_lower_not_upper: "\<not> is_ascii_upper (to_ascii_lower c)"
  by (auto simp: to_ascii_lower_def is_ascii_upper_def)

lemma to_ascii_upper_not_lower: "\<not> is_ascii_lower (to_ascii_upper c)"
  by (auto simp: to_ascii_upper_def is_ascii_lower_def)

lemma trim_end_matches_last: "trim_end_matches c s \<noteq> [] \<Longrightarrow> last (trim_end_matches c s) \<noteq> c"
  using hd_dropWhile [of "\<lambda>x. x = c" "rev s"] by (auto simp: trim_end_matches_def last_rev)

lemma to_ascii_lower_dot: "to_ascii_lower c = CHR ''.'' \<longleftrightarrow> c = CHR ''.''"
proof -
  have "byte (to_ascii_lower c) \<noteq> byte CHR ''.''" if "is_ascii_upper c"
    using that by (auto simp: to_ascii_lower_def is_ascii_upper_def)
  moreover have "\<not> is_ascii_upper CHR ''.''" by (simp add: is_ascii_upper_def)
  ultimately show ?thesis by (metis to_ascii_lower_def)
qed

lemma args_fold:
  assumes "fold_res (\<lambda>arg sum.
      if MAX_ARG_BYTES < length arg \<or> CHR 0x00 \<in> set arg then Inl Bad_Argument
      else Inr (min (sum + length arg) (2 ^ 64 - 1))) args n = Inr m"
    and "m \<le> MAX_TOTAL_BYTES"
  shows "n + sum_list (map length args) \<le> MAX_TOTAL_BYTES \<and> list_all (\<lambda>a. CHR 0x00 \<notin> set a) args"
  using assms
proof (induction args arbitrary: n)
  case Nil
  then show ?case by simp
next
  case (Cons a args)
  then have a: "CHR 0x00 \<notin> set a" and r: "fold_res (\<lambda>arg sum.
      if MAX_ARG_BYTES < length arg \<or> CHR 0x00 \<in> set arg then Inl Bad_Argument
      else Inr (min (sum + length arg) (2 ^ 64 - 1))) args (min (n + length a) (2 ^ 64 - 1)) = Inr m"
    by (auto split: if_splits)
  have "min (n + length a) (2 ^ 64 - 1) + sum_list (map length args) \<le> MAX_TOTAL_BYTES
      \<and> list_all (\<lambda>a. CHR 0x00 \<notin> set a) args"
    using Cons.IH [OF r Cons.prems(2)] .
  then show ?case using a by (auto simp: MAX_TOTAL_BYTES_def min_def split: if_splits)
qed

lemma parse_command_args_bounds:
  assumes "parse_command_args ext m = Inr args"
  shows "length args \<le> 1024 \<and> sum_list (map length args) \<le> 65536
    \<and> list_all (\<lambda>a. CHR 0x00 \<notin> set a) args"
  using assms args_fold [of args 0]
  by (auto simp: parse_command_args_def result_simps MAX_ARGS_def MAX_TOTAL_BYTES_def
      split: if_splits)

lemma build_eval_context_shape:
  assumes "build_eval_context ext req container_name = Inr ctx"
    and "m = (case pr_metadata req of Some m \<Rightarrow> m | None \<Rightarrow> [])"
  shows "ev_agent ctx = Some \<lparr>ag_name = derive_agent_name container_name\<rparr>
    \<and> ev_dns ctx = None \<and> ev_docker ctx = None
    \<and> (ev_network ctx \<noteq> None \<longleftrightarrow> pr_action_type req = Network_Call)
    \<and> (\<exists>r. ev_run ctx = Some r \<and> run_ctx r = metadata_context req m
         \<and> (pr_action_type req \<in> {Tool_Exec, Shell_Exec} \<longrightarrow>
              run_tool r = pr_target req \<and> parse_command_args ext m = Inr (run_args r)
              \<and> run_flags r = command_flags (run_args r)))"
  using assms
  by (cases "pr_action_type req")
    (auto simp: build_eval_context_def Let_def result_simps command_context_def
      default_eval_context_def default_run_context_def split: if_splits)

section \<open>Properties\<close>

text \<open>
  C33: An agent cannot forge its context. In every context built from a request, the agent's name is
  the one derived from the container, whatever the request says; the keys \<open>action_type\<close>, \<open>target\<close> and
  \<open>metadata\<close> of the run context hold the real action, the real target and the metadata as an object
  even when the metadata has entries with these names, and every other key reads as in the metadata,
  as a string; DNS and Docker data are absent, network data is present exactly for network calls, and
  command arguments are at most 1,024 and 65,536 bytes in all.
\<close>

theorem context_not_forged:
  assumes "build_eval_context ext req container_name = Inr ctx"
    and "m = (case pr_metadata req of Some m \<Rightarrow> m | None \<Rightarrow> [])"
  shows "ev_agent ctx = Some \<lparr>ag_name = derive_agent_name container_name\<rparr>
    \<and> ev_dns ctx = None \<and> ev_docker ctx = None
    \<and> (ev_network ctx \<noteq> None \<longleftrightarrow> pr_action_type req = Network_Call)
    \<and> (\<exists>r. ev_run ctx = Some r
         \<and> map_of (run_ctx r) ''action_type''
             = Some (JString (action_type_name (pr_action_type req)))
         \<and> map_of (run_ctx r) ''target'' = Some (JString (pr_target req))
         \<and> map_of (run_ctx r) ''metadata'' = Some (JObject (map (\<lambda>(k, v). (k, JString v)) m))
         \<and> (\<forall>k. k \<notin> {''action_type'', ''target'', ''metadata''} \<longrightarrow>
              map_of (run_ctx r) k = map_option JString (map_of m k))
         \<and> (pr_action_type req \<in> {Tool_Exec, Shell_Exec} \<longrightarrow>
              run_tool r = pr_target req \<and> length (run_args r) \<le> 1024
              \<and> sum_list (map length (run_args r)) \<le> 65536
              \<and> set (run_flags r) \<subseteq> set (run_args r)))"
proof -
  note shape = build_eval_context_shape [OF assms]
  then obtain r where r: "ev_run ctx = Some r" "run_ctx r = metadata_context req m"
    "pr_action_type req \<in> {Tool_Exec, Shell_Exec} \<longrightarrow>
       run_tool r = pr_target req \<and> parse_command_args ext m = Inr (run_args r)
       \<and> run_flags r = command_flags (run_args r)" by blast
  have "pr_action_type req \<in> {Tool_Exec, Shell_Exec} \<longrightarrow>
      run_tool r = pr_target req \<and> length (run_args r) \<le> 1024
      \<and> sum_list (map length (run_args r)) \<le> 65536 \<and> set (run_flags r) \<subseteq> set (run_args r)"
    using r(3) parse_command_args_bounds [of ext m] by (auto simp: command_flags_def)
  then show ?thesis
    using shape r(1) metadata_context_reads [of req m, folded r(2)]
      metadata_context_other [of _ req m, folded r(2)]
    by (intro conjI exI [of _ r]) simp_all
qed

text \<open>A tool call whose metadata tries to override the reserved keys.\<close>

definition demo_context_ext :: context_ext where
  "demo_context_ext = \<lparr>url_parse = (\<lambda>_. None), host_parse_ok = (\<lambda>_. True),
     json_string_array = (\<lambda>_. None)\<rparr>"

definition demo_permission :: permission_request where
  "demo_permission = \<lparr>pr_action_type = Tool_Exec, pr_target = ''git'',
     pr_metadata = Some [(''target'', ''ls''), (''args'', ''-v'')]\<rparr>"

lemma demo_not_blank: "trim_start_utf8 ''git'' \<noteq> []" "trim_start_utf8 ''Example.COM.'' \<noteq> []"
  by (simp_all add: trim_start_utf8.simps white_space_len_def)

theorem context_not_forged_witness:
  "\<exists>ctx r. build_eval_context demo_context_ext demo_permission ''web-1'' = Inr ctx
     \<and> ev_agent ctx = Some \<lparr>ag_name = ''web''\<rparr> \<and> ev_run ctx = Some r
     \<and> map_of (run_ctx r) ''target'' = Some (JString ''git'')"
proof -
  have "\<exists>ctx. build_eval_context demo_context_ext demo_permission ''web-1'' = Inr ctx"
    by (simp add: build_eval_context_def demo_permission_def demo_not_blank command_context_def
        parse_command_args_def MAX_ARGS_def MAX_ARG_BYTES_def MAX_TOTAL_BYTES_def Let_def)
  then obtain ctx where c:
    "build_eval_context demo_context_ext demo_permission ''web-1'' = Inr ctx" by blast
  moreover have "derive_agent_name ''web-1'' = ''web''" by code_simp
  ultimately show ?thesis
    using context_not_forged [OF c refl] by (auto simp: demo_permission_def)
qed

text \<open>
  Network targets are normalised. The protocol is tcp or udp and the host name has no upper-case
  letter. A target that is not a URL yields a host name of 1 to 253 bytes without a slash and without
  a trailing dot, and a nonzero port; a URL yields an HTTP request over tcp for the same host, with
  the lower-case host of the URL (a trailing dot stays) and a method of 1 to 32 upper-case letters.
\<close>

lemma network_target_normal:
  assumes "parse_network_target ext target m = Inr t"
  shows "(nt_protocol t = ''tcp'' \<or> nt_protocol t = ''udp'')
    \<and> list_all (\<lambda>c. \<not> is_ascii_upper c) (nt_hostname t)
    \<and> (case nt_http t of
         None \<Rightarrow> nt_hostname t \<noteq> [] \<and> length (nt_hostname t) \<le> 253
           \<and> CHR ''/'' \<notin> set (nt_hostname t) \<and> last (nt_hostname t) \<noteq> CHR ''.''
           \<and> nt_port t \<noteq> 0 \<and> host_parse_ok ext (nt_hostname t)
       | Some h \<Rightarrow> nt_protocol t = ''tcp'' \<and> http_host h = nt_hostname t
           \<and> http_method h \<noteq> [] \<and> length (http_method h) \<le> 32
           \<and> list_all is_ascii_alphabetic (http_method h)
           \<and> (\<exists>url host. url_parse ext target = Some url \<and> url_host_str url = Some host
                \<and> nt_hostname t = map to_ascii_lower host
                \<and> url_username url = [] \<and> url_password url = None))"
proof (cases "contains target ''://''")
  case True
  with assms show ?thesis
    by (auto simp: parse_network_target_def parse_url_target_def Let_def result_simps
        list_all_iff to_ascii_lower_not_upper split: if_splits)
next
  case False
  then obtain h p where hp: "split_host_port target = Inr (h, p)"
    "nt_hostname t = map to_ascii_lower (trim_end_matches CHR ''.'' h)" "nt_http t = None"
    "nt_hostname t \<noteq> []" "length (nt_hostname t) \<le> 253" "CHR ''/'' \<notin> set (nt_hostname t)"
    "nt_port t \<noteq> 0" "host_parse_ok ext (nt_hostname t)"
    "nt_protocol t = ''tcp'' \<or> nt_protocol t = ''udp''"
    using assms by (auto simp: parse_network_target_def Let_def result_simps split: if_splits)
  then have "last (nt_hostname t) \<noteq> CHR ''.''"
    using trim_end_matches_last [of "CHR ''.''" h] by (simp add: last_map to_ascii_lower_dot)
  then show ?thesis
    using hp by (auto simp: list_all_iff to_ascii_lower_not_upper)
qed

end
