(* ===== verification/Proxy_Http.thy ===== *)
theory Proxy_Http
  imports State_File Agent_Context
begin

text \<open>
  HTTP requests as the proxy reads them (outcalld/src/proxy/http.rs): the head, the target of a
  request, the Host header, the framing of the body, and the headers the policy sees. The crates
  httparse and url are parameters: \<open>proxy_ext\<close>.
\<close>

section \<open>Parameters\<close>

datatype url_host = Host_Domain string | Host_Ipv4 ipv4 | Host_Ipv6 ipv6

record full_url = url +
  url_cannot_be_a_base :: bool
  url_host :: "url_host option"
  url_port :: "u16 option"
  url_fragment :: "string option"

record httparse_request =
  hp_consumed :: nat
  hp_version :: "nat option"
  hp_method :: "string option"
  hp_path :: "string option"
  hp_headers :: "(string \<times> string) list"

text \<open>\<open>Head_Partial\<close>: httparse needs more bytes.\<close>

datatype httparse_status = Head_Error | Head_Partial | Head_Complete httparse_request

record proxy_ext =
  px_httparse :: "nat \<Rightarrow> string \<Rightarrow> httparse_status"
  px_url_parse :: "string \<Rightarrow> full_url option"
  px_host_is_domain :: "string \<Rightarrow> bool"

section \<open>http.rs\<close>

definition MAX_HEADERS :: nat where
  "MAX_HEADERS = 128"

datatype http_request_error =
    Malformed
  | Unsupported_Framing
  | Duplicate_Header string
  | Missing_Host
  | Host_Mismatch
  | Body_Too_Large nat

record parsed_request =
  pq_method :: string
  pq_uri :: string
  pq_headers :: "(string \<times> string) list"

record request_target =
  tg_host :: string
  tg_port :: u16
  tg_path :: string

definition crlf :: string where
  "crlf = [CHR 0x0D, CHR 0x0A]"

fun find_header_end :: "string \<Rightarrow> nat option" where
  "find_header_end bytes =
     (if prefix (crlf @ crlf) bytes then Some 4
      else (case bytes of [] \<Rightarrow> None | _ # rest \<Rightarrow> map_option Suc (find_header_end rest)))"

declare find_header_end.simps [simp del]

definition trim_blanks :: "string \<Rightarrow> string" where
  "trim_blanks s =
     (let blank = (\<lambda>c. c = CHR '' '' \<or> c = CHR 0x09)
      in rev (dropWhile blank (rev (dropWhile blank s))))"

definition parse_header ::
  "string \<times> string \<Rightarrow> (http_request_error, string \<times> string) result" where
  "parse_header header =
     (if \<not> valid_utf8 (snd header) then Inl Malformed
      else if has_control (filter (\<lambda>c. c \<noteq> CHR 0x09) (snd header)) then Inl Malformed
      else Inr (fst header, trim_blanks (snd header)))"

definition parse_headers ::
  "(string \<times> string) list \<Rightarrow> (http_request_error, (string \<times> string) list) result" where
  "parse_headers headers =
     fold_res (\<lambda>h acc. res_bind (parse_header h) (\<lambda>h'. Inr (acc @ [h']))) headers []"

definition parse_request :: "proxy_ext \<Rightarrow> string \<Rightarrow> (http_request_error, parsed_request) result" where
  "parse_request ext bytes =
     (if prefix crlf bytes then Inl Malformed
      else
        (case px_httparse ext MAX_HEADERS bytes of
           Head_Error \<Rightarrow> Inl Malformed
         | Head_Partial \<Rightarrow> Inl Malformed
         | Head_Complete request \<Rightarrow>
             if hp_consumed request \<noteq> length bytes
                \<or> \<not> (hp_version request = Some 0 \<or> hp_version request = Some 1)
             then Inl Malformed
             else
               res_bind (ok_or Malformed (hp_method request)) (\<lambda>http_verb.
               res_bind (ok_or Malformed (hp_path request)) (\<lambda>uri.
               if http_verb = [] \<or> uri = [] then Inl Malformed
               else
                 res_bind (parse_headers (hp_headers request)) (\<lambda>headers.
                   Inr \<lparr>pq_method = http_verb, pq_uri = uri, pq_headers = headers\<rparr>)))))"

definition normalized_url_host :: "full_url \<Rightarrow> (http_request_error, string) result" where
  "normalized_url_host url =
     res_bind (ok_or Malformed (url_host url)) (\<lambda>h.
       let host = (case h of
                     Host_Domain domain \<Rightarrow> map to_ascii_lower (trim_end_matches CHR ''.'' domain)
                   | Host_Ipv4 address \<Rightarrow> show_ipv4 address
                   | Host_Ipv6 address \<Rightarrow> show_ipv6 address)
       in if host = [] then Inl Malformed else Inr host)"

text \<open>\<open>str::trim\<close>: white space is that of Unicode; a character at the end has one to three bytes.\<close>

function trim_end_utf8 :: "string \<Rightarrow> string" where
  "trim_end_utf8 s =
     (case find (\<lambda>n. n \<le> length s \<and> white_space_len (drop (length s - n) s) = n) [1, 2, 3] of
        Some n \<Rightarrow> trim_end_utf8 (take (length s - n) s)
      | None \<Rightarrow> s)"
  by pat_completeness auto

termination
proof (relation "measure length")
  fix s :: string and n
  assume "find (\<lambda>n. n \<le> length s \<and> white_space_len (drop (length s - n) s) = n) [1, 2, 3] = Some n"
  then have "n \<in> set [1, 2, 3]" "n \<le> length s"
    by (auto split: if_splits)
  then show "(take (length s - n) s, s) \<in> measure length" by auto
qed simp

declare trim_end_utf8.simps [simp del]

definition trim_utf8 :: "string \<Rightarrow> string" where
  "trim_utf8 s = trim_end_utf8 (trim_start_utf8 s)"

definition parse_authority ::
  "proxy_ext \<Rightarrow> string \<Rightarrow> u16 \<Rightarrow> (http_request_error, string \<times> u16) result" where
  "parse_authority ext authority default_port =
     (let v = trim_utf8 authority
      in if v = [] \<or> has_control v \<or> list_ex (\<lambda>c. c \<in> set ''/?#@'') v then Inl Malformed
         else
           res_bind (ok_or Malformed (px_url_parse ext (''http://'' @ v @ ''/''))) (\<lambda>url.
           if url_username url \<noteq> [] \<or> url_password url \<noteq> None then Inl Malformed
           else
             res_bind (normalized_url_host url) (\<lambda>host.
               let port = (case url_port url of Some p \<Rightarrow> p | None \<Rightarrow> default_port)
               in if port = 0 then Inl Malformed else Inr (host, port))))"

definition parse_connect_target ::
  "proxy_ext \<Rightarrow> string \<Rightarrow> (http_request_error, request_target) result" where
  "parse_connect_target ext s =
     res_bind (parse_authority ext s 443) (\<lambda>(host, port).
       Inr \<lparr>tg_host = host, tg_port = port, tg_path = ''/''\<rparr>)"

definition parse_absolute_http_uri ::
  "proxy_ext \<Rightarrow> string \<Rightarrow> (http_request_error, request_target) result" where
  "parse_absolute_http_uri ext s =
     res_bind (ok_or Malformed (px_url_parse ext s)) (\<lambda>url.
     if url_scheme url \<noteq> ''http'' \<or> url_cannot_be_a_base url \<or> url_username url \<noteq> []
        \<or> url_password url \<noteq> None \<or> url_fragment url \<noteq> None
     then Inl Malformed
     else
       res_bind (normalized_url_host url) (\<lambda>host.
       res_bind (ok_or Malformed (url_port_or_known_default url)) (\<lambda>port.
       if port = 0 then Inl Malformed
       else
         let path = (if url_path url = [] then ''/'' else url_path url)
               @ (case url_query url of Some q \<Rightarrow> ''?'' @ q | None \<Rightarrow> [])
         in Inr \<lparr>tg_host = host, tg_port = port, tg_path = path\<rparr>)))"

definition header_values :: "(string \<times> string) list \<Rightarrow> string \<Rightarrow> string list" where
  "header_values headers name = map snd (filter (\<lambda>(h, _). eq_ignore_ascii_case h name) headers)"

definition require_matching_host ::
  "proxy_ext \<Rightarrow> (string \<times> string) list \<Rightarrow> string \<Rightarrow> u16 \<Rightarrow> u16
    \<Rightarrow> (http_request_error, unit) result" where
  "require_matching_host ext headers target_host target_port default_port =
     (case header_values headers ''host'' of
        [] \<Rightarrow> Inl Missing_Host
      | v # rest \<Rightarrow>
          if rest \<noteq> [] then Inl (Duplicate_Header ''Host'')
          else
            res_bind (parse_authority ext v default_port) (\<lambda>(host, port).
              if host \<noteq> target_host \<or> port \<noteq> target_port then Inl Host_Mismatch else Inr ()))"

definition request_body_length ::
  "(string \<times> string) list \<Rightarrow> nat \<Rightarrow> (http_request_error, nat) result" where
  "request_body_length headers limit =
     (if header_values headers ''transfer-encoding'' \<noteq> [] \<or> header_values headers ''expect'' \<noteq> []
         \<or> header_values headers ''upgrade'' \<noteq> []
      then Inl Unsupported_Framing
      else
        (case header_values headers ''content-length'' of
           [] \<Rightarrow> Inr 0
         | v # rest \<Rightarrow>
             if rest \<noteq> [] then Inl (Duplicate_Header ''Content-Length'')
             else if v = [] \<or> \<not> list_all is_ascii_digit v then Inl Unsupported_Framing
             else
               res_bind (ok_or Unsupported_Framing (parse_u64 v)) (\<lambda>n.
                 if limit < n then Inl (Body_Too_Large limit) else Inr n)))"

definition policy_headers :: "(string \<times> string) list \<Rightarrow> (string \<times> string) list" where
  "policy_headers headers =
     fold (\<lambda>(name, v) m.
       let key = map to_ascii_lower name
       in AList.update key (case map_of m key of Some existing \<Rightarrow> existing @ '', '' @ v | None \<Rightarrow> v) m)
     headers []"

definition connection_header_tokens :: "(string \<times> string) list \<Rightarrow> string set" where
  "connection_header_tokens headers =
     set (map (map to_ascii_lower) (filter (\<lambda>v. v \<noteq> [])
       (map trim_utf8 (concat (map (split_on CHR '','') (header_values headers ''connection''))))))"

end
