(* ===== verification/Bridge_Manager.thy ===== *)
theory Bridge_Manager
  imports Nft_Controller Proxy_Http
begin

text \<open>
  The managed bridge (outcalld/src/bridge.rs, bridge/link.rs, bridge/netfilter.rs): its link and gateway
  address by netlink, the switches that send bridge traffic through netfilter, and the base policy. The
  interfaces of the kernel are a record of functions on its state; every one of them can fail.
\<close>

section \<open>The kernel's interfaces\<close>

datatype 'a netlink_outcome = Nl_Ok 'a | Nl_Error string | Nl_Timeout

datatype link_kind = Kind_Bridge | Kind_Other

datatype link_info = Info_Kind link_kind | Info_Other

datatype link_attribute = Attr_Link_Info "link_info list" | Attr_Other

record link_message =
  lm_index :: u32
  lm_attributes :: "link_attribute list"

record 's host_ops =
  ho_link_get :: "string \<Rightarrow> 's \<Rightarrow> link_message option netlink_outcome \<times> 's"
  ho_link_add :: "string \<Rightarrow> 's \<Rightarrow> unit netlink_outcome \<times> 's"
  ho_link_set :: "u32 \<Rightarrow> bool \<Rightarrow> 's \<Rightarrow> unit netlink_outcome \<times> 's"
  ho_link_del :: "u32 \<Rightarrow> 's \<Rightarrow> unit netlink_outcome \<times> 's"
  ho_address_replace :: "u32 \<Rightarrow> ipv4 \<Rightarrow> nat \<Rightarrow> 's \<Rightarrow> unit netlink_outcome \<times> 's"
  ho_modprobe :: "'s \<Rightarrow> command_outcome \<times> 's"
  ho_read :: "string \<Rightarrow> 's \<Rightarrow> string option \<times> 's"
  ho_write :: "string \<Rightarrow> string \<Rightarrow> 's \<Rightarrow> bool \<times> 's"
  ho_nft :: "'s nft_tool"

datatype link_error =
    Netlink_Timed_Out string
  | Netlink_Failed string
  | Not_A_Bridge string
  | Not_Found_After_Creation
  | Index_Missing
  | Not_Enforceable
  | Policy_Failed bridge_error

type_synonym ('s, 'a) host_io = "'s \<Rightarrow> (link_error, 'a) result \<times> 's"

definition host_bind :: "('s, 'a) host_io \<Rightarrow> ('a \<Rightarrow> ('s, 'b) host_io) \<Rightarrow> ('s, 'b) host_io" where
  "host_bind m f s = (case m s of (Inl e, t) \<Rightarrow> (Inl e, t) | (Inr x, t) \<Rightarrow> f x t)"

definition netlink :: "string \<Rightarrow> ('s \<Rightarrow> 'a netlink_outcome \<times> 's) \<Rightarrow> ('s, 'a) host_io" where
  "netlink what f s =
     (case f s of
        (Nl_Ok x, t) \<Rightarrow> (Inr x, t)
      | (Nl_Error _, t) \<Rightarrow> (Inl (Netlink_Failed what), t)
      | (Nl_Timeout, t) \<Rightarrow> (Inl (Netlink_Timed_Out what), t))"

definition policy_call :: "('s \<Rightarrow> (bridge_error, 'a) result \<times> 's) \<Rightarrow> ('s, 'a) host_io" where
  "policy_call f s = (case f s of (Inl e, t) \<Rightarrow> (Inl (Policy_Failed e), t) | (Inr x, t) \<Rightarrow> (Inr x, t))"

lemma host_bind_Inr:
  "host_bind m f s = (Inr y, t) \<longleftrightarrow> (\<exists>x u. m s = (Inr x, u) \<and> f x u = (Inr y, t))"
  by (cases "m s") (auto simp: host_bind_def split: sum.splits)

lemma netlink_eq:
  "netlink what f s = (r, t) \<Longrightarrow> \<exists>outcome. f s = (outcome, t) \<and> (\<forall>x. r = Inr x \<longrightarrow> outcome = Nl_Ok x)"
  by (cases "f s") (auto simp: netlink_def split: netlink_outcome.splits)

lemma policy_call_eq:
  "policy_call f s = (r, t) \<Longrightarrow> \<exists>r'. f s = (r', t) \<and> (\<forall>x. r = Inr x \<longleftrightarrow> r' = Inr x)"
  by (cases "f s") (auto simp: policy_call_def split: sum.splits)

text \<open>What every part of a sequence keeps, the sequence keeps.\<close>

lemma host_bind_keeps:
  assumes "host_bind m f s = (r, t)" and "K s" and "\<And>r t. m s = (r, t) \<Longrightarrow> K t"
    and "\<And>x u. m s = (Inr x, u) \<Longrightarrow> K u \<Longrightarrow> f x u = (r, t) \<Longrightarrow> K t"
  shows "K t"
  using assms by (cases "m s") (auto simp: host_bind_def split: sum.splits)

section \<open>link.rs\<close>

definition is_bridge :: "link_message \<Rightarrow> bool" where
  "is_bridge message =
     list_ex (\<lambda>attribute. case attribute of
         Attr_Link_Info infos \<Rightarrow> list_ex (\<lambda>info. info = Info_Kind Kind_Bridge) infos
       | Attr_Other \<Rightarrow> False) (lm_attributes message)"

definition find_bridge_index :: "'s host_ops \<Rightarrow> bridge_manager \<Rightarrow> ('s, u32 option) host_io" where
  "find_bridge_index ops mgr s =
     (case ho_link_get ops (br_name mgr) s of
        (Nl_Ok None, t) \<Rightarrow> (Inr None, t)
      | (Nl_Ok (Some message), t) \<Rightarrow>
          (if \<not> is_bridge message then Inl (Not_A_Bridge (br_name mgr)) else Inr (Some (lm_index message)), t)
      | (Nl_Error e, t) \<Rightarrow>
          (if contains e ''No such device'' then Inr None else Inl (Netlink_Failed ''query link by name''), t)
      | (Nl_Timeout, t) \<Rightarrow> (Inl (Netlink_Timed_Out ''query link by name''), t))"

text \<open>The index the manager keeps is an argument and a result.\<close>

definition attach_link :: "'s host_ops \<Rightarrow> bridge_manager \<Rightarrow> u32 option \<Rightarrow> ('s, u32) host_io" where
  "attach_link ops mgr found =
     (case found of
        Some index \<Rightarrow> Pair (Inr index)
      | None \<Rightarrow>
          host_bind (netlink ''create bridge'' (ho_link_add ops (br_name mgr))) (\<lambda>_.
          host_bind (find_bridge_index ops mgr) (\<lambda>created.
            Pair (ok_or Not_Found_After_Creation created))))"

definition ensure_link :: "'s host_ops \<Rightarrow> bridge_manager \<Rightarrow> ('s, u32) host_io" where
  "ensure_link ops mgr =
     host_bind (find_bridge_index ops mgr) (\<lambda>found.
     host_bind (attach_link ops mgr found) (\<lambda>index.
     host_bind (netlink ''bring bridge up'' (ho_link_set ops index True)) (\<lambda>_. Pair (Inr index))))"

definition ensure_gateway_address :: "'s host_ops \<Rightarrow> bridge_manager \<Rightarrow> u32 option \<Rightarrow> ('s, unit) host_io" where
  "ensure_gateway_address ops mgr index =
     host_bind (Pair (ok_or Index_Missing index)) (\<lambda>i.
       netlink ''assign bridge gateway address''
         (ho_address_replace ops i (br_gateway_ip mgr) (br_gateway_prefix_len mgr)))"

definition remove_link :: "'s host_ops \<Rightarrow> bridge_manager \<Rightarrow> ('s, unit) host_io" where
  "remove_link ops mgr =
     host_bind (find_bridge_index ops mgr) (\<lambda>found.
     case found of
       None \<Rightarrow> Pair (Inr ())
     | Some index \<Rightarrow>
         host_bind (netlink ''bring bridge down'' (ho_link_set ops index False)) (\<lambda>_.
           netlink ''delete bridge link'' (ho_link_del ops index)))"

section \<open>netfilter.rs\<close>

definition BRIDGE_NF_IPV4 :: string where
  "BRIDGE_NF_IPV4 = ''/proc/sys/net/bridge/bridge-nf-call-iptables''"

definition BRIDGE_NF_IPV6 :: string where
  "BRIDGE_NF_IPV6 = ''/proc/sys/net/bridge/bridge-nf-call-ip6tables''"

definition enable_setting :: "'s host_ops \<Rightarrow> string \<Rightarrow> 's \<Rightarrow> 's" where
  "enable_setting ops p s =
     (case ho_read ops p s of
        (Some v, t) \<Rightarrow> if trim_utf8 v = ''1'' then t else snd (ho_write ops p ''1'' t)
      | (None, t) \<Rightarrow> snd (ho_write ops p ''1'' t))"

definition netfilter_enable :: "'s host_ops \<Rightarrow> 's \<Rightarrow> 's" where
  "netfilter_enable ops s =
     fold (enable_setting ops) [BRIDGE_NF_IPV4, BRIDGE_NF_IPV6] (snd (ho_modprobe ops s))"

definition read_setting :: "string option \<Rightarrow> string" where
  "read_setting r = (case r of Some v \<Rightarrow> trim_utf8 v | None \<Rightarrow> ''unavailable'')"

definition settings_enforceable :: "string \<Rightarrow> string \<Rightarrow> bool" where
  "settings_enforceable v4 v6 \<longleftrightarrow> trim_utf8 v4 = ''1'' \<and> trim_utf8 v6 = ''1''"

definition require_enforceable :: "'s host_ops \<Rightarrow> ('s, unit) host_io" where
  "require_enforceable ops s =
     (case ho_read ops BRIDGE_NF_IPV4 s of
        (v4, t) \<Rightarrow>
          (case ho_read ops BRIDGE_NF_IPV6 t of
             (v6, u) \<Rightarrow>
               (ensure (settings_enforceable (read_setting v4) (read_setting v6)) Not_Enforceable, u)))"

section \<open>bridge.rs\<close>

definition bridge_init :: "'s host_ops \<Rightarrow> bridge_manager \<Rightarrow> ('s, unit) host_io" where
  "bridge_init ops mgr =
     host_bind (ensure_link ops mgr) (\<lambda>index.
     host_bind (ensure_gateway_address ops mgr (Some index)) (\<lambda>_.
     host_bind (\<lambda>s. (Inr (), netfilter_enable ops s)) (\<lambda>_.
       policy_call (apply_base (ho_nft ops) (br_name mgr) (br_host_services mgr)))))"

definition bridge_teardown :: "'s host_ops \<Rightarrow> bridge_manager \<Rightarrow> ('s, unit) host_io" where
  "bridge_teardown ops mgr =
     host_bind (remove_link ops mgr) (\<lambda>_. policy_call (delete_table (ho_nft ops)))"

record bridge_status =
  bs_name :: string
  bs_up :: bool
  bs_index :: "u32 option"
  bs_nftables_active :: bool

definition bridge_status_of :: "'s host_ops \<Rightarrow> bridge_manager \<Rightarrow> ('s, bridge_status) host_io" where
  "bridge_status_of ops mgr =
     host_bind (find_bridge_index ops mgr) (\<lambda>index.
     host_bind (policy_call (table_active (ho_nft ops))) (\<lambda>active.
       Pair (Inr \<lparr>bs_name = br_name mgr, bs_up = (index \<noteq> None), bs_index = index, bs_nftables_active = active\<rparr>)))"

section \<open>The contract of the kernel\<close>

text \<open>
  \<open>index_of name\<close> is the interface of that name and \<open>policy\<close> says that the base policy is loaded. Queries
  change neither; an interface that was deleted is gone; \<open>nft -f\<close> is atomic, so that the replacement of the
  table never leaves the host without one; and only the deletion of the table removes the policy.
\<close>

locale host_kernel =
  fixes ops :: "'s host_ops" and index_of :: "string \<Rightarrow> 's \<Rightarrow> u32 option" and policy :: "'s \<Rightarrow> bool"
  assumes get_frame: "ho_link_get ops n s = (r, t) \<Longrightarrow> index_of m t = index_of m s \<and> policy t = policy s"
    and get_none: "ho_link_get ops n s = (Nl_Ok None, t) \<Longrightarrow> index_of n s = None"
    and get_missing: "ho_link_get ops n s = (Nl_Error e, t) \<Longrightarrow> contains e ''No such device'' \<Longrightarrow> index_of n s = None"
    and get_some: "ho_link_get ops n s = (Nl_Ok (Some message), t) \<Longrightarrow> index_of n s = Some (lm_index message)"
    and add_frame: "ho_link_add ops n s = (ra, t) \<Longrightarrow> policy t = policy s"
    and set_frame: "ho_link_set ops i up s = (ra, t) \<Longrightarrow> index_of m t = index_of m s \<and> policy t = policy s"
    and del_frame: "ho_link_del ops i s = (ra, t) \<Longrightarrow> policy t = policy s"
    and del_ok: "ho_link_del ops i s = (Nl_Ok (), t) \<Longrightarrow> index_of m s = Some i \<Longrightarrow> index_of m t = None"
    and address_frame: "ho_address_replace ops i a len s = (ra, t) \<Longrightarrow>
      index_of m t = index_of m s \<and> policy t = policy s"
    and modprobe_frame: "ho_modprobe ops s = (rc, t) \<Longrightarrow> index_of m t = index_of m s \<and> policy t = policy s"
    and read_frame: "ho_read ops p s = (rr, t) \<Longrightarrow> index_of m t = index_of m s \<and> policy t = policy s"
    and write_frame: "ho_write ops p v s = (rw, t) \<Longrightarrow> index_of m t = index_of m s \<and> policy t = policy s"
    and list_frame: "ho_nft ops [''list'', ''table'', ''inet'', ''outcall''] [] s = (rc, t) \<Longrightarrow>
      index_of m t = index_of m s \<and> policy t = policy s"
    and load_keeps: "ho_nft ops [''-f'', ''-''] (render_transaction n services present) s = (rc, t) \<Longrightarrow>
      index_of m t = index_of m s \<and> (policy s \<longrightarrow> policy t)"
    and load_ok: "ho_nft ops [''-f'', ''-''] (render_transaction n services present) s = (Exited True out err, t) \<Longrightarrow>
      policy t"
    and delete_frame: "ho_nft ops [''delete'', ''table'', ''inet'', ''outcall''] [] s = (rc, t) \<Longrightarrow>
      index_of m t = index_of m s"
    and delete_ok: "ho_nft ops [''delete'', ''table'', ''inet'', ''outcall''] [] s = (Exited ok out err, t) \<Longrightarrow>
      ok \<or> table_missing err \<Longrightarrow> \<not> policy t"
begin

text \<open>An interface without the policy would be unprotected.\<close>

definition guarded :: "bridge_manager \<Rightarrow> 's \<Rightarrow> bool" where
  "guarded mgr s \<longleftrightarrow> policy s \<or> index_of (br_name mgr) s = None"

lemma find_frame:
  "find_bridge_index ops mgr s = (r, t) \<Longrightarrow> index_of m t = index_of m s \<and> policy t = policy s"
  unfolding find_bridge_index_def
  by (cases "ho_link_get ops (br_name mgr) s") (auto dest: get_frame split: netlink_outcome.splits option.splits)

lemma find_index:
  "find_bridge_index ops mgr s = (Inr found, t) \<Longrightarrow> index_of (br_name mgr) t = found"
  unfolding find_bridge_index_def
  by (cases "ho_link_get ops (br_name mgr) s")
    (auto simp: get_frame dest: get_none get_missing get_some
      split: netlink_outcome.splits option.splits if_splits)

lemma find_index_before:
  "find_bridge_index ops mgr s = (Inr found, t) \<Longrightarrow> index_of (br_name mgr) s = found"
  using find_index find_frame by metis

lemma netlink_set_frame:
  "netlink what (ho_link_set ops i up) s = (r, t) \<Longrightarrow> index_of m t = index_of m s \<and> policy t = policy s"
  by (auto dest!: netlink_eq dest: set_frame)

lemma netlink_del_policy: "netlink what (ho_link_del ops i) s = (r, t) \<Longrightarrow> policy t = policy s"
  by (auto dest!: netlink_eq dest: del_frame)

lemma remove_found_policy:
  assumes "host_bind (netlink ''bring bridge down'' (ho_link_set ops i False)) (\<lambda>_.
      netlink ''delete bridge link'' (ho_link_del ops i)) s = (r, t)"
  shows "policy t = policy s"
  using assms
  by (rule host_bind_keeps [where K = "\<lambda>t. policy t = policy s"])
    (auto simp: netlink_set_frame netlink_del_policy)

lemma remove_link_policy:
  assumes "remove_link ops mgr s = (r, t)"
  shows "policy t = policy s"
  using assms unfolding remove_link_def
  by (rule host_bind_keeps [where K = "\<lambda>t. policy t = policy s"])
    (auto simp: find_frame remove_found_policy split: option.splits)

lemma remove_link_absent:
  assumes "remove_link ops mgr s = (r, t)" and "index_of (br_name mgr) s = None"
  shows "index_of (br_name mgr) t = None"
  using assms(1) unfolding remove_link_def
  by (rule host_bind_keeps [where K = "\<lambda>t. index_of (br_name mgr) t = None"])
    (use assms(2) in \<open>auto simp: find_frame dest: find_index_before split: option.splits\<close>)

lemma remove_link_gone:
  assumes "remove_link ops mgr s = (Inr (), t)"
  shows "index_of (br_name mgr) t = None"
proof -
  from assms obtain found u where f: "find_bridge_index ops mgr s = (Inr found, u)"
    and rest: "(case found of None \<Rightarrow> Pair (Inr ()) | Some index \<Rightarrow>
         host_bind (netlink ''bring bridge down'' (ho_link_set ops index False)) (\<lambda>_.
           netlink ''delete bridge link'' (ho_link_del ops index))) u = (Inr (), t)"
    by (auto simp: remove_link_def host_bind_Inr)
  note i = find_index [OF f]
  show ?thesis
  proof (cases found)
    case None
    with rest i show ?thesis by simp
  next
    case (Some index)
    with rest obtain v where "netlink ''bring bridge down'' (ho_link_set ops index False) u = (Inr (), v)"
      "netlink ''delete bridge link'' (ho_link_del ops index) v = (Inr (), t)"
      by (auto simp: host_bind_Inr)
    with i Some show ?thesis
      by (auto dest!: netlink_eq netlink_set_frame [of _ _ _ _ _ _ "br_name mgr"] dest: del_ok)
  qed
qed

lemma delete_table_effect:
  assumes "policy_call (delete_table (ho_nft ops)) s = (r, t)"
  shows "index_of m t = index_of m s \<and> (r = Inr () \<longrightarrow> \<not> policy t)"
proof -
  obtain outcome where run: "ho_nft ops [''delete'', ''table'', ''inet'', ''outcall''] [] s = (outcome, t)"
    and r: "r = Inr () \<Longrightarrow> res_bind (output_with_timeout ''delete Outcall nftables table'' outcome)
        (\<lambda>(success, out, err). if success then Inr () else if table_missing err then Inr ()
           else Inl (Delete_Failed (trim err))) = Inr ()"
    using policy_call_eq [OF assms] by (auto simp: delete_table_def split: prod.splits)
  have "\<not> policy t" if "r = Inr ()"
    using r [OF that] run
    by (cases outcome) (auto dest: delete_ok split: if_splits)
  with delete_frame [OF run] show ?thesis by blast
qed

text \<open>A teardown gives up the policy only when the interface is gone.\<close>

lemma teardown_order:
  assumes "bridge_teardown ops mgr s = (r, t)"
  shows "(guarded mgr s \<longrightarrow> guarded mgr t) \<and> (policy s \<and> \<not> policy t \<longrightarrow> index_of (br_name mgr) t = None)
    \<and> (r = Inr () \<longrightarrow> index_of (br_name mgr) t = None \<and> \<not> policy t)"
proof -
  obtain q u where l: "remove_link ops mgr s = (q, u)" by fastforce
  note p = remove_link_policy [OF l]
  show ?thesis
  proof (cases q)
    case (Inl e)
    with assms l have "t = u" "r = Inl e" by (auto simp: bridge_teardown_def host_bind_def)
    then show ?thesis using p remove_link_absent [OF l] by (auto simp: guarded_def)
  next
    case (Inr x)
    with assms l have d: "policy_call (delete_table (ho_nft ops)) u = (r, t)"
      by (auto simp: bridge_teardown_def host_bind_def)
    from Inr l have "index_of (br_name mgr) u = None" using remove_link_gone by auto
    with delete_table_effect [OF d, of "br_name mgr"] show ?thesis by (auto simp: guarded_def)
  qed
qed

lemma apply_base_effect:
  assumes "policy_call (apply_base (ho_nft ops) n services) s = (r, t)"
  shows "index_of m t = index_of m s \<and> (policy s \<longrightarrow> policy t) \<and> (r = Inr () \<longrightarrow> policy t)"
proof -
  obtain r' where a: "apply_base (ho_nft ops) n services s = (r', t)" and r: "r = Inr () \<longleftrightarrow> r' = Inr ()"
    using policy_call_eq [OF assms] by blast
  obtain q u where q: "table_active (ho_nft ops) s = (q, u)" by fastforce
  then have u: "index_of m u = index_of m s" "policy u = policy s"
    by (auto simp: table_active_def list_frame split: prod.splits)
  show ?thesis
  proof (cases q)
    case (Inl e)
    with a q u r show ?thesis by (auto simp: apply_base_def)
  next
    case (Inr present)
    with a q have "run_policy (ho_nft ops) (render_transaction n services present) u = (r', t)"
      by (simp add: apply_base_def)
    then obtain outcome where run: "ho_nft ops [''-f'', ''-''] (render_transaction n services present) u = (outcome, t)"
      and res: "r' = res_bind (output_with_timeout ''apply nftables policy'' outcome)
        (\<lambda>(success, out, err). if success then Inr () else Inl (Nft_Exited (trim err)))"
      by (auto simp: run_policy_def split: prod.splits)
    from res have "r' = Inr () \<longrightarrow> (\<exists>out err. outcome = Exited True out err)"
      by (cases outcome) (auto split: if_splits)
    with load_keeps [OF run] u r run show ?thesis by (auto dest: load_ok)
  qed
qed

lemma reset_policy_effect:
  "policy_call (reset_policy (ho_nft ops) mgr) s = (r, t) \<Longrightarrow>
     index_of m t = index_of m s \<and> (policy s \<longrightarrow> policy t) \<and> (r = Inr () \<longrightarrow> policy t)"
  unfolding reset_policy_def using apply_base_effect by (auto simp: policy_call_def)

lemma netfilter_frame: "index_of m (netfilter_enable ops s) = index_of m s \<and> policy (netfilter_enable ops s) = policy s"
proof -
  have setting: "index_of m (enable_setting ops p u) = index_of m u \<and> policy (enable_setting ops p u) = policy u" for p u
  proof -
    obtain rr v where r: "ho_read ops p u = (rr, v)" by fastforce
    obtain rw w where w: "ho_write ops p ''1'' v = (rw, w)" by fastforce
    show ?thesis
      using read_frame [OF r] write_frame [OF w] by (auto simp: enable_setting_def r w split: option.split)
  qed
  obtain rc u where "ho_modprobe ops s = (rc, u)" by fastforce
  with modprobe_frame [OF this] setting show ?thesis by (simp add: netfilter_enable_def)
qed

lemma attach_link_policy:
  assumes "attach_link ops mgr found s = (r, t)"
  shows "policy t = policy s"
proof (cases found)
  case None
  have find: "host_bind (find_bridge_index ops mgr) (\<lambda>created. Pair (ok_or Not_Found_After_Creation created)) u = (r, t)
      \<Longrightarrow> policy t = policy u" for u
    by (erule host_bind_keeps [where K = "\<lambda>t. policy t = policy u"]) (auto simp: find_frame)
  from assms [unfolded attach_link_def None option.case] show ?thesis
    by (rule host_bind_keeps [where K = "\<lambda>t. policy t = policy s"])
      (auto simp: find dest!: netlink_eq dest: add_frame)
qed (use assms in \<open>auto simp: attach_link_def\<close>)

lemma attach_link_index:
  assumes "attach_link ops mgr (index_of (br_name mgr) s) s = (Inr i, t)"
  shows "index_of (br_name mgr) t = Some i"
  using assms by (auto simp: attach_link_def host_bind_Inr result_simps dest: find_index split: option.splits)

lemma ensure_link_policy:
  assumes "ensure_link ops mgr s = (r, t)"
  shows "policy t = policy s"
proof -
  have up: "host_bind (netlink ''bring bridge up'' (ho_link_set ops i True)) (\<lambda>_. Pair (Inr i)) u = (r, t)
      \<Longrightarrow> policy t = policy u" for i u
    by (erule host_bind_keeps [where K = "\<lambda>t. policy t = policy u"]) (auto simp: netlink_set_frame)
  have attach: "host_bind (attach_link ops mgr found) (\<lambda>i. host_bind (netlink ''bring bridge up'' (ho_link_set ops i True))
      (\<lambda>_. Pair (Inr i))) u = (r, t) \<Longrightarrow> policy t = policy u" for found u
    by (erule host_bind_keeps [where K = "\<lambda>t. policy t = policy u"]) (auto simp: attach_link_policy up)
  from assms [unfolded ensure_link_def] show ?thesis
    by (rule host_bind_keeps [where K = "\<lambda>t. policy t = policy s"]) (auto simp: find_frame attach)
qed

lemma ensure_link_index:
  assumes "ensure_link ops mgr s = (Inr i, t)"
  shows "index_of (br_name mgr) t = Some i"
proof -
  from assms obtain found u v where f: "find_bridge_index ops mgr s = (Inr found, u)"
    and a: "attach_link ops mgr found u = (Inr i, v)"
    and up: "netlink ''bring bridge up'' (ho_link_set ops i True) v = (Inr (), t)"
    by (auto simp: ensure_link_def host_bind_Inr)
  from a have "index_of (br_name mgr) v = Some i"
    unfolding find_index [OF f, symmetric] by (rule attach_link_index)
  then show ?thesis using netlink_set_frame [OF up, of "br_name mgr"] by simp
qed

lemma gateway_frame:
  "ensure_gateway_address ops mgr index s = (r, t) \<Longrightarrow> index_of m t = index_of m s \<and> policy t = policy s"
  by (cases index) (auto simp: ensure_gateway_address_def host_bind_def address_frame dest!: netlink_eq)

lemma init_policy:
  assumes "bridge_init ops mgr s = (r, t)" and "policy s"
  shows "policy t"
proof -
  have rest: "policy t" if "host_bind (\<lambda>s. (Inr (), netfilter_enable ops s)) (\<lambda>_.
      policy_call (apply_base (ho_nft ops) (br_name mgr) (br_host_services mgr))) u = (r, t)" "policy u" for u
    using that apply_base_effect netfilter_frame by (auto simp: host_bind_def)
  have gateway: "policy t" if "host_bind (ensure_gateway_address ops mgr index) (\<lambda>_.
      host_bind (\<lambda>s. (Inr (), netfilter_enable ops s)) (\<lambda>_.
      policy_call (apply_base (ho_nft ops) (br_name mgr) (br_host_services mgr)))) u = (r, t)" "policy u" for index u
    using that by (rule host_bind_keeps) (auto simp: gateway_frame that intro: rest)
  from assms [unfolded bridge_init_def] show ?thesis
    by (rule host_bind_keeps) (auto simp: ensure_link_policy assms intro: gateway)
qed

lemma init_ok:
  assumes "bridge_init ops mgr s = (Inr (), t)"
  shows "policy t \<and> index_of (br_name mgr) t \<noteq> None"
proof -
  from assms obtain i u v where l: "ensure_link ops mgr s = (Inr i, u)"
    and g: "ensure_gateway_address ops mgr (Some i) u = (Inr (), v)"
    and p: "policy_call (apply_base (ho_nft ops) (br_name mgr) (br_host_services mgr)) (netfilter_enable ops v) = (Inr (), t)"
    by (auto simp: bridge_init_def host_bind_Inr)
  from ensure_link_index [OF l] gateway_frame [OF g] netfilter_frame [of _ v] apply_base_effect [OF p]
  show ?thesis by auto
qed

end

section \<open>A reference kernel\<close>

text \<open>
  A host with interfaces, settings and one nft table. \<open>sh_faults\<close> says of each netlink request whether it
  is refused or lost after it took effect; nft has the faults of its own reference implementation.
\<close>

datatype netlink_fault = Nl_Fine | Nl_Refuse | Nl_Lost

record sim_host =
  sh_links :: "(string \<times> u32 \<times> link_kind) list"
  sh_settings :: "(string \<times> string) list"
  sh_nft :: nft_kernel
  sh_faults :: "netlink_fault list"

definition sim_netlink ::
  "('a \<times> sim_host) \<Rightarrow> sim_host \<Rightarrow> 'a netlink_outcome \<times> sim_host" where
  "sim_netlink applied h =
     (case sh_faults h of
        Nl_Refuse # fs \<Rightarrow> (Nl_Error ''Operation not permitted'', h\<lparr>sh_faults := fs\<rparr>)
      | Nl_Lost # fs \<Rightarrow> (Nl_Timeout, (snd applied)\<lparr>sh_faults := fs\<rparr>)
      | fs \<Rightarrow> (Nl_Ok (fst applied), (snd applied)\<lparr>sh_faults := tl fs\<rparr>))"

definition sim_link :: "string \<Rightarrow> sim_host \<Rightarrow> link_message option" where
  "sim_link name h =
     map_option (\<lambda>(i, kind). \<lparr>lm_index = i, lm_attributes = [Attr_Other, Attr_Link_Info [Info_Kind kind]]\<rparr>)
       (map_of (sh_links h) name)"

definition on_nft :: "nft_kernel nft_tool \<Rightarrow> sim_host nft_tool" where
  "on_nft run args input h = (case run args input (sh_nft h) of (outcome, k) \<Rightarrow> (outcome, h\<lparr>sh_nft := k\<rparr>))"

definition delete_nft :: "nft_kernel nft_tool" where
  "delete_nft args input k =
     (if args = [''delete'', ''table'', ''inet'', ''outcall''] then
        (case k_faults k of
           Refuse # fs \<Rightarrow> (Exited False [] ''Operation not permitted'', k\<lparr>k_faults := fs\<rparr>)
         | Hang # fs \<Rightarrow> (Timed_Out, k\<lparr>k_faults := fs\<rparr>)
         | fs \<Rightarrow>
             (if k_table k then Exited True [] [] else Exited False [] ''No such file or directory'',
              k\<lparr>k_table := False, k_rules := [], k_faults := tl fs\<rparr>))
      else sim_nft args input k)"

definition sim_index :: "string \<Rightarrow> sim_host \<Rightarrow> u32 option" where
  "sim_index name h = map_option fst (map_of (sh_links h) name)"

definition sim_host_ops :: "sim_host host_ops" where
  "sim_host_ops =
     \<lparr>ho_link_get = (\<lambda>name h. sim_netlink (sim_link name h, h) h),
      ho_link_add = (\<lambda>name h. sim_netlink ((), h\<lparr>sh_links :=
        (if map_of (sh_links h) name = None then [(name, of_nat (length (sh_links h) + 1), Kind_Bridge)] else [])
        @ sh_links h\<rparr>) h),
      ho_link_set = (\<lambda>i up h. sim_netlink ((), h) h),
      ho_link_del = (\<lambda>i h. sim_netlink ((), h\<lparr>sh_links := filter (\<lambda>(name, _). sim_index name h \<noteq> Some i) (sh_links h)\<rparr>) h),
      ho_address_replace = (\<lambda>i a len h. sim_netlink ((), h) h),
      ho_modprobe = (\<lambda>h. (Exited True [] [], h)),
      ho_read = (\<lambda>p h. (map_of (sh_settings h) p, h)),
      ho_write = (\<lambda>p v h. (map_of (sh_settings h) p \<noteq> None,
        if map_of (sh_settings h) p \<noteq> None then h\<lparr>sh_settings := AList.update p v (sh_settings h)\<rparr> else h)),
      ho_nft = on_nft delete_nft\<rparr>"

definition sim_policy :: "sim_host \<Rightarrow> bool" where
  "sim_policy h = k_table (sh_nft h)"

lemma sim_netlink_cases:
  assumes "sim_netlink applied h = (outcome, t)"
  obtains fs where "outcome = Nl_Ok (fst applied)" "t = (snd applied)\<lparr>sh_faults := fs\<rparr>"
  | fs where "outcome = Nl_Timeout" "t = (snd applied)\<lparr>sh_faults := fs\<rparr>"
  | fs where "outcome = Nl_Error ''Operation not permitted''" "t = h\<lparr>sh_faults := fs\<rparr>"
  using assms by (auto simp: sim_netlink_def split: list.splits netlink_fault.splits)

lemma sim_frames [simp]:
  "sim_index n (h\<lparr>sh_faults := fs\<rparr>) = sim_index n h" "sim_policy (h\<lparr>sh_faults := fs\<rparr>) = sim_policy h"
  "sim_index n (h\<lparr>sh_nft := k\<rparr>) = sim_index n h" "sim_policy (h\<lparr>sh_links := ls\<rparr>) = sim_policy h"
  "sim_index n (h\<lparr>sh_settings := ss\<rparr>) = sim_index n h" "sim_policy (h\<lparr>sh_settings := ss\<rparr>) = sim_policy h"
  "sim_policy (h\<lparr>sh_nft := k\<rparr>) = k_table k"
  by (simp_all add: sim_index_def sim_policy_def)

lemma sim_load:
  assumes "delete_nft [''-f'', ''-''] (render_transaction n services present) k = (outcome, k')"
  shows "(k_table k \<longrightarrow> k_table k') \<and> (outcome = Exited True out err \<longrightarrow> k_table k')"
proof -
  from assms have "sim_nft [''-f'', ''-''] (render_transaction n services present) k = (outcome, k')"
    by (simp add: delete_nft_def)
  moreover have "\<not> prefix (insert_args []) [''-f'', ''-'']" by (simp add: insert_args_def)
  ultimately show ?thesis
    by (cases rule: sim_nft_cases) (auto simp: sim_load_apply split: if_splits)
qed

lemma sim_list:
  assumes "delete_nft [''list'', ''table'', ''inet'', ''outcall''] [] k = (outcome, k')"
  shows "k_table k' = k_table k"
proof -
  from assms have "sim_nft [''list'', ''table'', ''inet'', ''outcall''] [] k = (outcome, k')"
    by (simp add: delete_nft_def)
  moreover have "\<not> prefix (insert_args []) [''list'', ''table'', ''inet'', ''outcall'']" by (simp add: insert_args_def)
  ultimately show ?thesis
    by (cases rule: sim_nft_cases) (auto simp: sim_list_apply split: if_splits)
qed

lemma sim_delete:
  assumes "delete_nft [''delete'', ''table'', ''inet'', ''outcall''] [] k = (Exited ok out err, k')"
    and "ok \<or> table_missing err"
  shows "\<not> k_table k'"
proof -
  have "\<not> table_missing ''Operation not permitted''" by code_simp
  with assms show ?thesis by (auto simp: delete_nft_def split: list.splits nft_fault.splits if_splits)
qed

lemma sim_not_missing: "\<not> contains ''Operation not permitted'' ''No such device''"
  by code_simp

lemma sim_host_nft: "ho_nft sim_host_ops args input h = (outcome, t) \<Longrightarrow>
    \<exists>k. delete_nft args input (sh_nft h) = (outcome, k) \<and> t = h\<lparr>sh_nft := k\<rparr>"
  by (auto simp: sim_host_ops_def on_nft_def split: prod.splits)

interpretation sim_kernel: host_kernel sim_host_ops sim_index sim_policy
proof unfold_locales
  fix n s message t
  assume "ho_link_get sim_host_ops n s = (Nl_Ok (Some message), t)"
  then show "sim_index n s = Some (lm_index message)"
    by (cases "map_of (sh_links s) n")
      (auto simp: sim_host_ops_def sim_link_def sim_index_def elim!: sim_netlink_cases)
next
  fix n s e t
  assume "ho_link_get sim_host_ops n s = (Nl_Error e, t)" "contains e ''No such device''"
  then show "sim_index n s = None"
    by (auto simp: sim_host_ops_def sim_not_missing elim!: sim_netlink_cases)
next
  fix i s t m
  assume "ho_link_del sim_host_ops i s = (Nl_Ok (), t)" "sim_index m s = Some i"
  then show "sim_index m t = None"
    by (auto simp: sim_host_ops_def sim_index_def map_of_eq_None_iff elim!: sim_netlink_cases)
next
  fix n services present s rc t m
  assume "ho_nft sim_host_ops [''-f'', ''-''] (render_transaction n services present) s = (rc, t)"
  from sim_host_nft [OF this] show "sim_index m t = sim_index m s \<and> (sim_policy s \<longrightarrow> sim_policy t)"
    using sim_load by (auto simp: sim_policy_def)
next
  fix n services present s out err t
  assume "ho_nft sim_host_ops [''-f'', ''-''] (render_transaction n services present) s = (Exited True out err, t)"
  from sim_host_nft [OF this] show "sim_policy t"
    using sim_load by (auto simp: sim_policy_def)
next
  fix s rc t m
  assume "ho_nft sim_host_ops [''list'', ''table'', ''inet'', ''outcall''] [] s = (rc, t)"
  from sim_host_nft [OF this] show "sim_index m t = sim_index m s \<and> sim_policy t = sim_policy s"
    using sim_list by (auto simp: sim_policy_def)
next
  fix s ok out err t
  assume "ho_nft sim_host_ops [''delete'', ''table'', ''inet'', ''outcall''] [] s = (Exited ok out err, t)"
    and "ok \<or> table_missing err"
  with sim_host_nft [OF this(1)] show "\<not> sim_policy t"
    using sim_delete by (auto simp: sim_policy_def)
next
  fix s rc t m
  assume "ho_nft sim_host_ops [''delete'', ''table'', ''inet'', ''outcall''] [] s = (rc, t)"
  from sim_host_nft [OF this] show "sim_index m t = sim_index m s" by auto
qed (auto simp: sim_host_ops_def sim_link_def sim_index_def [of _ _] elim!: sim_netlink_cases split: if_splits)

end
