(* ===== verification/Rule_Loader.thy ===== *)
theory Rule_Loader
  imports Api_Types State_File "HOL-Library.List_Lexorder" "HOL-Library.Char_ord"
begin

text \<open>
  Rule files and their loader (outcalld/src/rules/model.rs, outcalld/src/rules/loader.rs):
  discovery of the YAML files, validation of every rule, expansion of \<open>$name\<close> definitions and
  assembly of the compiled rule set in evaluation order.

  The YAML parser, the CEL compiler and the Unicode classification of non-ASCII characters are not
  part of the repository: they are the fields of \<open>loader_ext\<close>, a parameter of the model.
\<close>

section \<open>Data model (rules/model.rs)\<close>

datatype egress_mode = Proxy | DirectIp | Intercept

record egress_spec =
  eg_mode :: egress_mode
  eg_ports :: "u16 list"
  eg_allow_private_ips :: bool

record enrich_spec =
  en_script :: string
  en_timeout_ms :: "u64 option"

record rule_spec =
  rs_id :: string
  rs_condition :: string
  rs_action :: rule_action
  rs_log :: bool
  rs_description :: "string option"
  rs_priority :: "int option"
  rs_enrich :: "enrich_spec option"
  rs_egress :: "egress_spec option"

text \<open>\<open>definitions\<close> is a hash map: an association list with one entry per key.\<close>

record rule_file =
  rf_version :: string
  rf_definitions :: "(string \<times> string) list"
  rf_rules :: "rule_spec list"

record 'p compiled_rule =
  cr_id :: string
  cr_file :: string
  cr_condition_expanded :: string
  cr_action :: rule_action
  cr_log :: bool
  cr_description :: "string option"
  cr_priority :: int
  cr_egress :: "egress_spec option"
  cr_program :: 'p

type_synonym 'p rule_set = "'p compiled_rule list"

section \<open>Parameters and errors\<close>

record 'p loader_ext =
  yaml_from_str :: "string \<Rightarrow> rule_file option"
  cel_compile :: "string \<Rightarrow> 'p option"
  unicode_alphanumeric :: "string \<Rightarrow> bool"

datatype load_error =
    Inspect_Dir_Failed path
  | Not_A_Directory path
  | Read_Dir_Failed path
  | Entry_Not_Real_File string
  | Too_Many_Files
  | File_Name_Not_Utf8
  | Read_Error state_error
  | Disappeared string
  | Content_Not_Utf8 string
  | Total_Size_Overflow
  | Total_Size_Exceeded
  | Yaml_Error string
  | Unsupported_Version string string
  | Invalid_Rule_Id string string
  | Unsupported_Enrich string string
  | Enrich_Without_Action string string
  | Egress_Not_Allow string string
  | Unsupported_Intercept string string
  | Duplicate_Rule_Id string string string
  | Too_Many_Rules
  | Depth_Exceeded string
  | Undefined_Reference string string
  | Circular_Reference string string
  | Expansion_Length_Overflow
  | Expansion_Too_Long string
  | Cel_Error string string
  | Input_Too_Large

definition MAX_RULE_FILES :: nat where "MAX_RULE_FILES = 1024"
definition MAX_RULE_FILE_BYTES :: nat where "MAX_RULE_FILE_BYTES = 1024 * 1024"
definition MAX_RULES_TOTAL_BYTES :: nat where "MAX_RULES_TOTAL_BYTES = 16 * 1024 * 1024"
definition MAX_RULES :: nat where "MAX_RULES = 10000"
definition MAX_DEFINITION_DEPTH :: nat where "MAX_DEFINITION_DEPTH = 64"
definition MAX_EXPANDED_CONDITION_BYTES :: nat where
  "MAX_EXPANDED_CONDITION_BYTES = 1024 * 1024"

definition USIZE_MAX :: nat where "USIZE_MAX = 2 ^ 64 - 1"

section \<open>Expansion of definitions\<close>

text \<open>
  The longest prefix of characters that are alphanumeric or underscores; \<open>ua\<close> classifies a
  non-ASCII character given by its UTF-8 bytes.
\<close>

function name_prefix :: "(string \<Rightarrow> bool) \<Rightarrow> string \<Rightarrow> string" where
  "name_prefix ua s =
     (case s of
        [] \<Rightarrow> []
      | c # cs \<Rightarrow>
          if byte c < 128 then
            (if is_ascii_alphanumeric c \<or> c = CHR ''_'' then c # name_prefix ua cs else [])
          else
            (let n = max 1 (utf8_head s)
             in if ua (take n s) then take n s @ name_prefix ua (drop n s) else []))"
  by pat_completeness auto
termination
  by (relation "measure (length o snd)") (auto simp: Let_def)

declare name_prefix.simps [simp del]

text \<open>
  The loop of \<open>expand_recursive\<close>: the string under rewriting is \<open>done @ rest\<close> and the source's
  \<open>index\<close> is \<open>length done\<close>. A recursive expansion starts with the depth check of the callee, on the
  stack that already holds the name.
\<close>

function expand_loop ::
  "(string \<Rightarrow> bool) \<Rightarrow> (string \<rightharpoonup> string) \<Rightarrow> string \<Rightarrow> string list \<Rightarrow> string \<Rightarrow> string
     \<Rightarrow> (load_error, string) result" where
  "expand_loop ua definitions file_name stack done rest =
     (case rest of
        [] \<Rightarrow> Inr done
      | c # cs \<Rightarrow>
          if c \<noteq> CHR ''$'' then expand_loop ua definitions file_name stack (done @ [c]) cs
          else
            (let name = name_prefix ua cs
             in if name = [] then expand_loop ua definitions file_name stack (done @ [c]) cs
                else
                  (case definitions name of
                     None \<Rightarrow> Inl (Undefined_Reference name file_name)
                   | Some definition_text \<Rightarrow>
                       if name \<in> set stack then Inl (Circular_Reference name file_name)
                       else if MAX_DEFINITION_DEPTH \<le> length stack + 1
                       then Inl (Depth_Exceeded file_name)
                       else
                         (case expand_loop ua definitions file_name (stack @ [name]) []
                                 definition_text of
                            Inl e \<Rightarrow> Inl e
                          | Inr expanded \<Rightarrow>
                              (let replacement = ''('' @ expanded @ '')'';
                                   new_len = length done + length rest - (length name + 1)
                                     + length replacement
                               in if USIZE_MAX < new_len then Inl Expansion_Length_Overflow
                                  else if MAX_EXPANDED_CONDITION_BYTES < new_len
                                  then Inl (Expansion_Too_Long file_name)
                                  else expand_loop ua definitions file_name stack
                                         (done @ replacement) (drop (length name) cs))))))"
  by pat_completeness auto
termination
  by (relation "measures [\<lambda>(ua, ds, f, stack, dn, rest). MAX_DEFINITION_DEPTH - length stack,
        \<lambda>(ua, ds, f, stack, dn, rest). length rest]")
     (auto simp: MAX_DEFINITION_DEPTH_def)

declare expand_loop.simps [simp del]

definition expand_recursive ::
  "(string \<Rightarrow> bool) \<Rightarrow> (string \<rightharpoonup> string) \<Rightarrow> string \<Rightarrow> string list \<Rightarrow> string
     \<Rightarrow> (load_error, string) result" where
  "expand_recursive ua definitions file_name stack expression =
     (if MAX_DEFINITION_DEPTH \<le> length stack then Inl (Depth_Exceeded file_name)
      else expand_loop ua definitions file_name stack [] expression)"

definition expand_definitions ::
  "(string \<Rightarrow> bool) \<Rightarrow> string \<Rightarrow> (string \<rightharpoonup> string) \<Rightarrow> string \<Rightarrow> (load_error, string) result" where
  "expand_definitions ua expression definitions file_name =
     expand_recursive ua definitions file_name [] expression"

section \<open>Validation\<close>

definition validate_version :: "rule_file \<Rightarrow> string \<Rightarrow> (load_error, unit) result" where
  "validate_version f file_name =
     ensure (rf_version f = ''1'') (Unsupported_Version (rf_version f) file_name)"

definition validate_rule_id :: "string \<Rightarrow> string \<Rightarrow> (load_error, unit) result" where
  "validate_rule_id i file_name = ensure (valid_rule_id i) (Invalid_Rule_Id i file_name)"

definition validate_rule_semantics :: "rule_spec \<Rightarrow> string \<Rightarrow> (load_error, unit) result" where
  "validate_rule_semantics rule file_name =
     (if rs_action rule = Rule_Enrich then Inl (Unsupported_Enrich (rs_id rule) file_name)
      else if rs_enrich rule \<noteq> None then Inl (Enrich_Without_Action (rs_id rule) file_name)
      else if rs_egress rule \<noteq> None \<and> rs_action rule \<noteq> Rule_Allow
      then Inl (Egress_Not_Allow (rs_id rule) file_name)
      else if (case rs_egress rule of None \<Rightarrow> False | Some e \<Rightarrow> eg_mode e = Intercept)
      then Inl (Unsupported_Intercept (rs_id rule) file_name)
      else Inr ())"

datatype load_warning = Unused_Definition string string | Definitions_Without_Rules string

definition collect_file_warnings :: "rule_file \<Rightarrow> string \<Rightarrow> load_warning list" where
  "collect_file_warnings f file_name =
     map (\<lambda>d. Unused_Definition d file_name)
       (filter (\<lambda>d. \<not> list_ex (\<lambda>r. contains (rs_condition r) (CHR ''$'' # d)) (rf_rules f))
         (map fst (rf_definitions f)))
     @ (if rf_definitions f \<noteq> [] \<and> rf_rules f = [] then [Definitions_Without_Rules file_name]
        else [])"

section \<open>Loading\<close>

record 'p load_state =
  ls_rules :: "'p rule_set"
  ls_seen_ids :: "(string \<times> string) list"
  ls_warnings :: "load_warning list"
  ls_total_bytes :: nat

definition load_rule ::
  "'p loader_ext \<Rightarrow> rule_file \<Rightarrow> string \<Rightarrow> rule_spec \<Rightarrow> 'p load_state
     \<Rightarrow> (load_error, 'p load_state) result" where
  "load_rule ext f file_name spec st =
     res_bind (validate_rule_id (rs_id spec) file_name) (\<lambda>_.
     res_bind (validate_rule_semantics spec file_name) (\<lambda>_.
     (case map_of (ls_seen_ids st) (rs_id spec) of
        Some first_file \<Rightarrow> Inl (Duplicate_Rule_Id (rs_id spec) file_name first_file)
      | None \<Rightarrow>
          (let seen = (rs_id spec, file_name) # ls_seen_ids st
           in if MAX_RULES < length seen then Inl Too_Many_Rules
              else
                res_bind (expand_definitions (unicode_alphanumeric ext) (rs_condition spec)
                    (map_of (rf_definitions f)) file_name) (\<lambda>expanded.
                res_bind (ok_or (Cel_Error (rs_id spec) file_name) (cel_compile ext expanded))
                  (\<lambda>program.
                Inr (st\<lparr>ls_seen_ids := seen,
                  ls_rules := ls_rules st @
                    [\<lparr>cr_id = rs_id spec, cr_file = file_name, cr_condition_expanded = expanded,
                      cr_action = rs_action spec, cr_log = rs_log spec,
                      cr_description = rs_description spec,
                      cr_priority = (case rs_priority spec of None \<Rightarrow> 100 | Some n \<Rightarrow> n),
                      cr_egress = rs_egress spec, cr_program = program\<rparr>]\<rparr>)))))))"

text \<open>One file whose contents have been read.\<close>

definition load_content ::
  "'p loader_ext \<Rightarrow> string \<Rightarrow> string \<Rightarrow> 'p load_state \<Rightarrow> (load_error, 'p load_state) result" where
  "load_content ext file_name content st =
     (let total = ls_total_bytes st + length content
      in if USIZE_MAX < total then Inl Total_Size_Overflow
         else if MAX_RULES_TOTAL_BYTES < total then Inl Total_Size_Exceeded
         else
           res_bind (ok_or (Yaml_Error file_name) (yaml_from_str ext content)) (\<lambda>f.
           res_bind (validate_version f file_name) (\<lambda>_.
           fold_res (load_rule ext f file_name) (rf_rules f)
             (st\<lparr>ls_total_bytes := total,
                 ls_warnings := ls_warnings st @ collect_file_warnings f file_name\<rparr>))))"

text \<open>\<open>Path::extension\<close> of a file name: what follows the last dot that is not its first byte.\<close>

definition extension :: "string \<Rightarrow> string option" where
  "extension name =
     (case split_once CHR ''.'' (rev name) of
        None \<Rightarrow> None
      | Some (ext, stem) \<Rightarrow> if stem = [] then None else Some (rev ext))"

definition is_rule_file :: "string \<Rightarrow> bool" where
  "is_rule_file name \<longleftrightarrow> extension name = Some ''yaml'' \<or> extension name = Some ''yml''"

definition dir_entries :: "fs \<Rightarrow> path \<Rightarrow> (string \<times> node) list" where
  "dir_entries s dir =
     map (\<lambda>(q, n). (last q, n))
       (filter (\<lambda>(q, n). q \<noteq> [] \<and> butlast q = dir) (AList.clearjunk (nodes s)))"

text \<open>\<open>std::fs::read_dir\<close>: the entries in an unspecified order, here that of the node list.\<close>

definition read_dir :: "path \<Rightarrow> (io_kind, (string \<times> node) list) fs_io" where
  "read_dir dir s = (case syscall s of
      (Some _, t) \<Rightarrow> (Inl Io_Other, t)
    | (None, t) \<Rightarrow> (Inr (dir_entries t dir), t))"

definition discover_entry ::
  "path \<Rightarrow> string \<times> node \<Rightarrow> string list \<Rightarrow> (load_error, string list) fs_io" where
  "discover_entry dir entry files =
     io_bind (with_context (Read_Dir_Failed dir) plain_call) (\<lambda>_.
       if \<not> is_rule_file (fst entry) then io_return files
       else
         io_bind (with_context (Inspect_Dir_Failed (dir @ [fst entry])) plain_call) (\<lambda>_.
           case snd entry of
             File _ _ \<Rightarrow>
               (if MAX_RULE_FILES < length files + 1 then io_fail Too_Many_Files
                else io_return (files @ [fst entry]))
           | _ \<Rightarrow> io_fail (Entry_Not_Real_File (fst entry))))"

definition discover_rule_files :: "path \<Rightarrow> (load_error, string list) fs_io" where
  "discover_rule_files dir s =
     (case lstat dir s of
        (Inl Not_Found, t) \<Rightarrow> (Inr [], t)
      | (Inl _, t) \<Rightarrow> (Inl (Inspect_Dir_Failed dir), t)
      | (Inr n, t) \<Rightarrow>
          if n \<noteq> Dir then (Inl (Not_A_Directory dir), t)
          else io_bind (with_context (Read_Dir_Failed dir) (read_dir dir)) (\<lambda>entries.
                 io_bind (io_fold (discover_entry dir) entries []) (\<lambda>files.
                 io_return (sort files))) t)"

definition read_rule_file :: "path \<Rightarrow> string \<Rightarrow> (load_error, string) fs_io" where
  "read_rule_file dir name =
     io_bind (io_map_err Read_Error (read_optional (dir @ [name]) MAX_RULE_FILE_BYTES)) (\<lambda>content.
       case content of
         None \<Rightarrow> io_fail (Disappeared name)
       | Some bytes \<Rightarrow>
           if valid_utf8 bytes then io_return bytes else io_fail (Content_Not_Utf8 name))"

definition load_file ::
  "'p loader_ext \<Rightarrow> path \<Rightarrow> string \<Rightarrow> 'p load_state \<Rightarrow> (load_error, 'p load_state) fs_io" where
  "load_file ext dir name st =
     (if \<not> valid_utf8 name then io_fail File_Name_Not_Utf8
      else io_bind (read_rule_file dir name) (\<lambda>content. io_lift (load_content ext name content st)))"

record 'p loaded_rules =
  lr_rule_set :: "'p rule_set"
  lr_files_loaded :: nat
  lr_warnings :: "load_warning list"

definition load_rules :: "'p loader_ext \<Rightarrow> path \<Rightarrow> (load_error, 'p loaded_rules) fs_io" where
  "load_rules ext dir =
     io_bind (discover_rule_files dir) (\<lambda>files.
       if files = [] then io_return \<lparr>lr_rule_set = [], lr_files_loaded = 0, lr_warnings = []\<rparr>
       else
         io_bind (io_fold (load_file ext dir) files
             \<lparr>ls_rules = [], ls_seen_ids = [], ls_warnings = [], ls_total_bytes = 0\<rparr>) (\<lambda>st.
         io_return \<lparr>lr_rule_set = sort_by_key cr_priority (ls_rules st),
           lr_files_loaded = length files, lr_warnings = ls_warnings st\<rparr>))"

section \<open>Validation of a submitted file\<close>

definition validate_rule ::
  "'p loader_ext \<Rightarrow> rule_file \<Rightarrow> rule_spec \<Rightarrow> string list \<Rightarrow> (load_error, string list) result" where
  "validate_rule ext f rule seen =
     res_bind (validate_rule_id (rs_id rule) ''<input>'') (\<lambda>_.
     res_bind (validate_rule_semantics rule ''<input>'') (\<lambda>_.
     if rs_id rule \<in> set seen then Inl (Duplicate_Rule_Id (rs_id rule) ''<input>'' ''<input>'')
     else
       res_bind (expand_definitions (unicode_alphanumeric ext) (rs_condition rule)
           (map_of (rf_definitions f)) ''<input>'') (\<lambda>expanded.
       res_bind (ok_or (Cel_Error (rs_id rule) ''<input>'') (cel_compile ext expanded)) (\<lambda>_.
       Inr (rs_id rule # seen)))))"

definition validate_rule_yaml :: "'p loader_ext \<Rightarrow> string \<Rightarrow> (load_error, unit) result" where
  "validate_rule_yaml ext rule_yaml =
     (if MAX_RULE_FILE_BYTES < length rule_yaml then Inl Input_Too_Large
      else
        res_bind (ok_or (Yaml_Error ''<input>'') (yaml_from_str ext rule_yaml)) (\<lambda>f.
        res_bind (validate_version f ''<input>'') (\<lambda>_.
        res_bind (fold_res (validate_rule ext f) (rf_rules f) []) (\<lambda>_. Inr ()))))"

section \<open>The expansion loop\<close>

lemma expand_loop_Nil [simp]: "expand_loop ua ds f stack dn [] = Inr dn"
  by (simp add: expand_loop.simps)

lemma expand_loop_plain:
  "c \<noteq> CHR ''$'' \<or> name_prefix ua cs = [] \<Longrightarrow>
     expand_loop ua ds f stack dn (c # cs) = expand_loop ua ds f stack (dn @ [c]) cs"
  by (subst expand_loop.simps) (auto simp: Let_def)

lemma name_prefix_prefix: "prefix (name_prefix ua s) s"
proof (induction ua s rule: name_prefix.induct)
  case (1 ua s)
  show ?case
  proof (cases s)
    case Nil
    then show ?thesis by (simp add: name_prefix.simps)
  next
    case (Cons c cs)
    let ?n = "max 1 (utf8_head s)"
    have "prefix (take ?n s @ name_prefix ua (drop ?n s)) (take ?n s @ drop ?n s)"
      if "\<not> byte c < 128" "ua (take ?n s)"
      using 1(2) [OF Cons that(1) refl that(2)] by (simp only: same_prefix_prefix)
    with 1(1) [OF Cons] Cons show ?thesis
      by (subst name_prefix.simps) (auto simp: Let_def)
  qed
qed

text \<open>Inversion of a successful step at a reference.\<close>

lemma expand_loop_refE:
  assumes "expand_loop ua ds f stack dn (CHR ''$'' # cs) = Inr r"
    and "name_prefix ua cs \<noteq> []"
  obtains d x where "ds (name_prefix ua cs) = Some d" "name_prefix ua cs \<notin> set stack"
    "length stack + 1 < MAX_DEFINITION_DEPTH"
    "expand_loop ua ds f (stack @ [name_prefix ua cs]) [] d = Inr x"
    "length (dn @ ''('' @ x @ '')'') + length (drop (length (name_prefix ua cs)) cs)
       \<le> MAX_EXPANDED_CONDITION_BYTES"
    "expand_loop ua ds f stack (dn @ ''('' @ x @ '')'') (drop (length (name_prefix ua cs)) cs)
       = Inr r"
proof -
  let ?n = "name_prefix ua cs"
  have len: "length ?n \<le> length cs" using prefix_length_le [OF name_prefix_prefix] .
  from assms obtain d where d: "ds ?n = Some d" "?n \<notin> set stack"
      "length stack + 1 < MAX_DEFINITION_DEPTH"
    by (subst (asm) expand_loop.simps) (auto simp: Let_def split: option.splits if_splits)
  with assms obtain x where x: "expand_loop ua ds f (stack @ [?n]) [] d = Inr x"
    by (subst (asm) expand_loop.simps) (auto simp: Let_def split: sum.splits if_splits)
  from assms d x len
  have "length (dn @ ''('' @ x @ '')'') + length (drop (length ?n) cs)
      \<le> MAX_EXPANDED_CONDITION_BYTES"
    "expand_loop ua ds f stack (dn @ ''('' @ x @ '')'') (drop (length ?n) cs) = Inr r"
    by (subst (asm) (1) expand_loop.simps, simp add: Let_def split: if_splits)+
  with d x that show thesis by blast
qed

text \<open>Induction over a successful run of the loop: plain bytes and references.\<close>

lemma expand_loop_induct [consumes 1, case_names Nil Plain Ref]:
  assumes "expand_loop ua ds f stack dn rest = Inr r"
    and "\<And>stack dn. P stack dn [] dn"
    and "\<And>stack dn c cs r. c \<noteq> CHR ''$'' \<or> name_prefix ua cs = [] \<Longrightarrow>
       expand_loop ua ds f stack (dn @ [c]) cs = Inr r \<Longrightarrow> P stack (dn @ [c]) cs r \<Longrightarrow>
       P stack dn (c # cs) r"
    and "\<And>stack dn cs d x r. name_prefix ua cs \<noteq> [] \<Longrightarrow> ds (name_prefix ua cs) = Some d \<Longrightarrow>
       name_prefix ua cs \<notin> set stack \<Longrightarrow> length stack + 1 < MAX_DEFINITION_DEPTH \<Longrightarrow>
       expand_loop ua ds f (stack @ [name_prefix ua cs]) [] d = Inr x \<Longrightarrow>
       P (stack @ [name_prefix ua cs]) [] d x \<Longrightarrow>
       length (dn @ ''('' @ x @ '')'') + length (drop (length (name_prefix ua cs)) cs)
         \<le> MAX_EXPANDED_CONDITION_BYTES \<Longrightarrow>
       expand_loop ua ds f stack (dn @ ''('' @ x @ '')'')
         (drop (length (name_prefix ua cs)) cs) = Inr r \<Longrightarrow>
       P stack (dn @ ''('' @ x @ '')'') (drop (length (name_prefix ua cs)) cs) r \<Longrightarrow>
       P stack dn (CHR ''$'' # cs) r"
  shows "P stack dn rest r"
  using assms(1)
proof (induction "(stack, dn, rest)" arbitrary: stack dn rest r
    rule: wf_induct_rule [OF wf_measures [of
      "[\<lambda>(stack, dn, rest). MAX_DEFINITION_DEPTH - length stack, \<lambda>(stack, dn, rest). length rest]"]])
  case (1 stack dn rest r)
  note IH = 1(1) and run = 1(2)
  show ?case
  proof (cases rest)
    case Nil
    with run assms(2) show ?thesis by simp
  next
    case (Cons c cs)
    let ?n = "name_prefix ua cs"
    show ?thesis
    proof (cases "c \<noteq> CHR ''$'' \<or> ?n = []")
      case True
      with run Cons have "expand_loop ua ds f stack (dn @ [c]) cs = Inr r"
        by (simp add: expand_loop_plain)
      with True Cons assms(3) IH [of stack "dn @ [c]" cs r] show ?thesis by simp
    next
      case False
      with run Cons obtain d x where step:
        "ds ?n = Some d" "?n \<notin> set stack" "length stack + 1 < MAX_DEFINITION_DEPTH"
        "expand_loop ua ds f (stack @ [?n]) [] d = Inr x"
        "length (dn @ ''('' @ x @ '')'') + length (drop (length ?n) cs)
           \<le> MAX_EXPANDED_CONDITION_BYTES"
        "expand_loop ua ds f stack (dn @ ''('' @ x @ '')'') (drop (length ?n) cs) = Inr r"
        by (auto elim: expand_loop_refE)
      have "MAX_DEFINITION_DEPTH - Suc (length stack) < MAX_DEFINITION_DEPTH - length stack"
        using step(3) by arith
      then have "P (stack @ [?n]) [] d x" using IH [OF _ step(4)] by simp
      moreover have "P stack (dn @ ''('' @ x @ '')'') (drop (length ?n) cs) r"
        using IH [OF _ step(6)] Cons by (simp add: less_Suc_eq_le)
      ultimately show ?thesis using False Cons assms(4) step by auto
    qed
  qed
qed

text \<open>Success does not depend on the file name that errors mention.\<close>

lemma expand_loop_file_name:
  "expand_loop ua ds f stack dn rest = Inr r \<Longrightarrow> expand_loop ua ds g stack dn rest = Inr r"
proof (induction rule: expand_loop_induct)
  case (Nil stack dn)
  then show ?case by simp
next
  case (Plain stack dn c cs r)
  then show ?case by (simp add: expand_loop_plain)
next
  case (Ref stack dn cs d x r)
  have "length (name_prefix ua cs) \<le> length cs"
    using prefix_length_le [OF name_prefix_prefix] .
  with Ref show ?case
    by (subst expand_loop.simps)
       (simp add: Let_def MAX_EXPANDED_CONDITION_BYTES_def USIZE_MAX_def)
qed

lemma expand_loop_length:
  "expand_loop ua ds f stack dn rest = Inr r \<Longrightarrow>
     length r \<le> max (length dn + length rest) MAX_EXPANDED_CONDITION_BYTES"
  by (induction rule: expand_loop_induct) auto

text \<open>Bytes before the first reference are copied; what replaces a reference starts with \<open>(\<close>.\<close>

abbreviation ascii_start :: "string \<Rightarrow> bool" where
  "ascii_start s \<equiv> s = [] \<or> hd s = CHR ''$'' \<or> hd s = CHR ''('' \<or> hd s = CHR '')''"

lemma expand_loop_shape:
  "expand_loop ua ds f stack dn rest = Inr r \<Longrightarrow>
     \<exists>out. r = dn @ takeWhile (\<lambda>c. c \<noteq> CHR ''$'') rest @ out \<and> ascii_start out"
proof (induction rule: expand_loop_induct)
  case (Nil stack dn)
  then show ?case by simp
next
  case (Plain stack dn c cs r)
  then show ?case by (cases "c = CHR ''$''") auto
next
  case (Ref stack dn cs d x r)
  then show ?case by auto
qed

text \<open>No reference is left: no \<open>$\<close> is followed by a name.\<close>

fun reference_free :: "(string \<Rightarrow> bool) \<Rightarrow> string \<Rightarrow> bool" where
  "reference_free ua [] = True"
| "reference_free ua (c # cs) =
     ((c = CHR ''$'' \<longrightarrow> name_prefix ua cs = []) \<and> reference_free ua cs)"

lemma utf8_head_le: "utf8_head s \<le> length s"
  by (simp add: utf8_head_def split: list.split)

lemma utf8_head_ascii_start:
  assumes "x \<noteq> []" and "\<not> byte (hd x) < 128" and "ascii_start y"
  shows "utf8_head (x @ y) = utf8_head x \<and> utf8_head x \<le> length x"
proof -
  have y: "y = [] \<or> byte (hd y) < 128" using assms(3) by auto
  obtain a x1 where x: "x = a # x1" using assms(1) by (cases x) auto
  show ?thesis
  proof (cases x1)
    case Nil
    with x y assms(2) show ?thesis
      by (cases y) (auto simp: utf8_head_def split: list.splits)
  next
    case x1: (Cons b x2)
    show ?thesis
    proof (cases x2)
      case Nil
      with x x1 y assms(2) show ?thesis
        by (cases y) (auto simp: utf8_head_def split: list.splits)
    next
      case x2: (Cons c x3)
      show ?thesis
      proof (cases x3)
        case Nil
        with x x1 x2 y assms(2) show ?thesis
          by (cases y) (auto simp: utf8_head_def split: list.splits)
      next
        case (Cons d x4)
        with x x1 x2 show ?thesis using utf8_head_le [of x] by (simp add: utf8_head_def)
      qed
    qed
  qed
qed

lemma name_prefix_empty_ascii:
  assumes "ascii_start y"
  shows "name_prefix ua (x @ y) = [] \<longleftrightarrow> name_prefix ua x = []"
proof (cases x)
  case Nil
  with assms show ?thesis
    by (cases y) (auto simp: name_prefix.simps is_ascii_alphanumeric_def is_ascii_digit_def
        is_ascii_upper_def is_ascii_lower_def)
next
  case (Cons c cs)
  show ?thesis
  proof (cases "byte c < 128")
    case True
    with Cons show ?thesis
      by (simp add: name_prefix.simps [of ua "c # cs"] name_prefix.simps [of ua "c # cs @ y"])
  next
    case False
    have h: "utf8_head (x @ y) = utf8_head x" "utf8_head x \<le> length x"
      using utf8_head_ascii_start [of x y] Cons False assms by auto
    then have "max 1 (utf8_head x) \<le> length x" using Cons by simp
    then have "take (max 1 (utf8_head x)) (x @ y) = take (max 1 (utf8_head x)) x" by simp
    with Cons False h show ?thesis
      by (simp add: name_prefix.simps [of ua "c # cs"] name_prefix.simps [of ua "c # cs @ y"]
          Let_def)
  qed
qed

lemma expand_loop_head:
  assumes "expand_loop ua ds f stack dn cs = Inr (dn @ out)"
  shows "name_prefix ua out = [] \<longleftrightarrow> name_prefix ua cs = []"
proof -
  let ?w = "takeWhile (\<lambda>c. c \<noteq> CHR ''$'') cs"
  from expand_loop_shape [OF assms] obtain y where y: "out = ?w @ y" "ascii_start y" by auto
  have cs: "cs = ?w @ dropWhile (\<lambda>c. c \<noteq> CHR ''$'') cs" by simp
  have "ascii_start (dropWhile (\<lambda>c. c \<noteq> CHR ''$'') cs)"
    using hd_dropWhile [of "\<lambda>c. c \<noteq> CHR ''$''" cs] by auto
  then have "name_prefix ua cs = [] \<longleftrightarrow> name_prefix ua ?w = []"
    using name_prefix_empty_ascii [of "dropWhile (\<lambda>c. c \<noteq> CHR ''$'') cs" ua ?w] cs by simp
  with y name_prefix_empty_ascii [of y ua ?w] show ?thesis by simp
qed

lemma reference_free_append:
  "reference_free ua x \<Longrightarrow> reference_free ua y \<Longrightarrow> ascii_start y \<Longrightarrow> reference_free ua (x @ y)"
  by (induction x) (auto simp: name_prefix_empty_ascii)

lemma expand_loop_reference_free:
  "expand_loop ua ds f stack dn rest = Inr r \<Longrightarrow> \<exists>out. r = dn @ out \<and> reference_free ua out"
proof (induction rule: expand_loop_induct)
  case (Nil stack dn)
  then show ?case by simp
next
  case (Plain stack dn c cs r)
  then obtain out where out: "r = (dn @ [c]) @ out" "reference_free ua out" by auto
  with Plain(2) have "name_prefix ua out = [] \<longleftrightarrow> name_prefix ua cs = []"
    using expand_loop_head [of ua ds f stack "dn @ [c]" cs out] by simp
  with Plain(1) out show ?case by (intro exI [of _ "c # out"]) auto
next
  case (Ref stack dn cs d x r)
  then obtain out where out: "r = (dn @ ''('' @ x @ '')'') @ out" "reference_free ua out"
    by auto
  have "reference_free ua x" using Ref by auto
  then have "reference_free ua (x @ CHR '')'' # out)"
    using out(2) by (intro reference_free_append) auto
  with out show ?case by auto
qed

section \<open>Well-formed rule sets\<close>

definition wf_rule :: "'p loader_ext \<Rightarrow> 'p compiled_rule \<Rightarrow> bool" where
  "wf_rule ext r \<longleftrightarrow>
     valid_rule_id (cr_id r) \<and> cr_action r \<noteq> Rule_Enrich
     \<and> (cr_egress r \<noteq> None \<longrightarrow> cr_action r = Rule_Allow)
     \<and> (\<forall>e. cr_egress r = Some e \<longrightarrow> eg_mode e \<noteq> Intercept)
     \<and> cel_compile ext (cr_condition_expanded r) = Some (cr_program r)
     \<and> reference_free (unicode_alphanumeric ext) (cr_condition_expanded r)"

text \<open>Evaluation order: by priority, rules of one priority by file name.\<close>

definition evaluation_order :: "'p compiled_rule \<Rightarrow> 'p compiled_rule \<Rightarrow> bool" where
  "evaluation_order a b \<longleftrightarrow>
     cr_priority a < cr_priority b \<or> cr_priority a = cr_priority b \<and> cr_file a \<le> cr_file b"

definition wf_rule_set :: "'p loader_ext \<Rightarrow> 'p rule_set \<Rightarrow> bool" where
  "wf_rule_set ext rs \<longleftrightarrow>
     (\<forall>r \<in> set rs. wf_rule ext r) \<and> distinct (map cr_id rs) \<and> length rs \<le> MAX_RULES
     \<and> sorted_wrt evaluation_order rs"

text \<open>The state of the loading loop: seen identifiers are those of the rules collected so far.\<close>

definition wf_load_state :: "'p loader_ext \<Rightarrow> 'p load_state \<Rightarrow> bool" where
  "wf_load_state ext st \<longleftrightarrow>
     (\<forall>r \<in> set (ls_rules st). wf_rule ext r)
     \<and> map fst (ls_seen_ids st) = rev (map cr_id (ls_rules st))
     \<and> distinct (map cr_id (ls_rules st)) \<and> length (ls_rules st) \<le> MAX_RULES"

lemma validate_rule_semantics_ok:
  "validate_rule_semantics rule f = Inr u \<longleftrightarrow>
     rs_action rule \<noteq> Rule_Enrich \<and> rs_enrich rule = None
     \<and> (rs_egress rule \<noteq> None \<longrightarrow> rs_action rule = Rule_Allow)
     \<and> (\<forall>e. rs_egress rule = Some e \<longrightarrow> eg_mode e \<noteq> Intercept)"
  by (auto simp: validate_rule_semantics_def split: option.splits)

lemma expand_definitions_ok:
  assumes "expand_definitions ua c ds f = Inr x"
  shows "reference_free ua x" "length x \<le> max (length c) MAX_EXPANDED_CONDITION_BYTES"
    "expand_definitions ua c ds g = Inr x"
  using assms expand_loop_reference_free [of ua ds f "[]" "[]" c x]
    expand_loop_length [of ua ds f "[]" "[]" c x] expand_loop_file_name [of ua ds f "[]" "[]" c x g]
  by (auto simp: expand_definitions_def expand_recursive_def split: if_splits)

text \<open>Inversion of one successful iteration of the rule loop.\<close>

lemma load_rule_ok:
  assumes "load_rule ext f name spec st = Inr st'"
  obtains expanded program where
    "valid_rule_id (rs_id spec)" "validate_rule_semantics spec name = Inr ()"
    "rs_id spec \<notin> fst ` set (ls_seen_ids st)" "length (ls_seen_ids st) < MAX_RULES"
    "expand_definitions (unicode_alphanumeric ext) (rs_condition spec)
       (map_of (rf_definitions f)) name = Inr expanded"
    "cel_compile ext expanded = Some program"
    "ls_seen_ids st' = (rs_id spec, name) # ls_seen_ids st"
    "ls_rules st' = ls_rules st @
       [\<lparr>cr_id = rs_id spec, cr_file = name, cr_condition_expanded = expanded,
         cr_action = rs_action spec, cr_log = rs_log spec,
         cr_description = rs_description spec,
         cr_priority = (case rs_priority spec of None \<Rightarrow> 100 | Some n \<Rightarrow> n),
         cr_egress = rs_egress spec, cr_program = program\<rparr>]"
  using assms that
  by (auto simp: load_rule_def result_simps validate_rule_id_def Let_def map_of_eq_None_iff
      less_Suc_eq_le split: option.splits if_splits)

lemma load_rule_wf [wf_intro]:
  assumes "wf_load_state ext st" and "load_rule ext f name spec st = Inr st'"
  shows "wf_load_state ext st'"
  using assms(2)
proof (cases rule: load_rule_ok)
  case (1 expanded program)
  have "set (map cr_id (ls_rules st)) = fst ` set (ls_seen_ids st)"
    "length (ls_rules st) = length (ls_seen_ids st)"
    using assms(1) by (metis list.set_map set_rev wf_load_state_def)
      (metis assms(1) length_map length_rev wf_load_state_def)
  with 1 assms(1) expand_definitions_ok(1) [OF 1(5)] show ?thesis
    by (auto simp: wf_load_state_def wf_rule_def validate_rule_semantics_ok)
qed

lemma load_contentE:
  assumes "load_content ext name content st = Inr st'"
  obtains f st1 where "ls_rules st1 = ls_rules st" "ls_seen_ids st1 = ls_seen_ids st"
    "fold_res (load_rule ext f name) (rf_rules f) st1 = Inr st'"
proof -
  from assms obtain f where "fold_res (load_rule ext f name) (rf_rules f)
      (st\<lparr>ls_total_bytes := ls_total_bytes st + length content,
          ls_warnings := ls_warnings st @ collect_file_warnings f name\<rparr>) = Inr st'"
    by (auto simp: load_content_def Let_def result_simps split: if_splits)
  then show thesis by (rule that [rotated 2]) simp_all
qed

lemma load_content_wf [wf_intro]:
  assumes "wf_load_state ext st" and "load_content ext name content st = Inr st'"
  shows "wf_load_state ext st'"
proof -
  from assms(2) obtain f st1 where st1: "ls_rules st1 = ls_rules st" "ls_seen_ids st1 = ls_seen_ids st"
    and loop: "fold_res (load_rule ext f name) (rf_rules f) st1 = Inr st'"
    by (elim load_contentE)
  have "wf_load_state ext st1" using assms(1) st1 by (simp add: wf_load_state_def)
  with loop show ?thesis by (rule fold_res_invariant) (rule load_rule_wf)
qed

lemma load_file_wf [wf_intro]:
  "wf_load_state ext st \<Longrightarrow> load_file ext dir name st s = (Inr st', t) \<Longrightarrow> wf_load_state ext st'"
  by (auto simp: load_file_def io_eqs split: if_splits intro: load_content_wf)

definition init_load_state :: "'p load_state" where
  "init_load_state = \<lparr>ls_rules = [], ls_seen_ids = [], ls_warnings = [], ls_total_bytes = 0\<rparr>"

lemma init_load_state_wf [wf_intro]: "wf_load_state ext init_load_state"
  by (simp add: wf_load_state_def init_load_state_def)

text \<open>Only rules of the file being read are appended.\<close>

lemma load_content_appends:
  assumes "load_content ext name content st = Inr st'"
  shows "\<exists>new. ls_rules st' = ls_rules st @ new \<and> (\<forall>r \<in> set new. cr_file r = name)"
proof -
  from assms obtain f st1 where st1: "ls_rules st1 = ls_rules st"
    and loop: "fold_res (load_rule ext f name) (rf_rules f) st1 = Inr st'"
    by (elim load_contentE)
  let ?P = "\<lambda>s. \<exists>new. ls_rules s = ls_rules st @ new \<and> (\<forall>r \<in> set new. cr_file r = name)"
  show ?thesis
  proof (rule fold_res_invariant [OF loop, of ?P])
    show "?P st1" using st1 by simp
  next
    fix x s t
    assume "?P s" and "load_rule ext f name x s = Inr t"
    then show "?P t" by (elim load_rule_ok) auto
  qed
qed

lemma load_files_order:
  assumes "io_fold (load_file ext dir) files st s = (Inr st', t)" and "sorted files"
    and "sorted (map cr_file (ls_rules st))" and "\<forall>r \<in> set (ls_rules st). \<forall>f \<in> set files. cr_file r \<le> f"
  shows "sorted (map cr_file (ls_rules st'))"
  using assms
proof (induction files arbitrary: st s)
  case Nil
  then show ?case by (simp add: io_return_eq)
next
  case (Cons f files)
  from Cons.prems(1) obtain st1 u where st1: "load_file ext dir f st s = (Inr st1, u)"
      "io_fold (load_file ext dir) files st1 u = (Inr st', t)"
    by (auto simp: io_bind_eq)
  from st1(1) obtain content where "load_content ext f content st = Inr st1"
    by (auto simp: load_file_def io_eqs split: if_splits)
  from load_content_appends [OF this] obtain new where
    new: "ls_rules st1 = ls_rules st @ new" "\<forall>r \<in> set new. cr_file r = f" by blast
  have "map cr_file new = replicate (length new) f"
    using new(2) by (induction new) auto
  then have "sorted (map cr_file (ls_rules st1))"
    using new(1) Cons.prems(3,4) by (auto simp: sorted_append)
  moreover have "\<forall>r \<in> set (ls_rules st1). \<forall>g \<in> set files. cr_file r \<le> g"
    using new Cons.prems(2,4) by auto
  ultimately show ?case using Cons.IH [OF st1(2)] Cons.prems(2) by simp
qed

lemma sorted_wrt_stable_sort:
  assumes "sorted (map k2 xs)"
  shows "sorted_wrt (\<lambda>a b. k1 a < k1 b \<or> k1 a = k1 b \<and> k2 a \<le> k2 b) (sort_by_key k1 xs)"
proof -
  let ?ys = "sort_by_key k1 xs"
  have s1: "sorted (map k1 ?ys)" by (simp add: sort_by_key_def)
  have f: "sorted (map k2 (filter (\<lambda>x. k1 x = a) ?ys))" for a
    using assms by (simp add: sort_by_key_stable sorted_filter)
  have "sorted_wrt (\<lambda>a b. k1 a < k1 b \<or> k1 a = k1 b \<and> k2 a \<le> k2 b) ys"
    if "sorted (map k1 ys)" "\<And>a. sorted (map k2 (filter (\<lambda>x. k1 x = a) ys))" for ys
    using that
  proof (induction ys)
    case Nil
    then show ?case by simp
  next
    case (Cons y ys)
    have "sorted (map k2 (filter (\<lambda>x. k1 x = a) ys))" for a
      using Cons.prems(2) [of a] by (auto split: if_splits)
    moreover have "k1 y < k1 z \<or> k1 y = k1 z \<and> k2 y \<le> k2 z" if "z \<in> set ys" for z
      using Cons.prems(1) Cons.prems(2) [of "k1 y"] that by auto
    ultimately show ?case using Cons by simp
  qed
  from this [OF s1 f] show ?thesis .
qed

lemma discover_rule_files_sorted: "discover_rule_files dir s = (Inr files, t) \<Longrightarrow> sorted files"
  by (auto simp: discover_rule_files_def io_eqs split: sum.splits prod.splits io_kind.splits if_splits)

lemma load_rules_ok:
  assumes "load_rules ext dir s = (Inr loaded, t)"
  shows "wf_rule_set ext (lr_rule_set loaded)"
proof -
  from assms obtain files u where files: "discover_rule_files dir s = (Inr files, u)"
    and rest: "lr_rule_set loaded = [] \<or>
      (\<exists>st v. io_fold (load_file ext dir) files
         \<lparr>ls_rules = [], ls_seen_ids = [], ls_warnings = [], ls_total_bytes = 0\<rparr> u = (Inr st, v)
       \<and> lr_rule_set loaded = sort_by_key cr_priority (ls_rules st))"
    by (auto simp: load_rules_def io_eqs split: if_splits)
  from rest show ?thesis
  proof
    assume "lr_rule_set loaded = []"
    then show ?thesis by (simp add: wf_rule_set_def)
  next
    assume "\<exists>st v. io_fold (load_file ext dir) files
         \<lparr>ls_rules = [], ls_seen_ids = [], ls_warnings = [], ls_total_bytes = 0\<rparr> u = (Inr st, v)
       \<and> lr_rule_set loaded = sort_by_key cr_priority (ls_rules st)"
    then obtain st v where loop: "io_fold (load_file ext dir) files
         \<lparr>ls_rules = [], ls_seen_ids = [], ls_warnings = [], ls_total_bytes = 0\<rparr> u = (Inr st, v)"
      and eq: "lr_rule_set loaded = sort_by_key cr_priority (ls_rules st)" by blast
    have "wf_load_state ext st"
      by (rule io_fold_invariant [OF loop])
         (use init_load_state_wf [of ext] in \<open>auto simp: init_load_state_def intro: load_file_wf\<close>)
    moreover have "sorted_wrt evaluation_order (lr_rule_set loaded)"
      using load_files_order [OF loop discover_rule_files_sorted [OF files]]
        sorted_wrt_stable_sort [of cr_file "ls_rules st" cr_priority]
      by (simp add: eq evaluation_order_def [abs_def])
    ultimately show ?thesis
      by (simp add: wf_rule_set_def wf_load_state_def eq sort_by_key_def distinct_map)
  qed
qed

section \<open>Properties\<close>

text \<open>
  C12: every rule set the loader returns is well formed: valid unique identifiers, at most 10,000
  rules, no \<open>enrich\<close> action, egress settings only on allow rules and never \<open>intercept\<close>, each
  program compiled from a condition in which no \<open>$name\<close> is left, in order of priority and, within a
  priority, of file name.
\<close>

theorem load_rules_wf:
  assumes "load_rules ext dir s = (Inr loaded, t)"
  shows "wf_rule_set ext (lr_rule_set loaded)"
  using assms by (rule load_rules_ok)

text \<open>
  expansion of definitions always terminates with a result (it is a total function); when it
  succeeds, no \<open>$name\<close> is left and the text is at most the larger of the original condition and
  1 MiB, and success does not depend on the file name.
\<close>

lemma expand_definitions_complete:
  assumes "expand_definitions ua condition definitions file_name = Inr expanded"
  shows "reference_free ua expanded
    \<and> length expanded \<le> max (length condition) MAX_EXPANDED_CONDITION_BYTES
    \<and> expand_definitions ua condition definitions other_name = Inr expanded"
  using expand_definitions_ok [OF assms] by simp

lemma validate_load_rules:
  assumes "fold_res (validate_rule ext f) rules seen = Inr seen'"
    and "map fst (ls_seen_ids st) = seen" and "length seen + length rules \<le> MAX_RULES"
  shows "\<exists>st'. fold_res (load_rule ext f name) rules st = Inr st'"
  using assms
proof (induction rules arbitrary: seen st)
  case Nil
  then show ?case by simp
next
  case (Cons rule rules)
  from Cons.prems(1) obtain s1 where step: "validate_rule ext f rule seen = Inr s1"
    and rest: "fold_res (validate_rule ext f) rules s1 = Inr seen'"
    by (auto simp: result_simps)
  from step obtain expanded program where v: "valid_rule_id (rs_id rule)"
      "validate_rule_semantics rule ''<input>'' = Inr ()" "rs_id rule \<notin> set seen"
      "expand_definitions (unicode_alphanumeric ext) (rs_condition rule)
         (map_of (rf_definitions f)) ''<input>'' = Inr expanded"
      "cel_compile ext expanded = Some program" "s1 = rs_id rule # seen"
    by (auto simp: validate_rule_def validate_rule_id_def result_simps split: if_splits)
  have "map_of (ls_seen_ids st) (rs_id rule) = None"
    using v(3) Cons.prems(2) by (force simp: map_of_eq_None_iff)
  moreover have "validate_rule_semantics rule name = Inr ()"
    using v(2) by (simp add: validate_rule_semantics_ok)
  moreover have "length (ls_seen_ids st) < MAX_RULES"
    using arg_cong [OF Cons.prems(2), of length] Cons.prems(3) by simp
  ultimately obtain st1 where st1: "load_rule ext f name rule st = Inr st1"
      "ls_seen_ids st1 = (rs_id rule, name) # ls_seen_ids st"
    using v expand_definitions_ok(3) [OF v(4), of name]
    by (auto simp: load_rule_def validate_rule_id_def Let_def)
  have "\<exists>st'. fold_res (load_rule ext f name) rules st1 = Inr st'"
    using Cons.IH [OF rest, of st1] st1(2) Cons.prems(2,3) v(6) by simp
  with st1(1) show ?case by simp
qed


section \<open>Examples\<close>

text \<open>
  One rule file with definitions and two rules, read by a parser that knows only that file; a CEL
  program is represented by its source text.
\<close>

definition demo_file :: rule_file where
  "demo_file = \<lparr>rf_version = ''1'', rf_definitions = [(''h'', ''q == $k''), (''k'', ''9'')],
     rf_rules =
       [\<lparr>rs_id = ''deny'', rs_condition = ''true'', rs_action = Rule_Block, rs_log = True,
         rs_description = None, rs_priority = None, rs_enrich = None, rs_egress = None\<rparr>,
        \<lparr>rs_id = ''web'', rs_condition = ''!$h'', rs_action = Rule_Allow, rs_log = False,
         rs_description = None, rs_priority = Some 5, rs_enrich = None,
         rs_egress = Some \<lparr>eg_mode = DirectIp, eg_ports = [443], eg_allow_private_ips = False\<rparr>\<rparr>]\<rparr>"

definition demo_ext :: "string loader_ext" where
  "demo_ext = \<lparr>yaml_from_str = (\<lambda>s. if s = ''demo'' then Some demo_file else None),
     cel_compile = Some, unicode_alphanumeric = (\<lambda>_. False)\<rparr>"

definition demo_rules_fs :: fs where
  "demo_rules_fs = \<lparr>nodes = [([], Dir), ([''r''], Dir), ([''r'', ''a.yaml''], File ''demo'' 420),
     ([''r'', ''notes.txt''], File ''x'' 420)], events = [], next_seq = 0, proc_id = 1\<rparr>"

definition demo_web :: "string compiled_rule" where
  "demo_web =
     \<lparr>cr_id = ''web'', cr_file = ''a.yaml'', cr_condition_expanded = ''!(q == (9))'',
      cr_action = Rule_Allow, cr_log = False, cr_description = None, cr_priority = 5,
      cr_egress = Some \<lparr>eg_mode = DirectIp, eg_ports = [443], eg_allow_private_ips = False\<rparr>,
      cr_program = ''!(q == (9))''\<rparr>"

definition demo_deny :: "string compiled_rule" where
  "demo_deny =
     \<lparr>cr_id = ''deny'', cr_file = ''a.yaml'', cr_condition_expanded = ''true'',
      cr_action = Rule_Block, cr_log = True, cr_description = None, cr_priority = 100,
      cr_egress = None, cr_program = ''true''\<rparr>"

definition demo_rule_set :: "string rule_set" where
  "demo_rule_set = [demo_web, demo_deny]"

lemmas demo_limits = MAX_RULE_FILES_def MAX_RULE_FILE_BYTES_def MAX_RULES_TOTAL_BYTES_def
  MAX_RULES_def MAX_DEFINITION_DEPTH_def MAX_EXPANDED_CONDITION_BYTES_def USIZE_MAX_def
  MAX_RULE_ID_BYTES_def

lemmas ascii_defs = is_ascii_alphanumeric_def is_ascii_lower_def is_ascii_upper_def
  is_ascii_digit_def is_id_tail_char_def

lemma demo_expand:
  "expand_definitions ua ''true'' ds f = Inr ''true''"
  "expand_definitions ua ''!$h'' (map_of (rf_definitions demo_file)) f = Inr ''!(q == (9))''"
  by (simp_all add: expand_definitions_def expand_recursive_def expand_loop.simps demo_file_def
      name_prefix.simps demo_limits ascii_defs)

lemmas demo_load_defs = load_content_def load_rule_def validate_rule_def validate_version_def
  validate_rule_id_def validate_rule_semantics_def valid_rule_id_def demo_limits ascii_defs

lemma demo_load_content:
  "load_content demo_ext ''a.yaml'' ''demo'' init_load_state = Inr
     \<lparr>ls_rules = rev demo_rule_set, ls_seen_ids = [(''web'', ''a.yaml''), (''deny'', ''a.yaml'')],
      ls_warnings = collect_file_warnings demo_file ''a.yaml'', ls_total_bytes = 4\<rparr>"
  using demo_expand(2) [of "\<lambda>_. False" "''a.yaml''"]
  by (simp add: demo_load_defs demo_ext_def demo_file_def demo_rule_set_def demo_web_def
      demo_deny_def demo_expand(1) init_load_state_def)

lemma demo_validate: "validate_rule_yaml demo_ext ''demo'' = Inr ()"
  using demo_expand(2) [of "\<lambda>_. False" "''<input>''"]
  by (simp add: validate_rule_yaml_def demo_load_defs demo_ext_def demo_file_def demo_expand(1))

lemma demo_valid_utf8: "valid_utf8 ''a.yaml''" "valid_utf8 ''demo''"
  by (simp_all add: valid_utf8.simps utf8_head_def)

lemma demo_discover: "discover_rule_files [''r''] demo_rules_fs = (Inr [''a.yaml''], demo_rules_fs)"
  by (simp add: discover_rule_files_def read_dir_def discover_entry_def dir_entries_def
      demo_rules_fs_def lstat_def syscall_def plain_call_def node_at_def io_bind_def with_context_def
      io_return_def is_rule_file_def extension_def demo_limits)

lemma demo_load_rules:
  "load_rules demo_ext [''r''] demo_rules_fs = (Inr \<lparr>lr_rule_set = demo_rule_set,
     lr_files_loaded = 1, lr_warnings = collect_file_warnings demo_file ''a.yaml''\<rparr>, demo_rules_fs)"
proof -
  have "read_rule_file [''r''] ''a.yaml'' demo_rules_fs = (Inr ''demo'', demo_rules_fs)"
    by (simp add: read_rule_file_def read_optional_def call_defs syscall_def demo_rules_fs_def
        node_at_def io_bind_def io_map_err_def with_context_def io_return_def demo_limits
        demo_valid_utf8)
  then have "load_file demo_ext [''r''] ''a.yaml'' init_load_state demo_rules_fs
    = (load_content demo_ext ''a.yaml'' ''demo'' init_load_state, demo_rules_fs)"
    by (simp add: load_file_def io_bind_def io_lift_def demo_valid_utf8)
  moreover have "sort_by_key cr_priority (rev demo_rule_set) = demo_rule_set"
    by (simp add: sort_by_key_def demo_rule_set_def demo_web_def demo_deny_def)
  ultimately show ?thesis
    using demo_discover demo_load_content
    by (simp add: load_rules_def io_bind_def io_return_def init_load_state_def)
qed

theorem load_rules_wf_witness:
  "fst (load_rules demo_ext [''r''] demo_rules_fs) = Inr \<lparr>lr_rule_set = demo_rule_set,
     lr_files_loaded = 1, lr_warnings = collect_file_warnings demo_file ''a.yaml''\<rparr>
   \<and> wf_rule_set demo_ext demo_rule_set"
  using load_rules_wf [OF demo_load_rules] by (simp add: demo_load_rules)


end
