(* ===== verification/Rule_Engine.thy ===== *)
theory Rule_Engine
  imports Rule_Loader
begin

text \<open>
  The rule engine (outcalld/src/rules/engine.rs): evaluation of a request context against an
  immutable rule set, first match wins and everything else is blocked, and the hot-swappable rule
  set with reload, snapshot and restore. The CEL interpreter is not part of the repository: its
  context type, its programs and its operations are the fields of \<open>cel_ops\<close>.
\<close>

section \<open>CEL values and interpreter\<close>

datatype cel_value =
    CBool bool
  | CInt int
  | CString string
  | CList "cel_value list"
  | CMap "(string \<times> cel_value) list"
  | COther string

record ('c, 'p) cel_ops =
  cel_default :: 'c
  cel_add_variable :: "string \<Rightarrow> cel_value \<Rightarrow> 'c \<Rightarrow> (string, 'c) result"
  cel_execute :: "'p \<Rightarrow> 'c \<Rightarrow> (string, cel_value) result"
  cel_to_value :: "(string \<times> json) list \<Rightarrow> (string, cel_value) result"

section \<open>Building the CEL context\<close>

definition str_list :: "string list \<Rightarrow> cel_value" where
  "str_list v = CList (map CString v)"

definition network_value :: "network_context \<Rightarrow> cel_value" where
  "network_value n = CMap
     [(''hostname'', CString (case net_hostname n of None \<Rightarrow> '''' | Some h \<Rightarrow> h)),
      (''ip'', CString (net_ip n)),
      (''port'', CInt (uint (net_port n))),
      (''protocol'', CString (net_protocol n))]"

text \<open>\<open>body_size as i64\<close> reinterprets the 64-bit value as signed.\<close>

definition http_value :: "http_context \<Rightarrow> cel_value" where
  "http_value h = CMap
     [(''method'', CString (http_method h)),
      (''path'', CString (http_path h)),
      (''host'', CString (http_host h)),
      (''body_size'', CInt (sint (http_body_size h))),
      (''headers'', CMap (map (\<lambda>(k, v). (k, CString v)) (http_headers h)))]"

definition dns_value :: "dns_context \<Rightarrow> cel_value" where
  "dns_value d = CMap
     [(''query'', CString (dns_query d)), (''record_type'', CString (dns_record_type d))]"

definition docker_value :: "docker_context \<Rightarrow> cel_value" where
  "docker_value d = CMap
     [(''image'', CString (dk_image d)),
      (''command'', str_list (dk_command d)),
      (''volumes'', str_list (dk_volumes d)),
      (''env_keys'', str_list (dk_env_keys d)),
      (''capabilities'', str_list (dk_capabilities d))]"

definition run_value :: "('c, 'p) cel_ops \<Rightarrow> run_context \<Rightarrow> cel_value" where
  "run_value ops r = CMap
     [(''tool'', CString (run_tool r)),
      (''args'', str_list (run_args r)),
      (''flags'', str_list (run_flags r)),
      (''cwd'', CString (run_cwd r)),
      (''context'', case cel_to_value ops (run_ctx r) of Inl _ \<Rightarrow> CMap [] | Inr v \<Rightarrow> v)]"

definition agent_value :: "agent_context \<Rightarrow> cel_value" where
  "agent_value a = CMap [(''name'', CString (ag_name a))]"

definition unwrap_or :: "'a \<Rightarrow> 'a option \<Rightarrow> 'a" where
  "unwrap_or d x = (case x of None \<Rightarrow> d | Some v \<Rightarrow> v)"

definition build_cel_context :: "('c, 'p) cel_ops \<Rightarrow> eval_context \<Rightarrow> (string, 'c) result" where
  "build_cel_context ops ctx =
     fold_res (\<lambda>(name, v). cel_add_variable ops name v)
       [(''network'', network_value (unwrap_or default_network_context (ev_network ctx))),
        (''http'', http_value (unwrap_or default_http_context (ev_http ctx))),
        (''dns'', dns_value (unwrap_or default_dns_context (ev_dns ctx))),
        (''docker'', docker_value (unwrap_or default_docker_context (ev_docker ctx))),
        (''run'', run_value ops (unwrap_or default_run_context (ev_run ctx))),
        (''agent'', agent_value (unwrap_or default_agent_context (ev_agent ctx)))]
       (cel_default ops)"

section \<open>Evaluation\<close>

text \<open>A runtime error and a value that is not a boolean count as no match.\<close>

definition rule_matches :: "('c, 'p) cel_ops \<Rightarrow> 'c \<Rightarrow> 'p compiled_rule \<Rightarrow> bool" where
  "rule_matches ops c r =
     (case cel_execute ops (cr_program r) c of Inr (CBool b) \<Rightarrow> b | _ \<Rightarrow> False)"

definition blocked_result :: evaluate_result where
  "blocked_result =
     \<lparr>er_decision = Block, er_matched_rule = None, er_file = None, er_logged = False\<rparr>"

fun evaluate_loop ::
  "('c, 'p) cel_ops \<Rightarrow> 'c \<Rightarrow> 'p compiled_rule list \<Rightarrow> evaluate_result \<Rightarrow> evaluate_result" where
  "evaluate_loop ops c [] res = res"
| "evaluate_loop ops c (r # rs) res =
     (if \<not> rule_matches ops c r then evaluate_loop ops c rs res
      else if cr_action r = Rule_Enrich
      then res\<lparr>er_matched_rule := Some (cr_id r), er_file := Some (cr_file r), er_logged := True\<rparr>
      else res\<lparr>er_decision := (if cr_action r = Rule_Allow then Allow else Block),
               er_matched_rule := Some (cr_id r), er_file := Some (cr_file r),
               er_logged := cr_log r\<rparr>)"

definition evaluate_snapshot ::
  "('c, 'p) cel_ops \<Rightarrow> 'p rule_set \<Rightarrow> eval_context \<Rightarrow> evaluate_result" where
  "evaluate_snapshot ops rule_set ctx =
     (case build_cel_context ops ctx of
        Inl _ \<Rightarrow> blocked_result
      | Inr c \<Rightarrow> evaluate_loop ops c rule_set blocked_result)"

record rule_evaluation =
  rv_result :: evaluate_result
  rv_egress :: "egress_spec option"

definition evaluate_snapshot_with_egress ::
  "('c, 'p) cel_ops \<Rightarrow> 'p rule_set \<Rightarrow> eval_context \<Rightarrow> rule_evaluation" where
  "evaluate_snapshot_with_egress ops rule_set ctx =
     (let result = evaluate_snapshot ops rule_set ctx
      in \<lparr>rv_result = result,
          rv_egress = Option.bind (er_matched_rule result) (\<lambda>i.
            Option.bind (find (\<lambda>r. cr_id r = i) rule_set) cr_egress)\<rparr>)"

definition test_expression ::
  "('c, 'p) cel_ops \<Rightarrow> (string \<Rightarrow> 'p option) \<Rightarrow> string \<Rightarrow> eval_context \<Rightarrow> bool \<times> string option" where
  "test_expression ops cel_comp expr ctx =
     (case cel_comp expr of
        None \<Rightarrow> (False, Some ''CEL parse error'')
      | Some prog \<Rightarrow>
          (case build_cel_context ops ctx of
             Inl e \<Rightarrow> (False, Some (''CEL context error: '' @ e))
           | Inr c \<Rightarrow>
               (case cel_execute ops prog c of
                  Inr (CBool b) \<Rightarrow> (b, None)
                | Inr _ \<Rightarrow> (False, Some ''expression returned non-bool'')
                | Inl e \<Rightarrow> (False, Some (''evaluation error: '' @ e)))))"

section \<open>The engine and its hot-swappable rule set\<close>

record 'p rule_engine =
  re_rules_dir :: path
  re_rule_set :: "'p rule_set"

definition engine_load :: "'p loader_ext \<Rightarrow> path \<Rightarrow> (load_error, 'p rule_engine) fs_io" where
  "engine_load ext dir =
     io_bind (load_rules ext dir) (\<lambda>loaded.
       io_return \<lparr>re_rules_dir = dir, re_rule_set = lr_rule_set loaded\<rparr>)"

datatype reload_error = Task_Failed | Load_Failed load_error

text \<open>\<open>join_failed\<close>: the blocking task that loads the rules did not finish (it panicked).\<close>

definition prepare_reload ::
  "'p loader_ext \<Rightarrow> bool \<Rightarrow> 'p rule_engine \<Rightarrow> (reload_error, 'p loaded_rules) fs_io" where
  "prepare_reload ext join_failed engine =
     (if join_failed then io_fail Task_Failed
      else io_map_err Load_Failed (load_rules ext (re_rules_dir engine)))"

definition commit_reload ::
  "'p loaded_rules \<Rightarrow> 'p rule_engine \<Rightarrow> (nat \<times> nat \<times> load_warning list) \<times> 'p rule_engine" where
  "commit_reload prepared engine =
     ((lr_files_loaded prepared, length (lr_rule_set prepared), lr_warnings prepared),
      engine\<lparr>re_rule_set := lr_rule_set prepared\<rparr>)"

definition reload ::
  "'p loader_ext \<Rightarrow> bool \<Rightarrow> 'p rule_engine \<Rightarrow> fs
     \<Rightarrow> (reload_error, nat \<times> nat \<times> load_warning list) result \<times> 'p rule_engine \<times> fs" where
  "reload ext join_failed engine s =
     (case prepare_reload ext join_failed engine s of
        (Inl e, t) \<Rightarrow> (Inl e, engine, t)
      | (Inr prepared, t) \<Rightarrow>
          (case commit_reload prepared engine of (info, engine') \<Rightarrow> (Inr info, engine', t)))"

definition snapshot :: "'p rule_engine \<Rightarrow> 'p rule_set" where
  "snapshot engine = re_rule_set engine"

definition restore_snapshot :: "'p rule_set \<Rightarrow> 'p rule_engine \<Rightarrow> 'p rule_engine" where
  "restore_snapshot rs engine = engine\<lparr>re_rule_set := rs\<rparr>"

definition engine_evaluate ::
  "('c, 'p) cel_ops \<Rightarrow> 'p rule_engine \<Rightarrow> eval_context \<Rightarrow> evaluate_result" where
  "engine_evaluate ops engine ctx = evaluate_snapshot ops (snapshot engine) ctx"

definition evaluate_with_egress ::
  "('c, 'p) cel_ops \<Rightarrow> 'p rule_engine \<Rightarrow> eval_context \<Rightarrow> rule_evaluation" where
  "evaluate_with_egress ops engine ctx = evaluate_snapshot_with_egress ops (snapshot engine) ctx"

section \<open>Queries\<close>

text \<open>The characters of a UTF-8 string, each as its bytes; an ill-formed byte stands alone.\<close>

function utf8_chars :: "string \<Rightarrow> string list" where
  "utf8_chars s =
     (if s = [] then []
      else (let n = max 1 (utf8_head s) in take n s # utf8_chars (drop n s)))"
  by pat_completeness auto
termination
  by (relation "measure length") (auto simp: Let_def)

declare utf8_chars.simps [simp del]

definition ellipsis :: string where
  "ellipsis = [char_of (226::nat), char_of (128::nat), char_of (166::nat)]"

definition truncate_preview :: "string \<Rightarrow> nat \<Rightarrow> string" where
  "truncate_preview s max_chars =
     (if length (utf8_chars s) \<le> max_chars then s
      else concat (take max_chars (utf8_chars s)) @ ellipsis)"

record rule_summary =
  sm_id :: string
  sm_file :: string
  sm_action :: rule_action
  sm_condition_preview :: string
  sm_description :: "string option"

definition list_rules :: "'p rule_engine \<Rightarrow> rule_summary list" where
  "list_rules engine =
     map (\<lambda>r. \<lparr>sm_id = cr_id r, sm_file = cr_file r, sm_action = cr_action r,
        sm_condition_preview = truncate_preview (cr_condition_expanded r) 80,
        sm_description = cr_description r\<rparr>) (re_rule_set engine)"

record rule_detail =
  dt_id :: string
  dt_condition :: string
  dt_action :: rule_action
  dt_log :: bool
  dt_description :: "string option"
  dt_priority :: "int option"

definition get_rule :: "'p rule_engine \<Rightarrow> string \<Rightarrow> rule_detail option" where
  "get_rule engine i =
     map_option (\<lambda>r. \<lparr>dt_id = cr_id r, dt_condition = cr_condition_expanded r,
        dt_action = cr_action r, dt_log = cr_log r, dt_description = cr_description r,
        dt_priority = Some (cr_priority r)\<rparr>)
       (find (\<lambda>r. cr_id r = i) (re_rule_set engine))"

definition has_proxy_egress_rules :: "'p rule_engine \<Rightarrow> bool" where
  "has_proxy_egress_rules engine =
     list_ex (\<lambda>r. cr_action r = Rule_Allow
        \<and> (case cr_egress r of None \<Rightarrow> False | Some e \<Rightarrow> eg_mode e = Proxy)) (re_rule_set engine)"

section \<open>First match wins\<close>

definition verdict_of :: "'p compiled_rule \<Rightarrow> evaluate_result" where
  "verdict_of r = \<lparr>er_decision = (if cr_action r = Rule_Allow then Allow else Block),
     er_matched_rule = Some (cr_id r), er_file = Some (cr_file r),
     er_logged = (cr_action r = Rule_Enrich \<or> cr_log r)\<rparr>"

lemma evaluate_loop_find:
  "evaluate_loop ops c rs blocked_result =
     (case find (rule_matches ops c) rs of None \<Rightarrow> blocked_result | Some r \<Rightarrow> verdict_of r)"
  by (induction rs) (auto simp: blocked_result_def verdict_of_def)

lemma verdict_of_simps [simp]:
  "er_matched_rule (verdict_of r) = Some (cr_id r)"
  "er_decision (verdict_of r) = Allow \<longleftrightarrow> cr_action r = Rule_Allow"
  "er_file (verdict_of r) = Some (cr_file r)"
  by (simp_all add: verdict_of_def)

lemma blocked_result_simps [simp]:
  "er_matched_rule blocked_result = None" "er_decision blocked_result = Block"
  by (simp_all add: blocked_result_def)

text \<open>The rule that decides a request, if there is one.\<close>

definition deciding_rule ::
  "('c, 'p) cel_ops \<Rightarrow> 'p rule_set \<Rightarrow> eval_context \<Rightarrow> 'p compiled_rule option" where
  "deciding_rule ops rs ctx =
     (case build_cel_context ops ctx of
        Inl _ \<Rightarrow> None | Inr c \<Rightarrow> find (rule_matches ops c) rs)"

lemma evaluate_snapshot_deciding:
  "evaluate_snapshot ops rs ctx =
     (case deciding_rule ops rs ctx of None \<Rightarrow> blocked_result | Some r \<Rightarrow> verdict_of r)"
  by (simp add: evaluate_snapshot_def deciding_rule_def evaluate_loop_find split: sum.split)

lemma deciding_rule_mem: "deciding_rule ops rs ctx = Some r \<Longrightarrow> r \<in> set rs"
  by (auto simp: deciding_rule_def find_Some_iff split: sum.splits)

lemma evaluate_with_egress_deciding:
  assumes "wf_rule_set ext rs"
  shows "evaluate_snapshot_with_egress ops rs ctx =
     (case deciding_rule ops rs ctx of
        None \<Rightarrow> \<lparr>rv_result = blocked_result, rv_egress = None\<rparr>
      | Some r \<Rightarrow> \<lparr>rv_result = verdict_of r, rv_egress = cr_egress r\<rparr>)"
proof (cases "deciding_rule ops rs ctx")
  case None
  then show ?thesis
    by (simp add: evaluate_snapshot_with_egress_def evaluate_snapshot_deciding)
next
  case (Some r)
  have "find (\<lambda>x. cr_id x = cr_id r) rs = Some r"
    using assms deciding_rule_mem [OF Some] by (simp add: wf_rule_set_def find_distinct_key)
  with Some show ?thesis
    by (simp add: evaluate_snapshot_with_egress_def evaluate_snapshot_deciding)
qed

section \<open>The contract of a policy source\<close>

text \<open>
  What the resolver and the proxy rely on: \<open>valid\<close> rule sets give egress privileges only together
  with an allow decision, and never ask for TLS interception.
\<close>

locale policy_source =
  fixes valid :: "'r \<Rightarrow> bool"
    and decide :: "'r \<Rightarrow> 'x \<Rightarrow> rule_evaluation"
  assumes egress_allows:
      "valid rs \<Longrightarrow> rv_egress (decide rs x) \<noteq> None \<Longrightarrow> er_decision (rv_result (decide rs x)) = Allow"
    and egress_not_intercept:
      "valid rs \<Longrightarrow> rv_egress (decide rs x) = Some e \<Longrightarrow> eg_mode e \<noteq> Intercept"
    and allow_names_rule:
      "valid rs \<Longrightarrow> er_decision (rv_result (decide rs x)) = Allow \<Longrightarrow>
         er_matched_rule (rv_result (decide rs x)) \<noteq> None"
begin

lemma blocked_no_egress:
  "valid rs \<Longrightarrow> er_decision (rv_result (decide rs x)) = Block \<Longrightarrow> rv_egress (decide rs x) = None"
  using egress_allows [of rs x] by (cases "rv_egress (decide rs x)") auto

lemma direct_ip_or_proxy:
  "valid rs \<Longrightarrow> rv_egress (decide rs x) = Some e \<Longrightarrow>
     (eg_mode e = Proxy \<or> eg_mode e = DirectIp)
     \<and> er_decision (rv_result (decide rs x)) = Allow"
  using egress_not_intercept [of rs x e] egress_allows [of rs x] by (cases "eg_mode e") auto

end

interpretation engine_policy: policy_source "wf_rule_set ext"
    "\<lambda>rs ctx. evaluate_snapshot_with_egress ops rs ctx"
  for ext :: "'p loader_ext" and ops :: "('c, 'p) cel_ops"
proof
  fix rs :: "'p rule_set" and x and e
  assume wf: "wf_rule_set ext rs"
  note ev = evaluate_with_egress_deciding [OF wf, of ops x]
  have wfr: "deciding_rule ops rs x = Some r \<Longrightarrow> wf_rule ext r" for r
    using wf by (auto simp: wf_rule_set_def dest: deciding_rule_mem)
  show "rv_egress (evaluate_snapshot_with_egress ops rs x) \<noteq> None \<Longrightarrow>
      er_decision (rv_result (evaluate_snapshot_with_egress ops rs x)) = Allow"
    using wfr by (auto simp: ev wf_rule_def split: option.splits)
  show "rv_egress (evaluate_snapshot_with_egress ops rs x) = Some e \<Longrightarrow> eg_mode e \<noteq> Intercept"
    using wfr by (auto simp: ev wf_rule_def split: option.splits)
  show "er_decision (rv_result (evaluate_snapshot_with_egress ops rs x)) = Allow \<Longrightarrow>
      er_matched_rule (rv_result (evaluate_snapshot_with_egress ops rs x)) \<noteq> None"
    by (auto simp: ev split: option.splits)
qed

section \<open>Engine states\<close>

text \<open>
  The engine as a state machine: its rule set and the snapshots operations hold for a rollback. A
  reload may succeed or fail; a snapshot may be restored at any later time.
\<close>

inductive engine_step ::
  "'p loader_ext \<Rightarrow> 'p rule_engine \<times> 'p rule_set list \<Rightarrow> 'p rule_engine \<times> 'p rule_set list \<Rightarrow> bool"
  for ext where
  step_reload: "reload ext join_failed e s = (r, e', t) \<Longrightarrow> engine_step ext (e, saved) (e', saved)"
| step_snapshot: "engine_step ext (e, saved) (e, snapshot e # saved)"
| step_restore: "rs \<in> set saved \<Longrightarrow> engine_step ext (e, saved) (restore_snapshot rs e, saved)"

inductive_cases engine_stepE: "engine_step ext (e, saved) (e', saved')"

inductive engine_reachable :: "'p loader_ext \<Rightarrow> 'p rule_engine \<times> 'p rule_set list \<Rightarrow> bool"
  for ext where
  reach_load: "engine_load ext dir s = (Inr e, t) \<Longrightarrow> engine_reachable ext (e, [])"
| reach_step: "engine_reachable ext st \<Longrightarrow> engine_step ext st st' \<Longrightarrow> engine_reachable ext st'"

definition engine_inv :: "'p loader_ext \<Rightarrow> 'p rule_engine \<times> 'p rule_set list \<Rightarrow> bool" where
  "engine_inv ext st \<longleftrightarrow>
     wf_rule_set ext (re_rule_set (fst st)) \<and> (\<forall>rs \<in> set (snd st). wf_rule_set ext rs)"

lemma wf_rule_set_loaded: "load_rules ext dir s = (Inr loaded, t) \<Longrightarrow>
    wf_rule_set ext (lr_rule_set loaded)"
  by (rule load_rules_ok)

lemma reload_cases:
  assumes "reload ext join_failed e s = (r, e', t)"
  shows "(\<exists>x. r = Inl x) \<and> e' = e \<or>
    (\<exists>loaded info. r = Inr info \<and> e' = e\<lparr>re_rule_set := lr_rule_set loaded\<rparr>
       \<and> load_rules ext (re_rules_dir e) s = (Inr loaded, t))"
  using assms
  by (auto simp: reload_def prepare_reload_def commit_reload_def io_eqs
      split: prod.splits sum.splits if_splits)

lemma engine_step_inv [wf_intro]:
  "engine_step ext st st' \<Longrightarrow> engine_inv ext st \<Longrightarrow> engine_inv ext st'"
proof (induction rule: engine_step.induct)
  case (step_reload join_failed e s r e' t saved)
  with reload_cases [OF step_reload(1)] show ?case
    by (auto simp: engine_inv_def dest: wf_rule_set_loaded)
qed (auto simp: engine_inv_def snapshot_def restore_snapshot_def)

lemma engine_reachable_inv: "engine_reachable ext st \<Longrightarrow> engine_inv ext st"
proof (induction rule: engine_reachable.induct)
  case (reach_load dir s e t)
  then show ?case
    by (auto simp: engine_load_def io_eqs engine_inv_def dest: wf_rule_set_loaded)
next
  case (reach_step st st')
  then show ?case by (auto intro: engine_step_inv)
qed

section \<open>Properties\<close>

text \<open>
  C1: default deny. A request is allowed only if the context could be built and some rule with
  action \<open>allow\<close> evaluates to true and no rule before it does; errors and values that are not
  booleans never match. The result names exactly that rule and its file.
\<close>

theorem allow_needs_first_match:
  assumes "er_decision (evaluate_snapshot ops rs ctx) = Allow"
  shows "\<exists>c pre r post. build_cel_context ops ctx = Inr c \<and> rs = pre @ r # post
    \<and> cel_execute ops (cr_program r) c = Inr (CBool True) \<and> cr_action r = Rule_Allow
    \<and> (\<forall>q \<in> set pre. cel_execute ops (cr_program q) c \<noteq> Inr (CBool True))
    \<and> er_matched_rule (evaluate_snapshot ops rs ctx) = Some (cr_id r)
    \<and> er_file (evaluate_snapshot ops rs ctx) = Some (cr_file r)"
proof -
  from assms obtain r where d: "deciding_rule ops rs ctx = Some r" "cr_action r = Rule_Allow"
    by (auto simp: evaluate_snapshot_deciding split: option.splits)
  then obtain c where c: "build_cel_context ops ctx = Inr c" "find (rule_matches ops c) rs = Some r"
    by (auto simp: deciding_rule_def split: sum.splits)
  have true: "rule_matches ops c q \<longleftrightarrow> cel_execute ops (cr_program q) c = Inr (CBool True)" for q
    by (auto simp: rule_matches_def split: sum.splits cel_value.splits)
  from c(2) obtain pre post where "rs = pre @ r # post" "rule_matches ops c r"
    "\<forall>q \<in> set pre. \<not> rule_matches ops c q"
    by (rule find_split)
  with c(1) d true show ?thesis by (auto simp: evaluate_snapshot_deciding)
qed

text \<open>
  C13: the egress privileges returned with a verdict are those of the very rule that decided the
  request (identifiers are unique in a loaded set), only ever accompany an allow decision and never
  ask for interception; a blocked request carries none.
\<close>

theorem egress_of_deciding_rule:
  assumes "wf_rule_set ext rs"
  shows "rv_egress (evaluate_snapshot_with_egress ops rs ctx)
      = Option.bind (deciding_rule ops rs ctx) cr_egress
    \<and> (rv_egress (evaluate_snapshot_with_egress ops rs ctx) = Some e \<longrightarrow>
        (eg_mode e = Proxy \<or> eg_mode e = DirectIp)
        \<and> er_decision (rv_result (evaluate_snapshot_with_egress ops rs ctx)) = Allow)
    \<and> rv_result (evaluate_snapshot_with_egress ops rs ctx) = evaluate_snapshot ops rs ctx"
  using engine_policy.direct_ip_or_proxy [OF assms, of ops ctx e]
  by (auto simp: evaluate_with_egress_deciding [OF assms] evaluate_snapshot_deciding
      split: option.splits)

text \<open>
  C16: in every state the engine can reach through loads, successful and failed reloads, snapshots
  and restores, the live rule set is well formed; a failed reload leaves it as it was.
\<close>

theorem engine_always_wf:
  assumes "engine_reachable ext (engine, saved)"
  shows "wf_rule_set ext (re_rule_set engine)
    \<and> (\<forall>join_failed s. let (r, engine', t) = reload ext join_failed engine s
         in (case r of Inl _ \<Rightarrow> engine' = engine | Inr _ \<Rightarrow> wf_rule_set ext (re_rule_set engine')))"
proof -
  have inv: "engine_inv ext (engine, saved)" using assms by (rule engine_reachable_inv)
  have "case r of Inl _ \<Rightarrow> engine' = engine | Inr _ \<Rightarrow> wf_rule_set ext (re_rule_set engine')"
    if "reload ext join_failed engine s = (r, engine', t)" for join_failed s r engine' t
    using reload_cases [OF that] by (auto dest: wf_rule_set_loaded)
  with inv show ?thesis by (auto simp: engine_inv_def split: prod.splits)
qed

section \<open>Examples\<close>

text \<open>
  An interpreter for the two conditions of the example rule set: a context is the list of its
  variables.
\<close>

definition demo_cel :: "((string \<times> cel_value) list, string) cel_ops" where
  "demo_cel = \<lparr>cel_default = [], cel_add_variable = (\<lambda>name v c. Inr ((name, v) # c)),
     cel_execute = (\<lambda>p c.
       if p = ''true'' then Inr (CBool True)
       else (case map_of c ''dns'' of
               Some (CMap m) \<Rightarrow>
                 (case map_of m ''query'' of
                    Some (CString q) \<Rightarrow> Inr (CBool (q \<noteq> ''9'')) | _ \<Rightarrow> Inl ''no such field'')
             | _ \<Rightarrow> Inl ''undeclared'')),
     cel_to_value = (\<lambda>_. Inr (CMap []))\<rparr>"

definition demo_ctx :: "string \<Rightarrow> eval_context" where
  "demo_ctx q = default_eval_context\<lparr>ev_dns := Some \<lparr>dns_query = q, dns_record_type = ''A''\<rparr>\<rparr>"

lemmas demo_eval_defs = deciding_rule_def build_cel_context_def demo_cel_def demo_ctx_def
  default_eval_context_def dns_value_def unwrap_or_def rule_matches_def demo_rule_set_def demo_web_def
  demo_deny_def

lemma demo_deciding:
  "deciding_rule demo_cel demo_rule_set (demo_ctx ''8'') = Some demo_web"
  "deciding_rule demo_cel demo_rule_set (demo_ctx ''9'') = Some demo_deny"
  by (simp_all add: demo_eval_defs)

lemma demo_wf: "wf_rule_set demo_ext demo_rule_set"
  using load_rules_ok [OF demo_load_rules] by simp

theorem allow_needs_first_match_witness:
  "er_decision (evaluate_snapshot demo_cel demo_rule_set (demo_ctx ''8'')) = Allow
   \<and> er_decision (evaluate_snapshot demo_cel demo_rule_set (demo_ctx ''9'')) = Block
   \<and> (\<exists>r \<in> set demo_rule_set. cr_action r = Rule_Allow)"
proof -
  have a: "er_decision (evaluate_snapshot demo_cel demo_rule_set (demo_ctx ''8'')) = Allow"
    by (simp add: evaluate_snapshot_deciding demo_deciding demo_web_def)
  have "er_decision (evaluate_snapshot demo_cel demo_rule_set (demo_ctx ''9'')) = Block"
    by (simp add: evaluate_snapshot_deciding demo_deciding demo_deny_def verdict_of_def)
  moreover from allow_needs_first_match [OF a]
  have "\<exists>r \<in> set demo_rule_set. cr_action r = Rule_Allow" by (metis in_set_conv_decomp)
  ultimately show ?thesis using a by blast
qed

theorem egress_of_deciding_rule_witness:
  "rv_egress (evaluate_snapshot_with_egress demo_cel demo_rule_set (demo_ctx ''8''))
     = Some \<lparr>eg_mode = DirectIp, eg_ports = [443], eg_allow_private_ips = False\<rparr>
   \<and> rv_egress (evaluate_snapshot_with_egress demo_cel demo_rule_set (demo_ctx ''9'')) = None"
  using egress_of_deciding_rule [OF demo_wf, of demo_cel "demo_ctx ''8''"]
    egress_of_deciding_rule [OF demo_wf, of demo_cel "demo_ctx ''9''"]
  by (simp add: demo_deciding demo_web_def demo_deny_def)

theorem engine_always_wf_witness:
  "\<exists>engine. engine_load demo_ext [''r''] demo_rules_fs = (Inr engine, demo_rules_fs)
     \<and> re_rule_set engine = demo_rule_set \<and> wf_rule_set demo_ext (re_rule_set engine)"
proof -
  let ?e = "\<lparr>re_rules_dir = [''r''], re_rule_set = demo_rule_set\<rparr>"
  have load: "engine_load demo_ext [''r''] demo_rules_fs = (Inr ?e, demo_rules_fs)"
    by (simp add: engine_load_def io_bind_def io_return_def demo_load_rules)
  have "engine_reachable demo_ext (?e, [])" using load by (rule reach_load)
  from engine_always_wf [OF this] load show ?thesis by auto
qed

end
