(* ===== verification/Dns_Cache.thy ===== *)
theory Dns_Cache
  imports Ip_Address "HOL-Library.AList" "HOL-Library.List_Lexorder" "HOL-Library.Char_ord"
begin

text \<open>
  The DNS answer cache and the address filter (outcalld/src/dns/cache.rs, outcalld/src/dns/records.rs).
  The crate lru is a parameter: the record \<open>lru_ops\<close>, with the locale \<open>lru\<close> for what it documents. A
  resource record is its time to live in seconds and its data, of which only addresses matter here;
  instants are nanoseconds.
\<close>

section \<open>Records (records.rs)\<close>

datatype rdata = RA ipv4 | RAAAA ipv6 | ROther string

record dns_record =
  rr_ttl :: nat
  rr_data :: rdata

definition record_address :: "dns_record \<Rightarrow> ip_addr option" where
  "record_address r =
     (case rr_data r of RA address \<Rightarrow> Some (V4 address) | RAAAA address \<Rightarrow> Some (V6 address)
      | ROther _ \<Rightarrow> None)"

record filtered_records =
  fr_records :: "dns_record list"
  fr_address_count_before :: nat
  fr_address_count_after :: nat

datatype address_policy_outcome = Allowed "dns_record list" | Restricted_Only

definition filter_restricted_addresses :: "dns_record list \<Rightarrow> filtered_records" where
  "filter_restricted_addresses records =
     (let before = length (List.map_filter record_address records);
          kept = filter (\<lambda>r. case record_address r of
                               None \<Rightarrow> True | Some address \<Rightarrow> \<not> is_restricted address) records
      in \<lparr>fr_records = kept, fr_address_count_before = before,
          fr_address_count_after = length (List.map_filter record_address kept)\<rparr>)"

definition apply_address_policy :: "dns_record list \<Rightarrow> bool \<Rightarrow> address_policy_outcome" where
  "apply_address_policy records allow_restricted =
     (if allow_restricted then Allowed records
      else
        let filtered = filter_restricted_addresses records
        in if 0 < fr_address_count_before filtered \<and> fr_address_count_after filtered = 0
           then Restricted_Only else Allowed (fr_records filtered))"

definition extract_ipv4_destinations :: "dns_record list \<Rightarrow> string list" where
  "extract_ipv4_destinations records =
     remdups_adj (sort (List.map_filter
       (\<lambda>r. case rr_data r of RA address \<Rightarrow> Some (show_ipv4 address) | _ \<Rightarrow> None) records))"

definition extract_ipv6_destinations :: "dns_record list \<Rightarrow> string list" where
  "extract_ipv6_destinations records =
     remdups_adj (sort (List.map_filter
       (\<lambda>r. case rr_data r of RAAAA address \<Rightarrow> Some (show_ipv6 address) | _ \<Rightarrow> None) records))"

section \<open>The cache (cache.rs)\<close>

definition MAX_ENTRIES :: nat where
  "MAX_ENTRIES = 10000"

definition MAX_TTL_SECS :: nat where
  "MAX_TTL_SECS = 300"

record cache_entry =
  ce_records :: "dns_record list"
  ce_effective_ttl :: nat
  ce_inserted_at :: nat
  ce_record_type :: string

text \<open>A host name and the code of a record type.\<close>

type_synonym cache_key = "string \<times> nat"

record ('k, 'v, 'c) lru_ops =
  lru_new :: "nat \<Rightarrow> 'c"
  lru_peek :: "'k \<Rightarrow> 'c \<Rightarrow> 'v option"
  lru_pop :: "'k \<Rightarrow> 'c \<Rightarrow> 'c"
  lru_get :: "'k \<Rightarrow> 'c \<Rightarrow> 'v option \<times> 'c"
  lru_put :: "'k \<Rightarrow> 'v \<Rightarrow> 'c \<Rightarrow> 'c"
  lru_cap :: "'c \<Rightarrow> nat"
  lru_iter :: "'c \<Rightarrow> ('k \<times> 'v) list"
  lru_clear :: "'c \<Rightarrow> 'c"

type_synonym 'c dns_lru = "(cache_key, cache_entry, 'c) lru_ops"

definition elapsed_secs :: "nat \<Rightarrow> nat \<Rightarrow> nat" where
  "elapsed_secs now inserted_at = min ((now - inserted_at) div 10 ^ 9) (2 ^ 32 - 1)"

definition ttl_duration :: "nat \<Rightarrow> nat" where
  "ttl_duration ttl = ttl * 10 ^ 9"

definition entry_expired :: "nat \<Rightarrow> cache_entry \<Rightarrow> bool" where
  "entry_expired now entry \<longleftrightarrow> ttl_duration (ce_effective_ttl entry) \<le> now - ce_inserted_at entry"

definition cache_new :: "'c dns_lru \<Rightarrow> 'c" where
  "cache_new ops = lru_new ops MAX_ENTRIES"

definition cache_get ::
  "'c dns_lru \<Rightarrow> nat \<Rightarrow> string \<Rightarrow> nat \<Rightarrow> 'c \<Rightarrow> dns_record list option \<times> 'c" where
  "cache_get ops now hostname record_type cache =
     (let key = (hostname, record_type);
          expired = (case lru_peek ops key cache of
                       Some entry \<Rightarrow> entry_expired now entry | None \<Rightarrow> False)
      in if expired then (None, lru_pop ops key cache)
         else (case lru_get ops key cache of
                 (None, cache') \<Rightarrow> (None, cache')
               | (Some entry, cache') \<Rightarrow>
                   (let remaining = ce_effective_ttl entry - elapsed_secs now (ce_inserted_at entry)
                    in (Some (map (\<lambda>r. r\<lparr>rr_ttl := remaining\<rparr>) (ce_records entry)), cache'))))"

fun min_ttl :: "dns_record list \<Rightarrow> nat option" where
  "min_ttl [] = None"
| "min_ttl (r # rs) = (case min_ttl rs of None \<Rightarrow> Some (rr_ttl r) | Some t \<Rightarrow> Some (min (rr_ttl r) t))"

definition cache_insert ::
  "'c dns_lru \<Rightarrow> nat \<Rightarrow> string \<Rightarrow> nat \<Rightarrow> string \<Rightarrow> dns_record list \<Rightarrow> 'c \<Rightarrow> bool \<times> 'c" where
  "cache_insert ops now hostname record_type record_type_name records cache =
     (case min_ttl records of
        None \<Rightarrow> (False, cache)
      | Some t \<Rightarrow>
          (let effective_ttl = min t MAX_TTL_SECS
           in if effective_ttl = 0 then (False, cache)
              else
                let key = (hostname, record_type);
                    is_new = lru_peek ops key cache = None;
                    was_full = lru_cap ops cache \<le> length (lru_iter ops cache)
                in (is_new \<and> was_full,
                    lru_put ops key
                      \<lparr>ce_records = records, ce_effective_ttl = effective_ttl,
                       ce_inserted_at = now, ce_record_type = record_type_name\<rparr> cache)))"

definition cache_clear :: "'c dns_lru \<Rightarrow> 'c \<Rightarrow> nat \<times> 'c" where
  "cache_clear ops cache = (length (lru_iter ops cache), lru_clear ops cache)"

definition cache_prune_expired :: "'c dns_lru \<Rightarrow> nat \<Rightarrow> 'c \<Rightarrow> 'c" where
  "cache_prune_expired ops now cache =
     fold (lru_pop ops)
       (map fst (filter (\<lambda>(_, entry). entry_expired now entry) (lru_iter ops cache))) cache"

definition cache_len :: "'c dns_lru \<Rightarrow> nat \<Rightarrow> 'c \<Rightarrow> nat \<times> 'c" where
  "cache_len ops now cache =
     (let cache' = cache_prune_expired ops now cache in (length (lru_iter ops cache'), cache'))"

definition cache_snapshot ::
  "'c dns_lru \<Rightarrow> nat \<Rightarrow> 'c \<Rightarrow> (string \<times> string \<times> nat) list \<times> 'c" where
  "cache_snapshot ops now cache =
     (let cache' = cache_prune_expired ops now cache
      in (map (\<lambda>((hostname, _), entry).
                 (hostname, ce_record_type entry,
                  ce_effective_ttl entry - elapsed_secs now (ce_inserted_at entry)))
            (lru_iter ops cache'), cache'))"

section \<open>The documented behaviour of lru\<close>

locale lru =
  fixes ops :: "('k, 'v, 'c) lru_ops"
  assumes iter_distinct: "distinct (map fst (lru_iter ops c))"
    and iter_cap: "length (lru_iter ops c) \<le> lru_cap ops c"
    and new_empty: "lru_iter ops (lru_new ops n) = [] \<and> lru_cap ops (lru_new ops n) = n"
    and peek_iter: "lru_peek ops k c = map_of (lru_iter ops c) k"
    and pop_iter: "map_of (lru_iter ops (lru_pop ops k c)) = (map_of (lru_iter ops c))(k := None)
      \<and> lru_cap ops (lru_pop ops k c) = lru_cap ops c"
    and get_iter: "lru_get ops k c = (found, c') \<Longrightarrow> found = map_of (lru_iter ops c) k
      \<and> map_of (lru_iter ops c') = map_of (lru_iter ops c) \<and> lru_cap ops c' = lru_cap ops c"
    and put_iter: "map_of (lru_iter ops (lru_put ops k v c)) \<subseteq>\<^sub>m (map_of (lru_iter ops c))(k \<mapsto> v)
      \<and> (0 < lru_cap ops c \<longrightarrow> map_of (lru_iter ops (lru_put ops k v c)) k = Some v)
      \<and> lru_cap ops (lru_put ops k v c) = lru_cap ops c"
    and clear_iter: "lru_iter ops (lru_clear ops c) = [] \<and> lru_cap ops (lru_clear ops c) = lru_cap ops c"
begin

abbreviation entries :: "'c \<Rightarrow> 'k \<rightharpoonup> 'v" where
  "entries c \<equiv> map_of (lru_iter ops c)"

text \<open>Whatever a map of the entries satisfies survives every operation.\<close>

lemma entries_pop_fold: "map_of (lru_iter ops (fold (lru_pop ops) ks c)) = entries c |` (- set ks)
    \<and> lru_cap ops (fold (lru_pop ops) ks c) = lru_cap ops c"
proof (induction ks arbitrary: c)
  case Nil
  then show ?case by (simp add: restrict_map_def)
next
  case (Cons k ks)
  then show ?case
    using pop_iter [of k c] by (auto simp: restrict_map_def fun_eq_iff)
qed

end

section \<open>A reference implementation of lru\<close>

text \<open>A capacity and the entries, most recently used first.\<close>

type_synonym ('k, 'v) lru_list = "nat \<times> ('k \<times> 'v) list"

fun ll_iter :: "('k, 'v) lru_list \<Rightarrow> ('k \<times> 'v) list" where
  "ll_iter (n, xs) = take n (AList.clearjunk xs)"

definition ll_pop :: "'k \<Rightarrow> ('k, 'v) lru_list \<Rightarrow> ('k, 'v) lru_list" where
  "ll_pop k c = (fst c, AList.delete k (ll_iter c))"

definition ll_put :: "'k \<Rightarrow> 'v \<Rightarrow> ('k, 'v) lru_list \<Rightarrow> ('k, 'v) lru_list" where
  "ll_put k v c = (fst c, take (fst c) ((k, v) # AList.delete k (ll_iter c)))"

definition ll_get :: "'k \<Rightarrow> ('k, 'v) lru_list \<Rightarrow> 'v option \<times> ('k, 'v) lru_list" where
  "ll_get k c =
     (case map_of (ll_iter c) k of
        None \<Rightarrow> (None, (fst c, ll_iter c))
      | Some v \<Rightarrow> (Some v, (fst c, (k, v) # AList.delete k (ll_iter c))))"

definition list_lru :: "('k, 'v, ('k, 'v) lru_list) lru_ops" where
  "list_lru =
     \<lparr>lru_new = (\<lambda>n. (n, [])), lru_peek = (\<lambda>k c. map_of (ll_iter c) k), lru_pop = ll_pop,
      lru_get = ll_get, lru_put = ll_put, lru_cap = fst, lru_iter = ll_iter,
      lru_clear = (\<lambda>c. (fst c, []))\<rparr>"

lemma ll_iter_distinct: "distinct (map fst (ll_iter c))"
  by (cases c) (simp add: distinct_clearjunk distinct_take flip: take_map)

lemma ll_iter_length: "length (ll_iter c) \<le> fst c"
  by (cases c) simp

lemma ll_iter_clean: "distinct (map fst xs) \<Longrightarrow> length xs \<le> n \<Longrightarrow> ll_iter (n, xs) = xs"
  by (simp add: distinct_clearjunk_id)

lemma ll_delete: "distinct (map fst (AList.delete k (ll_iter c)))"
    "length (AList.delete k (ll_iter c)) \<le> fst c"
  using ll_iter_distinct [of c] ll_iter_length [of c] length_delete_le [of k "ll_iter c"]
  by (auto simp: distinct_delete)

lemma ll_pop_iter: "ll_iter (ll_pop k c) = AList.delete k (ll_iter c)"
  unfolding ll_pop_def using ll_delete by (rule ll_iter_clean)

lemma ll_put_iter: "ll_iter (ll_put k v c) = take (fst c) ((k, v) # AList.delete k (ll_iter c))"
  unfolding ll_put_def
proof (rule ll_iter_clean)
  have "distinct (map fst ((k, v) # AList.delete k (ll_iter c)))"
    using ll_delete(1) [of k c] by (simp add: delete_keys)
  then show "distinct (map fst (take (fst c) ((k, v) # AList.delete k (ll_iter c))))"
    unfolding take_map [symmetric] by (rule distinct_take)
qed simp

lemma map_of_take_le: "distinct (map fst xs) \<Longrightarrow> map_of (take n xs) \<subseteq>\<^sub>m map_of xs"
proof (induction xs arbitrary: n)
  case (Cons x xs)
  then show ?case
    by (cases n) (auto simp: map_le_def split: if_splits dest!: map_of_SomeD in_set_takeD
        intro: rev_image_eqI)
qed simp

lemma ll_get_iter:
  assumes "ll_get k c = (found, c')"
  shows "found = map_of (ll_iter c) k \<and> map_of (ll_iter c') = map_of (ll_iter c) \<and> fst c' = fst c"
proof (cases "map_of (ll_iter c) k")
  case None
  then show ?thesis
    using assms ll_iter_clean [OF ll_iter_distinct ll_iter_length, of c] by (auto simp: ll_get_def)
next
  case (Some v)
  have "length (AList.delete k (ll_iter c)) < length (ll_iter c)"
    using map_of_SomeD [OF Some] unfolding AList.delete_eq by (intro length_filter_less) auto
  then have "length ((k, v) # AList.delete k (ll_iter c)) \<le> fst c"
    using ll_iter_length [of c] by simp
  moreover have "distinct (map fst ((k, v) # AList.delete k (ll_iter c)))"
    using ll_delete(1) [of k c] by (simp add: delete_keys)
  ultimately have "ll_iter (fst c, (k, v) # AList.delete k (ll_iter c))
      = (k, v) # AList.delete k (ll_iter c)" by (rule ll_iter_clean [rotated])
  then show ?thesis
    using assms Some by (auto simp: ll_get_def delete_conv' fun_eq_iff)
qed

lemma ll_put_entries:
  "map_of (ll_iter (ll_put k v c)) \<subseteq>\<^sub>m (map_of (ll_iter c))(k \<mapsto> v)
     \<and> (0 < fst c \<longrightarrow> map_of (ll_iter (ll_put k v c)) k = Some v) \<and> fst (ll_put k v c) = fst c"
proof -
  have "distinct (map fst ((k, v) # AList.delete k (ll_iter c)))"
    using ll_delete(1) [of k c] by (simp add: delete_keys)
  then have "map_of (take (fst c) ((k, v) # AList.delete k (ll_iter c)))
      \<subseteq>\<^sub>m map_of ((k, v) # AList.delete k (ll_iter c))" by (rule map_of_take_le)
  moreover have "map_of ((k, v) # AList.delete k (ll_iter c)) = (map_of (ll_iter c))(k \<mapsto> v)"
    by (simp add: delete_conv' fun_eq_iff)
  ultimately show ?thesis
    unfolding ll_put_iter by (cases "fst c") (simp_all add: ll_put_def)
qed

interpretation list_lru: lru list_lru
  by unfold_locales
    (auto simp: list_lru_def ll_iter_distinct ll_iter_length ll_pop_iter delete_conv'
      ll_get_iter ll_put_entries ll_pop_def [of _ "(_, _)"] dest: ll_get_iter)

section \<open>Facts\<close>

lemma min_ttl_None: "min_ttl rs = None \<longleftrightarrow> rs = []"
  by (cases rs) (auto split: option.splits)

lemma min_ttl_le: "min_ttl rs = Some t \<Longrightarrow> r \<in> set rs \<Longrightarrow> t \<le> rr_ttl r"
proof (induction rs arbitrary: t)
  case (Cons x rs)
  then show ?case by (cases "min_ttl rs") (auto simp: min_ttl_None min_le_iff_disj)
qed simp

lemma apply_address_policy_Allowed:
  assumes "apply_address_policy records allow = Allowed kept"
  shows "set kept \<subseteq> set records
    \<and> (\<not> allow \<longrightarrow> (\<forall>r \<in> set kept. \<forall>a. record_address r = Some a \<longrightarrow> \<not> is_restricted a))"
  using assms
  by (auto simp: apply_address_policy_def filter_restricted_addresses_def Let_def split: if_splits)

text \<open>Entries of a cache: the cap on the time to live and on the number of entries.\<close>

definition wf_entry :: "cache_entry \<Rightarrow> bool" where
  "wf_entry e \<longleftrightarrow>
     0 < ce_effective_ttl e \<and> ce_effective_ttl e \<le> MAX_TTL_SECS
     \<and> list_all (\<lambda>r. ce_effective_ttl e \<le> rr_ttl r) (ce_records e)"

definition wf_cache :: "'c dns_lru \<Rightarrow> 'c \<Rightarrow> bool" where
  "wf_cache ops c \<longleftrightarrow>
     lru_cap ops c = MAX_ENTRIES \<and> (\<forall>k e. map_of (lru_iter ops c) k = Some e \<longrightarrow> wf_entry e)"

lemma wf_cache_le:
  assumes "wf_cache ops c" and "lru_cap ops c' = lru_cap ops c"
    and "map_of (lru_iter ops c') \<subseteq>\<^sub>m map_of (lru_iter ops c)"
  shows "wf_cache ops c'"
  using assms unfolding wf_cache_def map_le_def by (metis domI)

lemma wf_cache_new: "lru ops \<Longrightarrow> wf_cache ops (cache_new ops)"
  using lru.new_empty [of ops MAX_ENTRIES] by (simp add: wf_cache_def cache_new_def)

lemma cache_get_sound:
  assumes "lru ops" and "wf_cache ops c" and "cache_get ops now h t c = (r, c')"
  shows "wf_cache ops c' \<and> map_of (lru_iter ops c') \<subseteq>\<^sub>m map_of (lru_iter ops c)
    \<and> (\<forall>rs. r = Some rs \<longrightarrow>
         (\<exists>e. map_of (lru_iter ops c) (h, t) = Some e \<and> \<not> entry_expired now e
            \<and> map rr_data rs = map rr_data (ce_records e)
            \<and> (\<forall>x \<in> set rs. rr_ttl x
                 = ce_effective_ttl e - (now - ce_inserted_at e) div 10 ^ 9 \<and> 0 < rr_ttl x)))"
proof (cases "map_of (lru_iter ops c) (h, t)")
  case None
  then have "lru_peek ops (h, t) c = None" using lru.peek_iter [OF assms(1)] by metis
  moreover obtain found c1 where g: "lru_get ops (h, t) c = (found, c1)" by fastforce
  ultimately show ?thesis
    using assms(2,3) None lru.get_iter [OF assms(1) g] wf_cache_le [OF assms(2), of c1]
    by (auto simp: cache_get_def)
next
  case (Some e)
  then have peek: "lru_peek ops (h, t) c = Some e" using lru.peek_iter [OF assms(1)] by metis
  have wf: "wf_entry e" using assms(2) Some by (auto simp: wf_cache_def)
  show ?thesis
  proof (cases "entry_expired now e")
    case True
    then have "r = None" "c' = lru_pop ops (h, t) c"
      using assms(3) peek by (auto simp: cache_get_def)
    moreover have "map_of (lru_iter ops (lru_pop ops (h, t) c)) \<subseteq>\<^sub>m map_of (lru_iter ops c)"
      using lru.pop_iter [OF assms(1), of "(h, t)" c] by (simp add: map_le_def)
    ultimately show ?thesis
      using lru.pop_iter [OF assms(1), of "(h, t)" c] wf_cache_le [OF assms(2)] by simp
  next
    case False
    obtain found c1 where g: "lru_get ops (h, t) c = (found, c1)" by fastforce
    note g' = lru.get_iter [OF assms(1) g]
    let ?el = "(now - ce_inserted_at e) div 10 ^ 9"
    have "now - ce_inserted_at e < ce_effective_ttl e * 10 ^ 9"
      using False by (simp add: entry_expired_def ttl_duration_def)
    then have el: "?el < ce_effective_ttl e" by (simp add: less_mult_imp_div_less)
    then have "elapsed_secs now (ce_inserted_at e) = ?el"
      using wf by (simp add: elapsed_secs_def wf_entry_def MAX_TTL_SECS_def)
    then have "r = Some (map (\<lambda>x. x\<lparr>rr_ttl := ce_effective_ttl e - ?el\<rparr>) (ce_records e))" "c' = c1"
      using assms(3) peek False g g' Some by (auto simp: cache_get_def Let_def)
    then show ?thesis
      using g' Some False el wf_cache_le [OF assms(2), of c1] by auto
  qed
qed

lemma cache_insert_sound:
  assumes "lru ops" and "wf_cache ops c" and "cache_insert ops now h t name rs c = (b, c')"
  shows "wf_cache ops c' \<and> (\<forall>k e. map_of (lru_iter ops c') k = Some e \<longrightarrow>
      map_of (lru_iter ops c) k = Some e
      \<or> k = (h, t) \<and> ce_records e = rs \<and> ce_inserted_at e = now)"
proof (cases "\<exists>n. min_ttl rs = Some n \<and> 0 < n")
  case False
  then have "c' = c"
    using assms(3) by (auto simp: cache_insert_def Let_def MAX_TTL_SECS_def split: option.splits if_splits)
  then show ?thesis using assms(2) by simp
next
  case True
  then obtain n where n: "min_ttl rs = Some n" "0 < n" by blast
  let ?e = "\<lparr>ce_records = rs, ce_effective_ttl = min n MAX_TTL_SECS, ce_inserted_at = now,
    ce_record_type = name\<rparr>"
  have c': "c' = lru_put ops (h, t) ?e c"
  proof -
    have ne: "min n MAX_TTL_SECS \<noteq> 0" using n(2) by (simp add: MAX_TTL_SECS_def)
    from assms(3) show ?thesis
      unfolding cache_insert_def Let_def n(1) option.case if_not_P [OF ne] by simp
  qed
  note put = lru.put_iter [OF assms(1), of "(h, t)" ?e c, folded c']
  have "wf_entry ?e"
    using n min_ttl_le [OF n(1)] by (auto simp: wf_entry_def MAX_TTL_SECS_def list_all_iff
        min_le_iff_disj)
  moreover have "map_of (lru_iter ops c) k = Some e \<or> k = (h, t) \<and> e = ?e"
    if "map_of (lru_iter ops c') k = Some e" for k e
    using put that unfolding map_le_def by (metis domI fun_upd_apply option.inject)
  ultimately show ?thesis
    using put assms(2) unfolding wf_cache_def by (metis cache_entry.select_convs(1,3))
qed

lemma cache_clear_sound:
  "lru ops \<Longrightarrow> wf_cache ops c \<Longrightarrow>
     wf_cache ops (snd (cache_clear ops c)) \<and> lru_iter ops (snd (cache_clear ops c)) = []"
  using lru.clear_iter [of ops c] by (simp add: cache_clear_def wf_cache_def)

text \<open>A sweep leaves exactly the entries that have not expired.\<close>

lemma restrict_map_le: "m |` A \<subseteq>\<^sub>m m"
  by (simp add: map_le_def restrict_map_def dom_def)

lemma cache_prune_sound:
  assumes "lru ops" and "wf_cache ops c"
  shows "wf_cache ops (cache_prune_expired ops now c)
    \<and> map_of (lru_iter ops (cache_prune_expired ops now c)) =
        (\<lambda>k. case map_of (lru_iter ops c) k of
           Some e \<Rightarrow> if entry_expired now e then None else Some e | None \<Rightarrow> None)"
proof -
  let ?it = "lru_iter ops c"
  let ?ks = "map fst (filter (\<lambda>(_, entry). entry_expired now entry) ?it)"
  note fold = lru.entries_pop_fold [OF assms(1), of ?ks c]
  have "k \<in> set ?ks \<longleftrightarrow> (\<exists>e. map_of ?it k = Some e \<and> entry_expired now e)" for k
    unfolding map_of_eq_Some_iff [OF lru.iter_distinct [OF assms(1), of c]]
    by (cases k) (auto simp: image_iff)
  then have eq: "map_of ?it |` (- set ?ks) = (\<lambda>k. case map_of ?it k of
      Some e \<Rightarrow> if entry_expired now e then None else Some e | None \<Rightarrow> None)"
    by (auto simp: restrict_map_def fun_eq_iff split: option.splits)
  have it: "map_of (lru_iter ops (cache_prune_expired ops now c)) = map_of ?it |` (- set ?ks)"
    "lru_cap ops (cache_prune_expired ops now c) = lru_cap ops c"
    using fold unfolding cache_prune_expired_def by blast+
  have "wf_cache ops (cache_prune_expired ops now c)"
    by (rule wf_cache_le [OF assms(2) it(2)]) (simp only: it(1) restrict_map_le)
  then show ?thesis unfolding it(1) eq by blast
qed

end
