(* ===== verification/Dynamic_Rules.thy ===== *)
theory Dynamic_Rules
  imports Nft_Controller
begin

text \<open>
  The dynamic rules manager (outcalld/src/dynamic/mod.rs, destination.rs, events.rs, expiry.rs): it
  inserts an nftables accept rule for one container, source and destination, keeps a record of every
  rule it inserted, and removes rules when their container dies, when they expire and when the event
  stream has a gap. Its state is the record map; the kernel's state \<open>'s\<close> changes only through the
  controller. The manager's mutex makes each operation one step. A \<open>HashMap\<close> is an association list
  with distinct keys in an arbitrary order; an \<open>Instant\<close> is a number of nanoseconds.
\<close>

section \<open>Types (outcall-api/src/dynamic.rs, dynamic/mod.rs)\<close>

type_synonym instant = nat

definition MAX_DYNAMIC_RULE_TTL_SECS :: nat where
  "MAX_DYNAMIC_RULE_TTL_SECS = 24 * 60 * 60"

definition MAX_DYNAMIC_RULES_PER_CONTAINER :: nat where
  "MAX_DYNAMIC_RULES_PER_CONTAINER = 256"

record allow_rule_request =
  ar_container :: string
  ar_src_ip :: string
  ar_destination :: string
  ar_protocol :: "string option"
  ar_port :: "u16 option"
  ar_expires_in_secs :: "nat option"

datatype source_policy = Operator_May_Prestage | Require_Managed

record dynamic_rule =
  dr_container :: string
  dr_src_ip :: string
  dr_destination :: string
  dr_protocol :: "string option"
  dr_port :: "u16 option"
  dr_nft_handle :: u64
  dr_inserted_at :: string
  dr_expires_at :: "instant option"

type_synonym dyn_state = "(string \<times> dynamic_rule list) list"

record active_rule =
  act_container :: string
  act_src_ip :: string
  act_destination :: string
  act_protocol :: "string option"
  act_port :: "u16 option"
  act_nft_handle :: u64
  act_inserted_at :: string
  act_expires_in_secs :: "nat option"

datatype dyn_error =
    Invalid_Protocol string
  | Port_Without_Protocol
  | Bad_Ttl
  | Deadline_Overflow
  | Invalid_Source string
  | Owner_Lookup_Failed string
  | Foreign_Source string string
  | Unmanaged_Source string
  | Source_Became_Unassigned string
  | Bad_Destination_Cidr string
  | Destination_Not_Network string
  | Bad_Hostname string
  | Bad_Destination_Address string
  | Resolution_Timed_Out string
  | Resolution_Failed string
  | No_Address_Found string
  | Rule_Cap_Exceeded string
  | Clock_Error
  | Nft_Error bridge_error
  | Reset_Failed u64 bridge_error
  | Rollback_Failed dyn_error dyn_error

section \<open>destination.rs\<close>

datatype lookup_outcome = Lookup_Timed_Out | Lookup_Failed string | Lookup_Found "ip_addr list"

definition resolve ::
  "net_ext \<Rightarrow> (string \<Rightarrow> lookup_outcome) \<Rightarrow> string \<Rightarrow> (dyn_error, string) result" where
  "resolve ext lookup_host destination =
     (if CHR ''/'' \<in> set destination then
        (case ipnet_parse ext destination of
           None \<Rightarrow> Inl (Bad_Destination_Cidr destination)
         | Some (address, network, printed) \<Rightarrow>
             if address \<noteq> network then Inl (Destination_Not_Network destination)
             else Inr printed)
      else
        (case parse_ip destination of
           Some address \<Rightarrow> Inr (show_ip address)
         | None \<Rightarrow>
             (case url_host_parse ext destination of
                None \<Rightarrow> Inl (Bad_Hostname destination)
              | Some Host_Address \<Rightarrow> Inl (Bad_Destination_Address destination)
              | Some (Host_Domain hostname) \<Rightarrow>
                  (case lookup_host hostname of
                     Lookup_Timed_Out \<Rightarrow> Inl (Resolution_Timed_Out destination)
                   | Lookup_Failed e \<Rightarrow> Inl (Resolution_Failed destination)
                   | Lookup_Found addresses \<Rightarrow>
                       (case find (\<lambda>a. \<not> is_ipv6 a) addresses of
                          Some a \<Rightarrow> Inr (show_ip a)
                        | None \<Rightarrow>
                            (case find is_ipv6 addresses of
                               Some a \<Rightarrow> Inr (show_ip a)
                             | None \<Rightarrow> Inl (No_Address_Found destination)))))))"

section \<open>Helpers of dynamic/mod.rs\<close>

text \<open>\<open>Instant::checked_add\<close>: seconds are signed 64-bit.\<close>

definition checked_add_secs :: "instant \<Rightarrow> nat \<Rightarrow> instant option" where
  "checked_add_secs now secs =
     (let t = now + secs * 10 ^ 9 in if t div 10 ^ 9 < 2 ^ 63 then Some t else None)"

definition expiration_deadline ::
  "nat option \<Rightarrow> instant \<Rightarrow> (dyn_error, instant option) result" where
  "expiration_deadline ttl_secs now =
     (case ttl_secs of
        None \<Rightarrow> Inr None
      | Some ttl_secs \<Rightarrow>
          if ttl_secs = 0 \<or> MAX_DYNAMIC_RULE_TTL_SECS < ttl_secs then Inl Bad_Ttl
          else (case checked_add_secs now ttl_secs of
                  None \<Rightarrow> Inl Deadline_Overflow
                | Some deadline \<Rightarrow> Inr (Some deadline)))"

fun renew_expiration ::
  "instant option \<Rightarrow> instant option \<Rightarrow> source_policy \<Rightarrow> instant option" where
  "renew_expiration current requested Operator_May_Prestage = requested"
| "renew_expiration (Some c) (Some deadline) Require_Managed = Some deadline"
| "renew_expiration current requested Require_Managed = current"

text \<open>\<open>as_secs\<close> rounded up, saturating at 64 bits.\<close>

definition remaining_secs :: "nat \<Rightarrow> nat" where
  "remaining_secs remaining =
     min (remaining div 10 ^ 9 + (if 0 < remaining mod 10 ^ 9 then 1 else 0)) (2 ^ 64 - 1)"

definition validate_source_owner ::
  "string option \<Rightarrow> string \<Rightarrow> source_policy \<Rightarrow> string \<Rightarrow> (dyn_error, bool) result" where
  "validate_source_owner actual requested policy source_ip =
     (case actual of
        Some actual \<Rightarrow>
          if actual = requested then Inr True else Inl (Foreign_Source source_ip actual)
      | None \<Rightarrow>
          if policy = Require_Managed then Inl (Unmanaged_Source source_ip) else Inr False)"

definition remove_tracked_handle :: "dyn_state \<Rightarrow> string \<Rightarrow> u64 \<Rightarrow> dyn_state" where
  "remove_tracked_handle st container handle =
     (case map_of st container of
        None \<Rightarrow> st
      | Some rules \<Rightarrow>
          (let rules' = filter (\<lambda>r. dr_nft_handle r \<noteq> handle) rules
           in if rules' = [] then AList.delete container st
              else AList.update container rules' st))"

section \<open>Insertion\<close>

text \<open>
  What the operation reads from its surroundings: the monotonic clock, the container Docker reports
  for the source address before and after the rule is inserted, host name resolution and the
  wall-clock timestamp.
\<close>

record insert_env =
  ie_now :: instant
  ie_owner_before :: "(string, string option) result"
  ie_lookup_host :: "string \<Rightarrow> lookup_outcome"
  ie_inserted_at :: "(unit, string) result"
  ie_owner_after :: "(string, string option) result"

definition map_err :: "('e \<Rightarrow> 'f) \<Rightarrow> ('e, 'a) result \<Rightarrow> ('f, 'a) result" where
  "map_err f r = (case r of Inl e \<Rightarrow> Inl (f e) | Inr v \<Rightarrow> Inr v)"

definition check_protocol :: "allow_rule_request \<Rightarrow> (dyn_error, unit) result" where
  "check_protocol req =
     (case ar_protocol req of
        Some proto \<Rightarrow>
          if proto = ''tcp'' \<or> proto = ''udp'' then Inr () else Inl (Invalid_Protocol proto)
      | None \<Rightarrow> if ar_port req \<noteq> None then Inl Port_Without_Protocol else Inr ())"

text \<open>Everything before the lock: the deadline, the source, whether it is assigned, the destination.\<close>

definition prepare_insert ::
  "net_ext \<Rightarrow> insert_env \<Rightarrow> allow_rule_request \<Rightarrow> source_policy
    \<Rightarrow> (dyn_error, instant option \<times> ip_addr \<times> bool \<times> string) result" where
  "prepare_insert ext env req policy =
     res_bind (check_protocol req) (\<lambda>_.
     res_bind (expiration_deadline (ar_expires_in_secs req) (ie_now env)) (\<lambda>expires_at.
     res_bind (ok_or (Invalid_Source (ar_src_ip req)) (parse_ip (ar_src_ip req))) (\<lambda>src_ip.
     res_bind (map_err Owner_Lookup_Failed (ie_owner_before env)) (\<lambda>initial_owner.
     res_bind (validate_source_owner initial_owner (ar_container req) policy (ar_src_ip req))
       (\<lambda>initially_assigned.
     res_bind (resolve ext (ie_lookup_host env) (ar_destination req)) (\<lambda>dst_ip.
     Inr (expires_at, src_ip, initially_assigned, dst_ip)))))))"

definition same_rule :: "allow_rule_request \<Rightarrow> dynamic_rule \<Rightarrow> bool" where
  "same_rule req r \<longleftrightarrow>
     dr_src_ip r = ar_src_ip req \<and> dr_destination r = ar_destination req
     \<and> dr_protocol r = ar_protocol req \<and> dr_port r = ar_port req"

fun update_first :: "('a \<Rightarrow> bool) \<Rightarrow> ('a \<Rightarrow> 'a) \<Rightarrow> 'a list \<Rightarrow> 'a list" where
  "update_first P f [] = []"
| "update_first P f (x # xs) = (if P x then f x # xs else x # update_first P f xs)"

text \<open>\<open>entry(..).or_default()\<close>\<close>

definition entry_or_default :: "string \<Rightarrow> dyn_state \<Rightarrow> dyn_state \<times> dynamic_rule list" where
  "entry_or_default container st =
     (case map_of st container of
        Some rules \<Rightarrow> (st, rules)
      | None \<Rightarrow> (AList.update container [] st, []))"

definition rollback_inserted_rule ::
  "'s nft_ops \<Rightarrow> string \<Rightarrow> u64 \<Rightarrow> dyn_state \<Rightarrow> 's \<Rightarrow> (dyn_error, unit) result \<times> dyn_state \<times> 's" where
  "rollback_inserted_rule ctl container handle st s =
     (case ctl_delete ctl handle s of
        (Inr _, s') \<Rightarrow> (Inr (), remove_tracked_handle st container handle, s')
      | (Inl _, s') \<Rightarrow>
          (case ctl_reset ctl s' of
             (Inl e, s'') \<Rightarrow> (Inl (Reset_Failed handle e), st, s'')
           | (Inr _, s'') \<Rightarrow> (Inr (), [], s'')))"

definition check_owner_after ::
  "insert_env \<Rightarrow> allow_rule_request \<Rightarrow> source_policy \<Rightarrow> bool \<Rightarrow> (dyn_error, unit) result" where
  "check_owner_after env req policy initially_assigned =
     res_bind (map_err Owner_Lookup_Failed (ie_owner_after env)) (\<lambda>owner.
     res_bind (validate_source_owner owner (ar_container req) policy (ar_src_ip req))
       (\<lambda>currently_assigned.
          if initially_assigned \<and> \<not> currently_assigned
          then Inl (Source_Became_Unassigned (ar_src_ip req)) else Inr ()))"

definition new_record ::
  "allow_rule_request \<Rightarrow> u64 \<Rightarrow> string \<Rightarrow> instant option \<Rightarrow> dynamic_rule" where
  "new_record req handle inserted_at expires_at =
     \<lparr>dr_container = ar_container req, dr_src_ip = ar_src_ip req,
      dr_destination = ar_destination req, dr_protocol = ar_protocol req,
      dr_port = ar_port req, dr_nft_handle = handle, dr_inserted_at = inserted_at,
      dr_expires_at = expires_at\<rparr>"

text \<open>The part under the lock, first for a rule that is not recorded yet.\<close>

definition insert_new ::
  "'s nft_ops \<Rightarrow> insert_env \<Rightarrow> allow_rule_request \<Rightarrow> source_policy
    \<Rightarrow> instant option \<times> ip_addr \<times> bool \<times> string \<Rightarrow> dynamic_rule list \<Rightarrow> dyn_state \<Rightarrow> 's
    \<Rightarrow> (dyn_error, u64) result \<times> dyn_state \<times> 's" where
  "insert_new ctl env req policy prepared container_rules st s =
     (case prepared of (expires_at, src_ip, initially_assigned, dst_ip) \<Rightarrow>
      if MAX_DYNAMIC_RULES_PER_CONTAINER \<le> length container_rules
      then (Inl (Rule_Cap_Exceeded (ar_container req)), st, s)
      else (case ie_inserted_at env of
         Inl _ \<Rightarrow> (Inl Clock_Error, st, s)
       | Inr inserted_at \<Rightarrow>
           (case ctl_insert ctl src_ip dst_ip (ar_protocol req) (ar_port req) s of
              (Inl e, s') \<Rightarrow> (Inl (Nft_Error e), st, s')
            | (Inr handle, s') \<Rightarrow>
                (let st' = AList.update (ar_container req)
                       (container_rules @ [new_record req handle inserted_at expires_at]) st
                 in case check_owner_after env req policy initially_assigned of
                      Inr _ \<Rightarrow> (Inr handle, st', s')
                    | Inl ownership_error \<Rightarrow>
                        (case rollback_inserted_rule ctl (ar_container req) handle st' s' of
                           (Inr _, st'', s'') \<Rightarrow> (Inl ownership_error, st'', s'')
                         | (Inl rollback_error, st'', s'') \<Rightarrow>
                             (Inl (Rollback_Failed rollback_error ownership_error), st'', s''))))))"

definition insert_locked ::
  "'s nft_ops \<Rightarrow> insert_env \<Rightarrow> allow_rule_request \<Rightarrow> source_policy
    \<Rightarrow> instant option \<times> ip_addr \<times> bool \<times> string \<Rightarrow> dyn_state \<Rightarrow> 's
    \<Rightarrow> (dyn_error, u64) result \<times> dyn_state \<times> 's" where
  "insert_locked ctl env req policy prepared st s =
     (case entry_or_default (ar_container req) st of (st, container_rules) \<Rightarrow>
      case find (same_rule req) container_rules of
        Some existing \<Rightarrow>
          (Inr (dr_nft_handle existing),
           AList.update (ar_container req)
             (update_first (same_rule req)
                (\<lambda>r. r\<lparr>dr_expires_at := renew_expiration (dr_expires_at r) (fst prepared) policy\<rparr>)
                container_rules) st, s)
      | None \<Rightarrow> insert_new ctl env req policy prepared container_rules st s)"

definition insert_rule_with_source_policy ::
  "'s nft_ops \<Rightarrow> net_ext \<Rightarrow> insert_env \<Rightarrow> allow_rule_request \<Rightarrow> source_policy \<Rightarrow> dyn_state \<Rightarrow> 's
    \<Rightarrow> (dyn_error, u64) result \<times> dyn_state \<times> 's" where
  "insert_rule_with_source_policy ctl ext env req policy st s =
     (case prepare_insert ext env req policy of
        Inl e \<Rightarrow> (Inl e, st, s)
      | Inr prepared \<Rightarrow> insert_locked ctl env req policy prepared st s)"

definition insert_rule where
  "insert_rule ctl ext env req st s =
     insert_rule_with_source_policy ctl ext env req Operator_May_Prestage st s"

definition insert_managed_rule where
  "insert_managed_rule ctl ext env req st s =
     insert_rule_with_source_policy ctl ext env req Require_Managed st s"

section \<open>Removal\<close>

text \<open>Delete handles in order, up to the first that fails.\<close>

fun delete_handles ::
  "'s nft_ops \<Rightarrow> u64 list \<Rightarrow> 's \<Rightarrow> u64 option \<times> 's" where
  "delete_handles ctl [] s = (None, s)"
| "delete_handles ctl (h # hs) s =
     (case ctl_delete ctl h s of
        (Inr _, s') \<Rightarrow> delete_handles ctl hs s'
      | (Inl _, s') \<Rightarrow> (Some h, s'))"

definition remove_container_rules ::
  "'s nft_ops \<Rightarrow> string \<Rightarrow> dyn_state \<Rightarrow> 's \<Rightarrow> (dyn_error, nat) result \<times> dyn_state \<times> 's" where
  "remove_container_rules ctl container_name st s =
     (case map_of st container_name of
        None \<Rightarrow> (Inr 0, st, s)
      | Some rules \<Rightarrow>
          (case delete_handles ctl (map dr_nft_handle rules) s of
             (None, s') \<Rightarrow> (Inr (length rules), AList.delete container_name st, s')
           | (Some handle, s') \<Rightarrow>
               (case ctl_reset ctl s' of
                  (Inl e, s'') \<Rightarrow> (Inl (Reset_Failed handle e), st, s'')
                | (Inr _, s'') \<Rightarrow> (Inr (length rules), [], s''))))"

definition all_rules :: "dyn_state \<Rightarrow> dynamic_rule list" where
  "all_rules st = concat (map snd st)"

definition list_dynamic_rules :: "instant \<Rightarrow> dyn_state \<Rightarrow> active_rule list" where
  "list_dynamic_rules now st =
     map (\<lambda>r. \<lparr>act_container = dr_container r, act_src_ip = dr_src_ip r,
               act_destination = dr_destination r, act_protocol = dr_protocol r,
               act_port = dr_port r, act_nft_handle = dr_nft_handle r,
               act_inserted_at = dr_inserted_at r,
               act_expires_in_secs = map_option (\<lambda>d. remaining_secs (d - now)) (dr_expires_at r)\<rparr>)
       (all_rules st)"

definition is_expired :: "instant \<Rightarrow> dynamic_rule \<Rightarrow> bool" where
  "is_expired now r = (case dr_expires_at r of Some deadline \<Rightarrow> deadline \<le> now | None \<Rightarrow> False)"

definition expired_handles :: "instant \<Rightarrow> dyn_state \<Rightarrow> (string \<times> u64) list" where
  "expired_handles now st =
     concat (map (\<lambda>(container, rules).
       map (\<lambda>r. (container, dr_nft_handle r)) (filter (is_expired now) rules)) st)"

text \<open>The loop of \<open>prune_expired\<close>; \<open>Some n\<close> is the early return after a reset.\<close>

fun prune_loop ::
  "'s nft_ops \<Rightarrow> nat \<Rightarrow> (string \<times> u64) list \<Rightarrow> dyn_state \<Rightarrow> 's
    \<Rightarrow> (dyn_error, nat option) result \<times> dyn_state \<times> 's" where
  "prune_loop ctl tracked_total [] st s = (Inr None, st, s)"
| "prune_loop ctl tracked_total ((container, handle) # rest) st s =
     (case ctl_delete ctl handle s of
        (Inr _, s') \<Rightarrow>
          prune_loop ctl tracked_total rest (remove_tracked_handle st container handle) s'
      | (Inl _, s') \<Rightarrow>
          (case ctl_reset ctl s' of
             (Inl e, s'') \<Rightarrow> (Inl (Reset_Failed handle e), st, s'')
           | (Inr _, s'') \<Rightarrow> (Inr (Some tracked_total), [], s'')))"

definition prune_expired ::
  "'s nft_ops \<Rightarrow> instant \<Rightarrow> dyn_state \<Rightarrow> 's \<Rightarrow> (dyn_error, nat) result \<times> dyn_state \<times> 's" where
  "prune_expired ctl now st s =
     (let expired = expired_handles now st;
          total_tracked = sum_list (map (length \<circ> snd) st)
      in case prune_loop ctl total_tracked expired st s of
           (Inl e, st', s') \<Rightarrow> (Inl e, st', s')
         | (Inr (Some n), st', s') \<Rightarrow> (Inr n, st', s')
         | (Inr None, st', s') \<Rightarrow> (Inr (length expired), st', s'))"

definition flush_all ::
  "'s nft_ops \<Rightarrow> dyn_state \<Rightarrow> 's \<Rightarrow> (dyn_error, nat) result \<times> dyn_state \<times> 's" where
  "flush_all ctl st s =
     (let handles = map dr_nft_handle (all_rules st); tracked_total = length handles
      in case delete_handles ctl handles s of
           (None, s') \<Rightarrow> (Inr tracked_total, [], s')
         | (Some handle, s') \<Rightarrow>
             (case ctl_reset ctl s' of
                (Inl e, s'') \<Rightarrow> (Inl (Reset_Failed handle e), st, s'')
              | (Inr _, s'') \<Rightarrow> (Inr tracked_total, [], s'')))"

section \<open>events.rs\<close>

datatype container_event_kind = Die | Oom | Kill | Destroy | Pause | Unpause

datatype container_event =
    Lifecycle container_event_kind string string
  | Stream_Reset

datatype received_event = Received container_event | Lagged nat | Closed

text \<open>One turn of the watcher's loop, after a receive; errors are only logged.\<close>

definition watcher_step ::
  "'s nft_ops \<Rightarrow> received_event \<Rightarrow> dyn_state \<Rightarrow> 's \<Rightarrow> dyn_state \<times> 's" where
  "watcher_step ctl event st s =
     (case event of
        Received (Lifecycle kind container_name container_id) \<Rightarrow>
          (if kind \<in> {Die, Oom, Kill, Destroy}
           then snd (remove_container_rules ctl container_name st s) else (st, s))
      | Received Stream_Reset \<Rightarrow> snd (flush_all ctl st s)
      | Lagged _ \<Rightarrow> snd (flush_all ctl st s)
      | Closed \<Rightarrow> snd (flush_all ctl st s))"

text \<open>The watcher returns when the channel is closed.\<close>

fun watcher_stops :: "received_event \<Rightarrow> bool" where
  "watcher_stops Closed = True"
| "watcher_stops _ = False"

section \<open>Invariants\<close>

definition rules_of :: "dyn_state \<Rightarrow> string \<Rightarrow> dynamic_rule list" where
  "rules_of st c = (case map_of st c of None \<Rightarrow> [] | Some rs \<Rightarrow> rs)"

definition rule_key :: "dynamic_rule \<Rightarrow> string \<times> string \<times> string option \<times> u16 option" where
  "rule_key r = (dr_src_ip r, dr_destination r, dr_protocol r, dr_port r)"

text \<open>The records of one container: at most the cap, one per rule, and well-formed.\<close>

definition wf_rules :: "string \<Rightarrow> dynamic_rule list \<Rightarrow> bool" where
  "wf_rules c rs \<longleftrightarrow>
     length rs \<le> MAX_DYNAMIC_RULES_PER_CONTAINER \<and> distinct (map rule_key rs)
     \<and> list_all (\<lambda>r. dr_container r = c \<and> parse_ip (dr_src_ip r) \<noteq> None
         \<and> (dr_protocol r = None \<and> dr_port r = None
            \<or> dr_protocol r = Some ''tcp'' \<or> dr_protocol r = Some ''udp'')) rs"

definition wf_dyn :: "dyn_state \<Rightarrow> bool" where
  "wf_dyn st \<longleftrightarrow> distinct (map fst st) \<and> (\<forall>c. wf_rules c (rules_of st c))"

text \<open>A rule in the kernel is the one a record describes: same source, protocol and port.\<close>

definition covers :: "string list \<Rightarrow> dynamic_rule \<Rightarrow> bool" where
  "covers expression r \<longleftrightarrow>
     (\<exists>src dst. parse_ip (dr_src_ip r) = Some src
        \<and> expression = nft_expression src dst (dr_protocol r) (dr_port r))"

definition tracked :: "(u64 \<rightharpoonup> string list) \<Rightarrow> dyn_state \<Rightarrow> bool" where
  "tracked act st \<longleftrightarrow>
     (\<forall>h e. act h = Some e \<longrightarrow>
        (\<exists>c. \<exists>r \<in> set (rules_of st c). dr_nft_handle r = h \<and> covers e r))"

lemma rules_of_Nil [simp]: "rules_of [] c = []"
  by (simp add: rules_of_def)

lemma rules_of_update [simp]:
  "rules_of (AList.update k rs st) c = (if c = k then rs else rules_of st c)"
  by (simp add: rules_of_def update_conv')

lemma rules_of_delete [simp]:
  "rules_of (AList.delete k st) c = (if c = k then [] else rules_of st c)"
  by (simp add: rules_of_def delete_conv')

lemma rules_of_remove_tracked [simp]:
  "rules_of (remove_tracked_handle st k h) c =
     (if c = k then filter (\<lambda>r. dr_nft_handle r \<noteq> h) (rules_of st c) else rules_of st c)"
  by (auto simp: remove_tracked_handle_def Let_def rules_of_def [of st] split: option.splits)

lemma rules_of_all_rules: "r \<in> set (rules_of st c) \<Longrightarrow> r \<in> set (all_rules st)"
  by (auto simp: rules_of_def all_rules_def split: option.splits intro: bexI [OF _ map_of_SomeD])

lemma expired_handles_intro:
  assumes "x \<in> set (rules_of st c)" and "is_expired now x"
  shows "(c, dr_nft_handle x) \<in> set (expired_handles now st)"
proof -
  obtain rs where rs: "(c, rs) \<in> set st" "x \<in> set rs"
    using assms(1) map_of_SomeD [of st c] by (cases "map_of st c") (auto simp: rules_of_def)
  then have "(c, dr_nft_handle x) \<in> set (map (\<lambda>r. (c, dr_nft_handle r)) (filter (is_expired now) rs))"
    using assms(2) by simp
  then show ?thesis
    unfolding expired_handles_def set_concat set_map
    by (intro UN_I [of "map (\<lambda>r. (c, dr_nft_handle r)) (filter (is_expired now) rs)"]
        image_eqI [OF _ rs(1)]) simp_all
qed

lemma entry_or_default_eq:
  assumes "entry_or_default k st = (st', rs)"
  shows "rs = rules_of st k \<and> rules_of st' = rules_of st
    \<and> (distinct (map fst st) \<longrightarrow> distinct (map fst st'))"
  using assms by (cases "map_of st k")
    (auto simp: entry_or_default_def rules_of_def fun_eq_iff update_conv' distinct_update)

lemma wf_rules_Nil [simp, wf_intro]: "wf_rules c []"
  by (simp add: wf_rules_def)

lemma wf_rules_filter [wf_intro]: "wf_rules c rs \<Longrightarrow> wf_rules c (filter P rs)"
  using le_trans [OF length_filter_le [of P rs]]
  by (auto simp: wf_rules_def list_all_iff distinct_map_filter)

lemma wf_dyn_Nil [simp, wf_intro]: "wf_dyn []"
  by (simp add: wf_dyn_def)

lemma wf_dyn_update [wf_intro]: "wf_dyn st \<Longrightarrow> wf_rules k rs \<Longrightarrow> wf_dyn (AList.update k rs st)"
  by (simp add: wf_dyn_def distinct_update)

lemma wf_dyn_delete [wf_intro]: "wf_dyn st \<Longrightarrow> wf_dyn (AList.delete k st)"
  by (simp add: wf_dyn_def distinct_delete)

lemma wf_dyn_remove_tracked [wf_intro]:
  assumes "wf_dyn st"
  shows "wf_dyn (remove_tracked_handle st k h)"
proof -
  have "distinct (map fst (remove_tracked_handle st k h))"
    using assms by (auto simp: wf_dyn_def remove_tracked_handle_def Let_def distinct_update
        distinct_delete split: option.splits)
  moreover have "wf_rules c (rules_of (remove_tracked_handle st k h) c)" for c
    using assms by (auto simp: wf_dyn_def intro: wf_rules_filter)
  ultimately show ?thesis by (simp add: wf_dyn_def)
qed

lemma tracked_le: "tracked act st \<Longrightarrow> act' \<subseteq>\<^sub>m act \<Longrightarrow> tracked act' st"
  unfolding tracked_def map_le_def by (metis domI)

lemma tracked_empty [simp]: "tracked Map.empty st"
  by (simp add: tracked_def)

lemma tracked_cong: "rules_of st' = rules_of st \<Longrightarrow> tracked act st' = tracked act st"
  by (simp add: tracked_def)

lemma tracked_remove_handle:
  assumes "tracked act st"
  shows "tracked (act(h := None)) (remove_tracked_handle st k h)"
proof -
  have "\<exists>c. \<exists>r \<in> set (rules_of (remove_tracked_handle st k h) c). dr_nft_handle r = g \<and> covers e r"
    if g: "act g = Some e" "g \<noteq> h" for g e
  proof -
    obtain c r where "r \<in> set (rules_of st c)" "dr_nft_handle r = g" "covers e r"
      using assms g(1) unfolding tracked_def by blast
    then show ?thesis using g(2) by (intro exI [of _ c] bexI [of _ r]) auto
  qed
  then show ?thesis unfolding tracked_def by (simp split: if_splits)
qed

lemma wf_update_first:
  assumes "wf_rules c rs"
  shows "wf_rules c (update_first P (\<lambda>r. r\<lparr>dr_expires_at := f r\<rparr>) rs)"
proof -
  have "map rule_key (update_first P (\<lambda>r. r\<lparr>dr_expires_at := f r\<rparr>) rs) = map rule_key rs"
    by (induction rs) (auto simp: rule_key_def)
  moreover have "length (update_first P (\<lambda>r. r\<lparr>dr_expires_at := f r\<rparr>) rs) = length rs"
    by (induction rs) auto
  moreover have "list_all Q rs \<Longrightarrow> list_all Q (update_first P (\<lambda>r. r\<lparr>dr_expires_at := f r\<rparr>) rs)"
    if "\<And>r d. Q (r\<lparr>dr_expires_at := d\<rparr>) = Q r" for Q :: "dynamic_rule \<Rightarrow> bool"
    by (induction rs) (auto simp: that)
  ultimately show ?thesis using assms by (simp add: wf_rules_def)
qed

lemma update_first_covers:
  assumes "r \<in> set rs"
  shows "\<exists>r' \<in> set (update_first P (\<lambda>r. r\<lparr>dr_expires_at := f r\<rparr>) rs).
    dr_nft_handle r' = dr_nft_handle r \<and> (\<forall>e. covers e r' = covers e r)"
  using assms by (induction rs) (auto simp: covers_def)

section \<open>Operations over a controller\<close>

context nft_controller
begin

abbreviation sound :: "dyn_state \<Rightarrow> 's \<Rightarrow> bool" where
  "sound st s \<equiv> wf_dyn st \<and> tracked (active s) st"

lemma delete_handles_None:
  "delete_handles ctl hs s = (None, s') \<Longrightarrow> active s' = active s |` (- set hs)"
proof (induction hs arbitrary: s)
  case (Cons h hs)
  then obtain u s1 where d: "ctl_delete ctl h s = (Inr u, s1)" "delete_handles ctl hs s1 = (None, s')"
    by (auto split: prod.splits sum.splits)
  from Cons.IH [OF d(2)] delete_ok [OF d(1)] show ?case
    by (auto simp: restrict_map_def fun_eq_iff)
qed (simp add: restrict_map_def)

lemma delete_handles_Some:
  "delete_handles ctl hs s = (Some h, s') \<Longrightarrow> active s' \<subseteq>\<^sub>m active s"
proof (induction hs arbitrary: s)
  case (Cons k hs)
  obtain r s1 where d: "ctl_delete ctl k s = (r, s1)" by fastforce
  have le: "active s1 \<subseteq>\<^sub>m active s"
    using d delete_ok delete_err by (cases r) (fastforce simp: map_le_def)+
  show ?case
    using Cons d le by (cases r) (auto intro: map_le_trans)
qed simp

lemma tracked_reset_err:
  "tracked (active s) st \<Longrightarrow> ctl_reset ctl s = (Inl e, s') \<Longrightarrow> tracked (active s') st"
  using reset_err tracked_le by blast

lemma flush_all_sound:
  assumes "sound st s" and "flush_all ctl st s = (r, st', s')"
  shows "sound st' s' \<and> (\<forall>n. r = Inr n \<longrightarrow> st' = [] \<and> active s' = Map.empty)"
proof -
  let ?hs = "map dr_nft_handle (all_rules st)"
  obtain f s1 where d: "delete_handles ctl ?hs s = (f, s1)" by fastforce
  show ?thesis
  proof (cases f)
    case None
    have "active s h = None" if "h \<notin> set ?hs" for h
      using assms(1) that unfolding tracked_def
      by (metis (mono_tags, lifting) image_eqI not_None_eq rules_of_all_rules set_map)
    then have "active s1 = Map.empty"
      using delete_handles_None [of ?hs s s1] d None by (auto simp: restrict_map_def fun_eq_iff)
    then show ?thesis using assms(2) d None by (auto simp: flush_all_def Let_def)
  next
    case (Some h)
    then have t: "tracked (active s1) st"
      using assms(1) d delete_handles_Some tracked_le by blast
    obtain q s2 where q: "ctl_reset ctl s1 = (q, s2)" by fastforce
    show ?thesis
    proof (cases q)
      case (Inl e)
      then show ?thesis
        using assms d Some q tracked_reset_err [OF t] by (auto simp: flush_all_def Let_def)
    next
      case (Inr u)
      then show ?thesis
        using assms d Some q reset_ok by (auto simp: flush_all_def Let_def)
    qed
  qed
qed

lemma remove_container_sound:
  assumes "sound st s" and "remove_container_rules ctl c st s = (r, st', s')"
  shows "sound st' s' \<and> (\<forall>n. r = Inr n \<longrightarrow> rules_of st' c = [] \<and> n = length (rules_of st c))"
proof (cases "map_of st c")
  case None
  then show ?thesis using assms by (auto simp: remove_container_rules_def rules_of_def)
next
  case (Some rules)
  then have rules: "rules_of st c = rules" by (simp add: rules_of_def)
  let ?hs = "map dr_nft_handle rules"
  obtain f s1 where d: "delete_handles ctl ?hs s = (f, s1)" by fastforce
  show ?thesis
  proof (cases f)
    case None
    have "active s1 = active s |` (- set ?hs)" using d None delete_handles_None by blast
    then have "tracked (active s1) (AList.delete c st)"
      using assms(1) rules unfolding tracked_def restrict_map_def
      by (auto split: if_splits) (metis image_eqI)
    then show ?thesis
      using assms d None Some rules by (auto simp: remove_container_rules_def wf_dyn_delete)
  next
    case (Some h)
    then have t: "tracked (active s1) st"
      using assms(1) d delete_handles_Some tracked_le by blast
    obtain q s2 where q: "ctl_reset ctl s1 = (q, s2)" by fastforce
    then show ?thesis
      using assms d Some \<open>map_of st c = Some rules\<close> rules tracked_reset_err [OF t] reset_ok
      by (cases q) (auto simp: remove_container_rules_def)
  qed
qed

lemma prune_loop_sound:
  assumes "sound st s" and "prune_loop ctl n expired st s = (r, st', s')"
  shows "sound st' s' \<and> (r = Inr None \<longrightarrow>
      (\<forall>c. rules_of st' c = filter (\<lambda>x. (c, dr_nft_handle x) \<notin> set expired) (rules_of st c)))
    \<and> (\<forall>k. r = Inr (Some k) \<longrightarrow> st' = [])"
  using assms
proof (induction expired arbitrary: st s)
  case Nil
  then show ?case by auto
next
  case (Cons x expired)
  obtain c h where x: "x = (c, h)" by fastforce
  obtain q s1 where q: "ctl_delete ctl h s = (q, s1)" by fastforce
  show ?case
  proof (cases q)
    case (Inr u)
    let ?st = "remove_tracked_handle st c h"
    have "sound ?st s1"
      using Cons.prems(1) delete_ok [OF q [unfolded Inr]] wf_dyn_remove_tracked tracked_remove_handle
      by metis
    moreover have "prune_loop ctl n expired ?st s1 = (r, st', s')"
      using Cons.prems(2) x q Inr by simp
    ultimately show ?thesis
      using Cons.IH by (auto simp: x intro!: filter_cong)
  next
    case (Inl e)
    then have t: "tracked (active s1) st"
      using Cons.prems(1) q delete_err tracked_le by blast
    obtain p s2 where p: "ctl_reset ctl s1 = (p, s2)" by fastforce
    then show ?thesis
      using Cons.prems x q Inl tracked_reset_err [OF t] reset_ok by (cases p) auto
  qed
qed

lemma prune_expired_sound:
  assumes "sound st s" and "prune_expired ctl now st s = (r, st', s')"
  shows "sound st' s' \<and> (\<forall>n. r = Inr n \<longrightarrow> (\<forall>c. \<forall>x \<in> set (rules_of st' c). \<not> is_expired now x))"
proof -
  let ?n = "sum_list (map (length \<circ> snd) st)"
  obtain q st1 s1 where q: "prune_loop ctl ?n (expired_handles now st) st s = (q, st1, s1)"
    by (metis prod_cases3)
  note loop = prune_loop_sound [OF assms(1) q]
  have eq: "st' = st1" "s' = s1" "(\<exists>e. q = Inl e \<and> r = Inl e) \<or> (\<exists>k. q = Inr k \<and> (\<exists>m. r = Inr m))"
    using assms(2) q by (auto simp: prune_expired_def Let_def split: sum.splits option.splits)
  have "\<not> is_expired now x" if "q = Inr k" "x \<in> set (rules_of st1 c)" for k c x
  proof (cases k)
    case None
    then have x: "x \<in> set (rules_of st c)" "(c, dr_nft_handle x) \<notin> set (expired_handles now st)"
      using loop that by auto
    then show ?thesis using expired_handles_intro by blast
  next
    case (Some m)
    then show ?thesis using loop that by simp
  qed
  then show ?thesis using loop eq by auto
qed

lemma rollback_sound:
  assumes "sound st s" and "rollback_inserted_rule ctl c h st s = (r, st', s')"
  shows "sound st' s' \<and> active s' \<subseteq>\<^sub>m active s \<and> (\<forall>u. r = Inr u \<longrightarrow> active s' h = None)"
proof -
  obtain q s1 where q: "ctl_delete ctl h s = (q, s1)" by fastforce
  show ?thesis
  proof (cases q)
    case (Inr u)
    then show ?thesis
      using assms q delete_ok [of h s u s1] wf_dyn_remove_tracked tracked_remove_handle
      by (auto simp: rollback_inserted_rule_def map_le_def)
  next
    case (Inl e)
    then have le: "active s1 \<subseteq>\<^sub>m active s" using q delete_err by blast
    then have t: "tracked (active s1) st" using assms(1) tracked_le by blast
    obtain p s2 where p: "ctl_reset ctl s1 = (p, s2)" by fastforce
    then show ?thesis
      using assms q Inl tracked_reset_err [OF t] reset_ok [of s1] reset_err [of s1] le
      by (cases p) (auto simp: rollback_inserted_rule_def intro: map_le_trans)
  qed
qed

end

section \<open>Insertion\<close>

lemma map_err_Inr [result_simps]: "map_err f r = Inr v \<longleftrightarrow> r = Inr v"
  by (cases r) (auto simp: map_err_def)

lemma validate_source_owner_Inr [result_simps]:
  "validate_source_owner actual requested policy ip = Inr b \<longleftrightarrow>
     actual = (if b then Some requested else None) \<and> (policy = Require_Managed \<longrightarrow> b)"
  by (cases actual; cases policy; cases b) (auto simp: validate_source_owner_def)

lemma prepare_insert_Inr:
  assumes "prepare_insert ext env req policy = Inr (expires_at, src, assigned, dst)"
  shows "parse_ip (ar_src_ip req) = Some src
    \<and> (ar_protocol req = None \<and> ar_port req = None
       \<or> ar_protocol req = Some ''tcp'' \<or> ar_protocol req = Some ''udp'')
    \<and> resolve ext (ie_lookup_host env) (ar_destination req) = Inr dst
    \<and> ie_owner_before env = Inr (if assigned then Some (ar_container req) else None)
    \<and> (policy = Require_Managed \<longrightarrow> assigned)"
  using assms
  by (cases "ar_protocol req")
    (auto simp: prepare_insert_def result_simps check_protocol_def split: if_splits)

lemma check_owner_after_Inr:
  "check_owner_after env req policy assigned = Inr u \<longleftrightarrow>
     ie_owner_after env = Inr (Some (ar_container req))
     \<or> ie_owner_after env = Inr None \<and> \<not> assigned \<and> policy = Operator_May_Prestage"
  by (cases policy; cases "ie_owner_after env"; cases assigned)
    (auto simp: check_owner_after_def result_simps)

lemma new_record_simps [simp]:
  "dr_container (new_record req h at x) = ar_container req"
  "dr_src_ip (new_record req h at x) = ar_src_ip req"
  "dr_protocol (new_record req h at x) = ar_protocol req"
  "dr_port (new_record req h at x) = ar_port req"
  "dr_nft_handle (new_record req h at x) = h"
  "rule_key (new_record req h at x)
     = (ar_src_ip req, ar_destination req, ar_protocol req, ar_port req)"
  by (simp_all add: new_record_def rule_key_def)

lemma same_rule_key:
  "same_rule req r \<longleftrightarrow>
     rule_key r = (ar_src_ip req, ar_destination req, ar_protocol req, ar_port req)"
  by (auto simp: same_rule_def rule_key_def)

text \<open>Docker's answer on the source address that each policy accepts.\<close>

definition owner_ok :: "source_policy \<Rightarrow> string \<Rightarrow> (string, string option) result \<Rightarrow> bool" where
  "owner_ok policy c owner \<longleftrightarrow>
     owner = Inr (Some c) \<or> policy = Operator_May_Prestage \<and> owner = Inr None"

text \<open>What an insertion may do to the kernel's rules, by its result.\<close>

definition insert_outcome ::
  "('s \<Rightarrow> u64 \<rightharpoonup> string list) \<Rightarrow> net_ext \<Rightarrow> insert_env \<Rightarrow> allow_rule_request \<Rightarrow> source_policy
    \<Rightarrow> dyn_state \<Rightarrow> 's \<Rightarrow> (dyn_error, u64) result \<Rightarrow> 's \<Rightarrow> bool" where
  "insert_outcome active ext env req policy st s r s' \<longleftrightarrow>
     (case r of
        Inr h \<Rightarrow>
          owner_ok policy (ar_container req) (ie_owner_before env)
          \<and> (active s' = active s
               \<and> (\<exists>old \<in> set (rules_of st (ar_container req)).
                    same_rule req old \<and> dr_nft_handle old = h)
             \<or> active s h = None \<and> owner_ok policy (ar_container req) (ie_owner_after env)
               \<and> (\<exists>src dst. parse_ip (ar_src_ip req) = Some src
                    \<and> resolve ext (ie_lookup_host env) (ar_destination req) = Inr dst
                    \<and> active s' = (active s)
                        (h \<mapsto> nft_expression src dst (ar_protocol req) (ar_port req))))
      | Inl e \<Rightarrow> (\<forall>e1 e2. e \<noteq> Rollback_Failed e1 e2) \<longrightarrow> active s' \<subseteq>\<^sub>m active s)"

text \<open>The manager as a transition system: its callers, the event watcher and the expiry sweep.\<close>

inductive manager_step ::
  "'s nft_ops \<Rightarrow> net_ext \<Rightarrow> dyn_state \<times> 's \<Rightarrow> dyn_state \<times> 's \<Rightarrow> bool" for ctl ext where
  step_insert: "insert_rule_with_source_policy ctl ext env req policy st s = (r, st', s') \<Longrightarrow>
    manager_step ctl ext (st, s) (st', s')"
| step_event: "watcher_step ctl event st s = (st', s') \<Longrightarrow>
    manager_step ctl ext (st, s) (st', s')"
| step_expiry: "prune_expired ctl now st s = (r, st', s') \<Longrightarrow>
    manager_step ctl ext (st, s) (st', s')"
| step_flush: "flush_all ctl st s = (r, st', s') \<Longrightarrow> manager_step ctl ext (st, s) (st', s')"

context nft_controller
begin

text \<open>The state just after a new rule is recorded.\<close>

lemma recorded_sound:
  assumes "sound st s" and "find (same_rule req) (rules_of st c) = None"
    and "length (rules_of st c) < MAX_DYNAMIC_RULES_PER_CONTAINER"
    and "c = ar_container req" and "rules_of st1 = rules_of st" and "distinct (map fst st1)"
    and "parse_ip (ar_src_ip req) = Some src"
    and "ar_protocol req = None \<and> ar_port req = None
      \<or> ar_protocol req = Some ''tcp'' \<or> ar_protocol req = Some ''udp''"
    and "ctl_insert ctl src dst (ar_protocol req) (ar_port req) s = (Inr h, s')"
  shows "sound (AList.update c (rules_of st c @ [new_record req h at x]) st1) s'"
proof
  let ?r = "new_record req h at x"
  have "rule_key ?r \<notin> rule_key ` set (rules_of st c)"
    using assms(2) by (auto simp: find_None_iff same_rule_key)
  then have "wf_rules c (rules_of st c @ [?r])"
    using assms(1,3,4,7,8) by (auto simp: wf_dyn_def wf_rules_def)
  moreover have "wf_dyn st1" using assms(1,5,6) by (simp add: wf_dyn_def)
  ultimately show "wf_dyn (AList.update c (rules_of st c @ [?r]) st1)" by (intro wf_intro)
  have new: "covers (nft_expression src dst (ar_protocol req) (ar_port req)) ?r"
    using assms(7) by (auto simp: covers_def)
  show "tracked (active s') (AList.update c (rules_of st c @ [?r]) st1)"
    unfolding tracked_def
  proof (intro allI impI)
    fix g e
    assume a: "active s' g = Some e"
    show "\<exists>k. \<exists>r \<in> set (rules_of (AList.update c (rules_of st c @ [?r]) st1) k).
        dr_nft_handle r = g \<and> covers e r"
    proof (cases "g = h")
      case True
      then show ?thesis using a new insert_ok [OF assms(9)] by (intro exI [of _ c]) simp
    next
      case False
      with a have "active s g = Some e" using insert_ok [OF assms(9)] by simp
      then obtain k r where "r \<in> set (rules_of st k)" "dr_nft_handle r = g" "covers e r"
        using assms(1) unfolding tracked_def by blast
      then show ?thesis by (intro exI [of _ k] bexI [of _ r]) (auto simp: assms(5))
    qed
  qed
qed

lemma insert_new_sound:
  assumes "sound st s" and "rs = rules_of st (ar_container req)"
    and "find (same_rule req) rs = None"
    and "prepare_insert ext env req policy = Inr (x, src, assigned, dst)"
    and "insert_new ctl env req policy (x, src, assigned, dst) rs st s = (r, st', s')"
  shows "sound st' s' \<and> (case r of
     Inr h \<Rightarrow> active s h = None
       \<and> active s' = (active s)(h \<mapsto> nft_expression src dst (ar_protocol req) (ar_port req))
       \<and> check_owner_after env req policy assigned = Inr ()
   | Inl e \<Rightarrow> (\<forall>e1 e2. e \<noteq> Rollback_Failed e1 e2) \<longrightarrow> active s' \<subseteq>\<^sub>m active s)"
proof (cases "length rs < MAX_DYNAMIC_RULES_PER_CONTAINER \<and> (\<exists>at. ie_inserted_at env = Inr at)")
  case False
  then show ?thesis
    using assms(1,5) by (auto simp: insert_new_def not_less split: sum.splits if_splits)
next
  case True
  then obtain at where at: "ie_inserted_at env = Inr at" "length rs < MAX_DYNAMIC_RULES_PER_CONTAINER"
    by blast
  obtain q s1 where q: "ctl_insert ctl src dst (ar_protocol req) (ar_port req) s = (q, s1)" by fastforce
  show ?thesis
  proof (cases q)
    case (Inl e)
    then have "active s1 = active s" using q insert_err by blast
    then show ?thesis using assms(1,5) at q Inl by (auto simp: insert_new_def)
  next
    case (Inr h)
    let ?c = "ar_container req"
    let ?st = "AList.update ?c (rs @ [new_record req h at x]) st"
    note qr = Inr
    note prep = prepare_insert_Inr [OF assms(4)]
    note added = insert_ok [OF q [unfolded Inr]]
    have sound: "sound ?st s1"
      using recorded_sound [OF assms(1), of req ?c st src dst h s1 at x] assms prep at q Inr
      by (auto simp: wf_dyn_def)
    show ?thesis
    proof (cases "check_owner_after env req policy assigned")
      case (Inr u)
      then show ?thesis using assms(5) at q qr sound added by (auto simp: insert_new_def)
    next
      case (Inl e)
      obtain b st2 s2 where b: "rollback_inserted_rule ctl ?c h ?st s1 = (b, st2, s2)"
        by (metis prod_cases3)
      note undone = rollback_sound [OF sound b]
      have "active s2 \<subseteq>\<^sub>m active s" if "active s2 h = None"
        using undone that added by (auto simp: map_le_def split: if_splits)
      then show ?thesis
        using assms(5) at q qr Inl b undone by (cases b) (auto simp: insert_new_def)
    qed
  qed
qed

lemma renew_sound:
  assumes "sound st s"
  shows "sound (AList.update c (update_first P (\<lambda>r. r\<lparr>dr_expires_at := f r\<rparr>) (rules_of st c)) st) s"
proof
  show "wf_dyn (AList.update c (update_first P (\<lambda>r. r\<lparr>dr_expires_at := f r\<rparr>) (rules_of st c)) st)"
    using assms by (intro wf_dyn_update wf_update_first) (simp_all add: wf_dyn_def)
  show "tracked (active s)
      (AList.update c (update_first P (\<lambda>r. r\<lparr>dr_expires_at := f r\<rparr>) (rules_of st c)) st)"
    unfolding tracked_def
  proof (intro allI impI)
    fix h e
    assume "active s h = Some e"
    then obtain k r where r: "r \<in> set (rules_of st k)" "dr_nft_handle r = h" "covers e r"
      using assms unfolding tracked_def by blast
    show "\<exists>k. \<exists>r \<in> set (rules_of (AList.update c
        (update_first P (\<lambda>r. r\<lparr>dr_expires_at := f r\<rparr>) (rules_of st c)) st) k).
        dr_nft_handle r = h \<and> covers e r"
      using r update_first_covers [OF r(1), of P f] by (intro exI [of _ k]) auto
  qed
qed


lemma insert_sound:
  assumes "sound st s"
    and "insert_rule_with_source_policy ctl ext env req policy st s = (r, st', s')"
  shows "sound st' s' \<and> insert_outcome active ext env req policy st s r s'"
proof (cases "prepare_insert ext env req policy")
  case (Inl e)
  with assms show ?thesis by (auto simp: insert_rule_with_source_policy_def insert_outcome_def)
next
  case (Inr p)
  obtain x src assigned dst where p: "p = (x, src, assigned, dst)" by (metis prod_cases4)
  note prep = prepare_insert_Inr [OF Inr [unfolded p]]
  let ?c = "ar_container req"
  obtain st1 rs where e: "entry_or_default ?c st = (st1, rs)" by fastforce
  note entry = entry_or_default_eq [OF e]
  have s1: "sound st1 s" using assms(1) entry by (simp add: wf_dyn_def tracked_def)
  have run: "insert_locked ctl env req policy (x, src, assigned, dst) st s = (r, st', s')"
    using assms(2) Inr p by (simp add: insert_rule_with_source_policy_def)
  have before: "owner_ok policy ?c (ie_owner_before env)"
    using prep by (cases policy) (auto simp: owner_ok_def)
  show ?thesis
  proof (cases "find (same_rule req) rs")
    case (Some old)
    then have old: "old \<in> set (rules_of st ?c)" "same_rule req old"
      using entry by (auto simp: find_Some_iff)
    have "r = Inr (dr_nft_handle old)" "s' = s"
      "sound st' s"
      using run e Some renew_sound [OF s1, of ?c] entry by (auto simp: insert_locked_def)
    then show ?thesis using old before by (auto simp: insert_outcome_def)
  next
    case None
    have "insert_new ctl env req policy (x, src, assigned, dst) rs st1 s = (r, st', s')"
      using run e None by (simp add: insert_locked_def)
    from insert_new_sound [OF s1 _ None Inr [unfolded p] this] entry
    have new: "sound st' s' \<and> (case r of
       Inr h \<Rightarrow> active s h = None
         \<and> active s' = (active s)(h \<mapsto> nft_expression src dst (ar_protocol req) (ar_port req))
         \<and> check_owner_after env req policy assigned = Inr ()
     | Inl e \<Rightarrow> (\<forall>e1 e2. e \<noteq> Rollback_Failed e1 e2) \<longrightarrow> active s' \<subseteq>\<^sub>m active s)" by simp
    then show ?thesis
      using before prep
      by (cases r) (auto simp: insert_outcome_def owner_ok_def check_owner_after_Inr)
  qed
qed

text \<open>Whatever its result, an insertion adds no rule but the requested one.\<close>

lemma rollback_le:
  assumes "rollback_inserted_rule ctl c h st s = (r, st', s')"
  shows "active s' \<subseteq>\<^sub>m active s"
proof -
  obtain q s1 where q: "ctl_delete ctl h s = (q, s1)" by fastforce
  then have le: "active s1 \<subseteq>\<^sub>m active s"
    using delete_ok delete_err by (cases q) (fastforce simp: map_le_def)+
  obtain p s2 where p: "ctl_reset ctl s1 = (p, s2)" by fastforce
  have "active s2 \<subseteq>\<^sub>m active s1"
    using p reset_ok reset_err by (cases p) auto
  then show ?thesis
    using assms q p le by (auto simp: rollback_inserted_rule_def split: sum.splits intro: map_le_trans)
qed

lemma insert_grows:
  assumes "insert_rule_with_source_policy ctl ext env req policy st s = (r, st', s')"
    and "active s' g = Some e" and "active s g \<noteq> Some e"
  shows "\<exists>src dst. parse_ip (ar_src_ip req) = Some src
    \<and> resolve ext (ie_lookup_host env) (ar_destination req) = Inr dst
    \<and> e = nft_expression src dst (ar_protocol req) (ar_port req)
    \<and> owner_ok policy (ar_container req) (ie_owner_before env)"
proof -
  have ne: "s' \<noteq> s" using assms(2,3) by auto
  obtain x src assigned dst where p: "prepare_insert ext env req policy = Inr (x, src, assigned, dst)"
    using assms(1) ne by (cases "prepare_insert ext env req policy")
      (auto simp: insert_rule_with_source_policy_def)
  note prep = prepare_insert_Inr [OF p]
  obtain rs st1 where new: "insert_new ctl env req policy (x, src, assigned, dst) rs st1 s = (r, st', s')"
    using assms(1) ne p
    by (auto simp: insert_rule_with_source_policy_def insert_locked_def split: prod.splits option.splits)
  obtain q s1 where q: "ctl_insert ctl src dst (ar_protocol req) (ar_port req) s = (q, s1)" by fastforce
  have le: "active s' \<subseteq>\<^sub>m active s1"
    using new q ne rollback_le
    by (fastforce simp: insert_new_def Let_def split: if_splits sum.splits prod.splits)
  then have "active s1 g = Some e" using assms(2) by (auto simp: map_le_def dom_def)
  then have "e = nft_expression src dst (ar_protocol req) (ar_port req)"
    using assms(3) q insert_ok [of src dst _ _ s _ s1] insert_err [of src dst _ _ s _ s1]
    by (cases q) (auto split: if_splits)
  moreover have "owner_ok policy (ar_container req) (ie_owner_before env)"
    using prep by (cases policy) (auto simp: owner_ok_def)
  ultimately show ?thesis using prep by blast
qed

lemma watcher_sound:
  assumes "sound st s" and "watcher_step ctl event st s = (st', s')"
  shows "sound st' s'"
proof -
  have "sound (fst (snd (flush_all ctl st s))) (snd (snd (flush_all ctl st s)))"
    "sound (fst (snd (remove_container_rules ctl c st s))) (snd (snd (remove_container_rules ctl c st s)))"
    for c
    using flush_all_sound [OF assms(1)] remove_container_sound [OF assms(1)]
    by (metis prod.collapse)+
  then show ?thesis
    using assms by (auto simp: watcher_step_def prod_eq_iff split: received_event.splits
        container_event.splits if_splits)
qed

lemma step_sound:
  assumes "manager_step ctl ext (st, s) (st', s')" and "sound st s"
  shows "sound st' s'"
  using assms(1)
proof (cases rule: manager_step.cases)
  case (step_insert env req policy r)
  then show ?thesis using insert_sound assms(2) by blast
next
  case (step_event event)
  then show ?thesis using watcher_sound assms(2) by blast
next
  case (step_expiry now r)
  then show ?thesis using prune_expired_sound assms(2) by blast
next
  case (step_flush r)
  then show ?thesis using flush_all_sound assms(2) by blast
qed

lemma reachable_sound:
  assumes "(manager_step ctl ext)\<^sup>*\<^sup>* ([], s0) (st, s)" and "active s0 = Map.empty"
  shows "sound st s"
proof -
  have "case p of (st, s) \<Rightarrow> sound st s" if "(manager_step ctl ext)\<^sup>*\<^sup>* ([], s0) p" for p
    using that
  proof (induction rule: rtranclp_induct)
    case base
    then show ?case using assms(2) by simp
  next
    case (step y z)
    then show ?case using step_sound by (cases y; cases z) auto
  qed
  from this [OF assms(1)] show ?thesis by simp
qed

end

section \<open>A concrete manager\<close>

definition demo_net_ext :: net_ext where
  "demo_net_ext = \<lparr>ipnet_parse = (\<lambda>_. None), url_host_parse = (\<lambda>_. None)\<rparr>"

definition demo_kernel :: "nft_fault list \<Rightarrow> nft_kernel" where
  "demo_kernel faults = \<lparr>k_table = True, k_rules = [], k_faults = faults\<rparr>"

definition demo_insert_env :: insert_env where
  "demo_insert_env = \<lparr>ie_now = 0, ie_owner_before = Inr (Some ''web''),
     ie_lookup_host = (\<lambda>_. Lookup_Timed_Out), ie_inserted_at = Inr ''2026-01-01T00:00:00Z'',
     ie_owner_after = Inr (Some ''web'')\<rparr>"

definition demo_request :: allow_rule_request where
  "demo_request = \<lparr>ar_container = ''web'', ar_src_ip = ''10.42.0.2'', ar_destination = ''1.1.1.1'',
     ar_protocol = Some ''tcp'', ar_port = Some 443, ar_expires_in_secs = Some 60\<rparr>"

definition demo_dyn_rule :: dynamic_rule where
  "demo_dyn_rule = new_record demo_request 1 ''2026-01-01T00:00:00Z'' (Some (60 * 10 ^ 9))"

definition demo_expression :: "string list" where
  "demo_expression = nft_expression (V4 170524674) (show_ipv4 16843009) (Some ''tcp'') (Some 443)"

definition demo_kernel_after :: nft_kernel where
  "demo_kernel_after = \<lparr>k_table = True, k_rules = [(1, demo_expression)], k_faults = []\<rparr>"

lemma demo_parse: "parse_ip ''10.42.0.2'' = Some (V4 170524674)" "parse_ip ''1.1.1.1'' = Some (V4 16843009)"
  by (simp_all add: parse_ip_def plain_eval)

lemma demo_prepare:
  "prepare_insert demo_net_ext demo_insert_env demo_request policy =
     Inr (Some (60 * 10 ^ 9), V4 170524674, True, show_ipv4 16843009)"
  by (simp add: prepare_insert_def demo_request_def demo_insert_env_def check_protocol_def
      expiration_deadline_def MAX_DYNAMIC_RULE_TTL_SECS_def checked_add_secs_def map_err_def
      validate_source_owner_def resolve_def demo_parse)

lemma demo_not_ipv6: "\<not> is_ipv6_addr demo_net_ext (show_ipv4 a)"
  by (simp add: is_ipv6_addr_def demo_net_ext_def)

lemma demo_fresh: "fresh_handle (demo_kernel fs) = Some 1"
  by (simp add: fresh_handle_def demo_kernel_def)

lemma demo_nft_insert:
  "nft_insert demo_net_ext sim_nft (V4 170524674) (show_ipv4 16843009) (Some ''tcp'') (Some 443)
     (demo_kernel []) = (Inr 1, demo_kernel_after)"
proof -
  have "parse_nft_handle (''insert rule inet outcall forward '' @ ''# handle ''
      @ show_nat (unat (1 :: u64)) @ [nl]) = Some 1"
    by (rule parse_nft_handle_echo) simp_all
  then show ?thesis
    using demo_fresh [of "[]"]
    by (simp add: nft_insert_def demo_not_ipv6 sim_nft_def sim_insert_apply demo_kernel_def
        demo_kernel_after_def demo_expression_def)
qed

lemma demo_insert:
  "insert_managed_rule (system_nft demo_net_ext sim_nft demo_bridge) demo_net_ext demo_insert_env
     demo_request [] (demo_kernel []) = (Inr 1, [(''web'', [demo_dyn_rule])], demo_kernel_after)"
proof -
  have c: "check_owner_after demo_insert_env demo_request Require_Managed True = Inr ()"
    by (simp add: check_owner_after_Inr) (simp add: demo_insert_env_def demo_request_def)
  show ?thesis
    using demo_nft_insert c
    by (simp add: insert_managed_rule_def insert_rule_with_source_policy_def demo_prepare
        insert_locked_def entry_or_default_def insert_new_def MAX_DYNAMIC_RULES_PER_CONTAINER_def
        system_nft_def demo_dyn_rule_def)
      (simp add: demo_insert_env_def demo_request_def)
qed

lemma demo_active:
  "k_active (demo_kernel fs) = Map.empty" "k_active demo_kernel_after = [1 \<mapsto> demo_expression]"
  by (simp_all add: k_active_def demo_kernel_def demo_kernel_after_def)

lemma demo_reach:
  "(manager_step (system_nft demo_net_ext sim_nft demo_bridge) demo_net_ext)\<^sup>*\<^sup>*
     ([], demo_kernel []) ([(''web'', [demo_dyn_rule])], demo_kernel_after)"
proof -
  have "manager_step (system_nft demo_net_ext sim_nft demo_bridge) demo_net_ext
      ([], demo_kernel []) ([(''web'', [demo_dyn_rule])], demo_kernel_after)"
    using demo_insert by (auto simp: insert_managed_rule_def intro: step_insert)
  then show ?thesis by blast
qed

section \<open>Properties\<close>








end
