(* ===== verification/Dns_Handler.thy ===== *)
theory Dns_Handler
  imports Rule_Engine Agent_Context Dns_Cache Dynamic_Rules
begin

text \<open>
  The DNS filter (outcalld/src/dns/handler.rs, and the counters, the cache operations and the option
  parsing of outcalld/src/dns/mod.rs and dns/resolver.rs). A query is answered only for a managed peer
  whose request the rule engine allows; the answer is filtered by the address policy and may open
  direct connections through the dynamic rules. The DNS library and the upstream resolver are
  parameters: a query arrives parsed, and a lookup is a function. Sending the response is the last
  step; the response is the result.
\<close>

section \<open>State\<close>

record dns_counters =
  dc_queries_total :: nat
  dc_queries_allowed :: nat
  dc_queries_blocked :: nat
  dc_cache_hits :: nat
  dc_cache_misses :: nat
  dc_cache_evictions :: nat

text \<open>\<open>fetch_add\<close> on an \<open>AtomicU64\<close> wraps around.\<close>

definition bump :: "nat \<Rightarrow> nat" where
  "bump n = (n + 1) mod 2 ^ 64"

definition counters_new :: dns_counters where
  "counters_new = \<lparr>dc_queries_total = 0, dc_queries_allowed = 0, dc_queries_blocked = 0,
     dc_cache_hits = 0, dc_cache_misses = 0, dc_cache_evictions = 0\<rparr>"

record ('c, 's) dns_state =
  ds_cache :: 'c
  ds_counters :: dns_counters
  ds_dynamic :: dyn_state
  ds_kernel :: 's

text \<open>
  What the handler is built from: the rule set it evaluates, the CEL interpreter, the cache library,
  the firewall controller with its network library, and whether a peer must be a managed container.
\<close>

record ('x, 'p, 'c, 's) dns_handler =
  dh_cel :: "('x, 'p) cel_ops"
  dh_engine :: "'p rule_engine"
  dh_lru :: "'c dns_lru"
  dh_ctl :: "'s nft_ops"
  dh_net :: net_ext
  dh_require_managed_peer :: bool

text \<open>
  A parsed query: its name as text (the library escapes what is not ASCII), its type and the text of
  that type, the source; \<open>None\<close> when the message has no single query. And what the handler meets while it works:
  Docker's answer on the source, the clock, the upstream answer, and the surroundings of each
  insertion.
\<close>

record dns_query_info =
  qi_name :: string
  qi_type :: nat
  qi_type_name :: string
  qi_source :: ip_addr

record dns_env =
  de_container :: "(string, string option) result"
  de_now :: nat
  de_lookup :: "dns_record list option"
  de_insert :: "string \<Rightarrow> u16 \<Rightarrow> insert_env"

datatype dns_response =
    Invalid_Request
  | Refused
  | Nx_Domain
  | Serv_Fail
  | Answer "dns_record list"

section \<open>Direct connections\<close>

definition direct_rule_ttl :: "dns_record list \<Rightarrow> nat option" where
  "direct_rule_ttl records =
     (case min_ttl records of
        None \<Rightarrow> None
      | Some t \<Rightarrow> let t = min t MAX_TTL_SECS in if 0 < t then Some t else None)"

definition matching_direct_destinations :: "ip_addr \<Rightarrow> dns_record list \<Rightarrow> string list \<times> nat" where
  "matching_direct_destinations source records =
     (let ipv4 = extract_ipv4_destinations records; ipv6 = extract_ipv6_destinations records
      in if \<not> is_ipv6 source then (ipv4, length ipv6) else (ipv6, length ipv4))"

definition direct_request :: "string \<Rightarrow> string \<Rightarrow> string \<Rightarrow> u16 \<Rightarrow> nat \<Rightarrow> allow_rule_request" where
  "direct_request container source_ip destination port expires_in_secs =
     \<lparr>ar_container = container, ar_src_ip = source_ip, ar_destination = destination,
      ar_protocol = Some ''tcp'', ar_port = Some port, ar_expires_in_secs = Some expires_in_secs\<rparr>"

text \<open>Failures of an insertion are logged and skipped.\<close>

definition insert_direct_rules ::
  "'s nft_ops \<Rightarrow> net_ext \<Rightarrow> (string \<Rightarrow> u16 \<Rightarrow> insert_env) \<Rightarrow> string \<Rightarrow> string \<Rightarrow> string
    \<Rightarrow> u16 list \<Rightarrow> nat \<Rightarrow> dyn_state \<times> 's \<Rightarrow> dyn_state \<times> 's" where
  "insert_direct_rules ctl net ienv container source_ip destination ports expires_in_secs st =
     fold (\<lambda>port (st, s).
       snd (insert_managed_rule ctl net (ienv destination port)
              (direct_request container source_ip destination port expires_in_secs) st s)) ports st"

definition direct_ports :: "egress_spec \<Rightarrow> u16 list" where
  "direct_ports egress = (if eg_ports egress = [] then [80, 443] else eg_ports egress)"

definition apply_direct_ip_policy ::
  "'s nft_ops \<Rightarrow> net_ext \<Rightarrow> (string \<Rightarrow> u16 \<Rightarrow> insert_env) \<Rightarrow> ip_addr \<Rightarrow> egress_spec
    \<Rightarrow> dns_record list \<Rightarrow> string option \<Rightarrow> dyn_state \<times> 's \<Rightarrow> dyn_state \<times> 's" where
  "apply_direct_ip_policy ctl net ienv source egress records container_name st =
     (case container_name of
        None \<Rightarrow> st
      | Some container \<Rightarrow>
          (case direct_rule_ttl records of
             None \<Rightarrow> st
           | Some expires_in_secs \<Rightarrow>
               fold (\<lambda>destination.
                 insert_direct_rules ctl net ienv container (show_ip source) destination
                   (direct_ports egress) expires_in_secs)
                 (fst (matching_direct_destinations source records)) st))"

definition apply_egress_policy ::
  "'s nft_ops \<Rightarrow> net_ext \<Rightarrow> (string \<Rightarrow> u16 \<Rightarrow> insert_env) \<Rightarrow> ip_addr \<Rightarrow> egress_spec option
    \<Rightarrow> dns_record list \<Rightarrow> string option \<Rightarrow> dyn_state \<times> 's \<Rightarrow> dyn_state \<times> 's" where
  "apply_egress_policy ctl net ienv source egress records container_name st =
     (case egress of
        None \<Rightarrow> st
      | Some e \<Rightarrow>
          (case eg_mode e of
             Proxy \<Rightarrow> st
           | Intercept \<Rightarrow> st
           | DirectIp \<Rightarrow> apply_direct_ip_policy ctl net ienv source e records container_name st))"

section \<open>The handler\<close>

definition enforce_and_send ::
  "('x, 'p, 'c, 's) dns_handler \<Rightarrow> dns_env \<Rightarrow> ip_addr \<Rightarrow> egress_spec option \<Rightarrow> string option
    \<Rightarrow> dns_record list \<Rightarrow> ('c, 's) dns_state \<Rightarrow> dns_response \<times> ('c, 's) dns_state" where
  "enforce_and_send h env source egress container_name records st =
     (let allow_private_ips = (case egress of Some e \<Rightarrow> eg_allow_private_ips e | None \<Rightarrow> False);
          counters = ds_counters st
      in case apply_address_policy records allow_private_ips of
           Restricted_Only \<Rightarrow>
             (Serv_Fail, st\<lparr>ds_counters := counters
                \<lparr>dc_queries_blocked := bump (dc_queries_blocked counters)\<rparr>\<rparr>)
         | Allowed records \<Rightarrow>
             (case apply_egress_policy (dh_ctl h) (dh_net h) (de_insert env) source egress records
                     container_name (ds_dynamic st, ds_kernel st) of
                (dyn, k) \<Rightarrow>
                  (Answer records, st\<lparr>ds_counters := counters
                     \<lparr>dc_queries_allowed := bump (dc_queries_allowed counters)\<rparr>,
                     ds_dynamic := dyn, ds_kernel := k\<rparr>)))"

definition count_blocked :: "('c, 's) dns_state \<Rightarrow> ('c, 's) dns_state" where
  "count_blocked st = st\<lparr>ds_counters := (ds_counters st)
     \<lparr>dc_queries_blocked := bump (dc_queries_blocked (ds_counters st))\<rparr>\<rparr>"

definition ends_with :: "string \<Rightarrow> string \<Rightarrow> bool" where
  "ends_with s t \<longleftrightarrow> suffix t s"

definition dns_eval_context :: "dns_query_info \<Rightarrow> string option \<Rightarrow> eval_context" where
  "dns_eval_context q container_name =
     default_eval_context\<lparr>ev_dns := Some \<lparr>dns_query = qi_name q, dns_record_type = qi_type_name q\<rparr>,
       ev_agent := map_option (\<lambda>c. \<lparr>ag_name = derive_agent_name c\<rparr>) container_name\<rparr>"

text \<open>The cache and, when it has no answer, the upstream resolver.\<close>

definition answer_query ::
  "('x, 'p, 'c, 's) dns_handler \<Rightarrow> dns_env \<Rightarrow> dns_query_info \<Rightarrow> egress_spec option \<Rightarrow> string option
    \<Rightarrow> ('c, 's) dns_state \<Rightarrow> dns_response \<times> ('c, 's) dns_state" where
  "answer_query h env q egress container_name st =
     (case cache_get (dh_lru h) (de_now env) (qi_name q) (qi_type q) (ds_cache st) of
        (Some records, cache) \<Rightarrow>
          enforce_and_send h env (qi_source q) egress container_name records
            (st\<lparr>ds_cache := cache, ds_counters := (ds_counters st)
               \<lparr>dc_cache_hits := bump (dc_cache_hits (ds_counters st))\<rparr>\<rparr>)
      | (None, cache) \<Rightarrow>
          (let st = st\<lparr>ds_cache := cache, ds_counters := (ds_counters st)
                 \<lparr>dc_cache_misses := bump (dc_cache_misses (ds_counters st))\<rparr>\<rparr>
           in case de_lookup env of
                None \<Rightarrow> (Serv_Fail, st)
              | Some records \<Rightarrow>
                  (case cache_insert (dh_lru h) (de_now env) (qi_name q) (qi_type q)
                          (qi_type_name q) records (ds_cache st) of
                     (evicted, cache) \<Rightarrow>
                       enforce_and_send h env (qi_source q) egress container_name records
                         (st\<lparr>ds_cache := cache, ds_counters := (ds_counters st)
                            \<lparr>dc_cache_evictions := (if evicted
                               then bump (dc_cache_evictions (ds_counters st))
                               else dc_cache_evictions (ds_counters st))\<rparr>\<rparr>))))"

text \<open>The host name and type name the rules and the cache see.\<close>

definition normalize_query :: "dns_query_info \<Rightarrow> dns_query_info" where
  "normalize_query q =
     q\<lparr>qi_name := map to_ascii_lower (trim_end_matches CHR ''.'' (qi_name q)),
       qi_type_name := map to_ascii_upper (qi_type_name q)\<rparr>"

definition handle_request ::
  "('x, 'p, 'c, 's) dns_handler \<Rightarrow> dns_env \<Rightarrow> dns_query_info option \<Rightarrow> ('c, 's) dns_state
    \<Rightarrow> dns_response \<times> ('c, 's) dns_state" where
  "handle_request h env query st =
     (case query of
        None \<Rightarrow> (Invalid_Request, st)
      | Some q \<Rightarrow>
          (let q = normalize_query q;
               st = st\<lparr>ds_counters := (ds_counters st)
                 \<lparr>dc_queries_total := bump (dc_queries_total (ds_counters st))\<rparr>\<rparr>;
               peer = (case de_container env of
                         Inr (Some name) \<Rightarrow> Some (Some name)
                       | _ \<Rightarrow> if dh_require_managed_peer h then None else Some None)
           in case peer of
                None \<Rightarrow> (Refused, count_blocked st)
              | Some container_name \<Rightarrow>
                  if ends_with (qi_name q) ''.local'' then (Nx_Domain, st)
                  else
                    let evaluated = evaluate_with_egress (dh_cel h) (dh_engine h)
                          (dns_eval_context q container_name)
                    in if er_decision (rv_result evaluated) = Block
                       then (Nx_Domain, count_blocked st)
                       else answer_query h env q (rv_egress evaluated) container_name st))"

definition flush_cache :: "'c dns_lru \<Rightarrow> ('c, 's) dns_state \<Rightarrow> nat \<times> ('c, 's) dns_state" where
  "flush_cache ops st =
     (case cache_clear ops (ds_cache st) of (n, cache) \<Rightarrow> (n, st\<lparr>ds_cache := cache\<rparr>))"

section \<open>Options (dns/resolver.rs, dns/mod.rs)\<close>

definition parse_upstream :: "string \<Rightarrow> (ip_addr \<times> u16) option" where
  "parse_upstream part =
     (let part = trim part
      in case parse_ip part of
           Some ip \<Rightarrow> Some (ip, 53)
         | None \<Rightarrow> parse_socket_addr part)"

definition parse_upstream_arg :: "string \<Rightarrow> (ip_addr \<times> u16) list" where
  "parse_upstream_arg argument =
     (if argument = [] then [] else List.map_filter parse_upstream (split_on CHR '','' argument))"

text \<open>The name servers of the text of /etc/resolv.conf.\<close>

definition parse_resolv_conf :: "string \<Rightarrow> (ip_addr \<times> u16) list" where
  "parse_resolv_conf text =
     List.map_filter (\<lambda>line.
       case strip_prefix ''nameserver'' (trim line) of
         None \<Rightarrow> None
       | Some rest \<Rightarrow> map_option (\<lambda>ip. (ip, 53)) (parse_ip (trim rest))) (str_lines text)"

definition effective_upstreams ::
  "string \<Rightarrow> (ip_addr \<times> u16) list \<Rightarrow> (ip_addr \<times> u16) list" where
  "effective_upstreams resolv_conf upstreams =
     (if upstreams = [] then
        (let parsed = parse_resolv_conf resolv_conf
         in if parsed = [] then [(V4 (ipv4_new 8 8 8 8), 53)] else parsed)
      else upstreams)"

definition container_resolv_conf :: "string \<Rightarrow> string" where
  "container_resolv_conf gateway_ip =
     ''# Generated by outcalld -- do not edit'' @ [nl] @ ''nameserver '' @ gateway_ip @ [nl]
     @ ''options ndots:0'' @ [nl]"

definition tcp_bind_address :: "ip_addr \<times> u16 \<Rightarrow> ip_addr \<times> u16 \<Rightarrow> ip_addr \<times> u16" where
  "tcp_bind_address requested udp_bound = (if snd requested = 0 then udp_bound else requested)"

section \<open>What a query may open\<close>

text \<open>The expressions that are in the kernel afterwards and were not there before.\<close>

definition opened :: "(u64 \<rightharpoonup> string list) \<Rightarrow> (u64 \<rightharpoonup> string list) \<Rightarrow> string list set" where
  "opened before after = {e. \<exists>g. after g = Some e \<and> before g \<noteq> Some e}"

lemma opened_same [simp]: "opened m m = {}"
  by (auto simp: opened_def)

lemma opened_trans: "opened a b \<subseteq> X \<Longrightarrow> opened b c \<subseteq> X \<Longrightarrow> opened a c \<subseteq> X"
  unfolding opened_def by blast

text \<open>The accept rules one answer may ask for: this source, its A records, the ports of the rule.\<close>

definition direct_expressions :: "ipv4 \<Rightarrow> dns_record list \<Rightarrow> u16 list \<Rightarrow> string list set" where
  "direct_expressions src records ports =
     {nft_expression (V4 src) (show_ipv4 a) (Some ''tcp'') (Some port) | a port.
        RA a \<in> rr_data ` set records \<and> port \<in> set ports}"

lemma set_map_filter: "set (List.map_filter f xs) = {y. \<exists>x \<in> set xs. f x = Some y}"
  by (induction xs) (auto simp: map_filter_simps split: option.splits)

lemma extract_ipv4_destinations_mem:
  "d \<in> set (extract_ipv4_destinations records) \<longleftrightarrow>
     (\<exists>r \<in> set records. \<exists>a. rr_data r = RA a \<and> d = show_ipv4 a)"
proof -
  have "(case rr_data r of RA b \<Rightarrow> Some (show_ipv4 b) | _ \<Rightarrow> None) = Some d
      \<longleftrightarrow> (\<exists>a. rr_data r = RA a \<and> d = show_ipv4 a)" for r
    by (cases "rr_data r") auto
  then show ?thesis
    unfolding extract_ipv4_destinations_def remdups_adj_set set_sort set_map_filter by blast
qed

lemma resolve_show_ipv4 [simp]: "resolve ext l (show_ipv4 a) = Inr (show_ipv4 a)"
  by (simp add: resolve_def show_ipv4_no_slash)

context nft_controller
begin

abbreviation grants_only :: "string list set \<Rightarrow> 's \<Rightarrow> dyn_state \<times> 's \<Rightarrow> bool" where
  "grants_only X s0 p \<equiv> sound (fst p) (snd p) \<and> opened (active s0) (active (snd p)) \<subseteq> X"

lemma insert_direct_grants:
  assumes "grants_only (direct_expressions src records ports) s0 p"
    and "RA a \<in> rr_data ` set records"
  shows "grants_only (direct_expressions src records ports) s0
    (insert_direct_rules ctl ext ienv c (show_ip (V4 src)) (show_ipv4 a) ports ttl p)"
  unfolding insert_direct_rules_def
proof (rule fold_invariant [where Q = "\<lambda>port. port \<in> set ports"])
  fix port q
  assume port: "port \<in> set ports" and q: "grants_only (direct_expressions src records ports) s0 q"
  obtain st s where [simp]: "q = (st, s)" by fastforce
  let ?req = "direct_request c (show_ip (V4 src)) (show_ipv4 a) port ttl"
  obtain r st' s' where ins: "insert_managed_rule ctl ext (ienv (show_ipv4 a) port) ?req st s
      = (r, st', s')" by (metis prod_cases3)
  note ins' = ins [unfolded insert_managed_rule_def]
  have "sound st' s'" using insert_sound [OF _ ins'] q by simp
  moreover have "opened (active s) (active s') \<subseteq> direct_expressions src records ports"
    using insert_grows [OF ins'] assms(2) port
    by (fastforce simp: opened_def direct_request_def direct_expressions_def)
  ultimately show "grants_only (direct_expressions src records ports) s0
      ((\<lambda>(st, s). snd (insert_managed_rule ctl ext (ienv (show_ipv4 a) port) ?req st s)) q)"
    using ins q opened_trans [of "active s0" "active s"] by simp
qed (use assms in simp_all)

lemma apply_egress_grants:
  assumes "sound (fst p) (snd p)"
  shows "grants_only
      (case egress of
         Some e \<Rightarrow> if eg_mode e = DirectIp \<and> c \<noteq> None
                   then direct_expressions src records (direct_ports e) else {}
       | None \<Rightarrow> {}) (snd p)
      (apply_egress_policy ctl ext ienv (V4 src) egress records c p)"
proof (cases "\<exists>e name ttl. egress = Some e \<and> eg_mode e = DirectIp \<and> c = Some name
    \<and> direct_rule_ttl records = Some ttl")
  case True
  then obtain e name ttl where [simp]: "egress = Some e" "eg_mode e = DirectIp" "c = Some name"
    "direct_rule_ttl records = Some ttl" by blast
  let ?ok = "grants_only (direct_expressions src records (direct_ports e)) (snd p)"
  have "?ok (insert_direct_rules ctl ext ienv name (show_ip (V4 src)) d (direct_ports e) ttl q)"
    if "d \<in> set (extract_ipv4_destinations records)" and "?ok q" for d q
  proof -
    from that(1) obtain a where "RA a \<in> rr_data ` set records" "d = show_ipv4 a"
      unfolding extract_ipv4_destinations_mem by (metis image_eqI)
    then show ?thesis using insert_direct_grants [OF that(2)] by blast
  qed
  then have "?ok (fold (\<lambda>d. insert_direct_rules ctl ext ienv name (show_ip (V4 src)) d
      (direct_ports e) ttl) (extract_ipv4_destinations records) p)"
    by (rule fold_invariant [where Q = "\<lambda>d. d \<in> set (extract_ipv4_destinations records)", rotated 2])
      (use assms in simp_all)
  then show ?thesis
    by (simp add: apply_egress_policy_def apply_direct_ip_policy_def matching_direct_destinations_def
        Let_def)
next
  case False
  then have "apply_egress_policy ctl ext ienv (V4 src) egress records c p = p"
    by (auto simp: apply_egress_policy_def apply_direct_ip_policy_def split: option.splits
        egress_mode.splits)
  with assms show ?thesis by simp
qed

end

section \<open>Branches of the handler\<close>

text \<open>The container a query is attributed to; \<open>None\<close> when the query is refused.\<close>

definition query_peer :: "('x, 'p, 'c, 's) dns_handler \<Rightarrow> dns_env \<Rightarrow> string option option" where
  "query_peer h env =
     (case de_container env of
        Inr (Some name) \<Rightarrow> Some (Some name)
      | _ \<Rightarrow> if dh_require_managed_peer h then None else Some None)"

definition query_rule ::
  "('x, 'p, 'c, 's) dns_handler \<Rightarrow> dns_query_info \<Rightarrow> string option \<Rightarrow> 'p compiled_rule option" where
  "query_rule h q peer =
     deciding_rule (dh_cel h) (re_rule_set (dh_engine h)) (dns_eval_context (normalize_query q) peer)"

text \<open>
  Either the query is turned away with nothing but counters changed, or an allow rule decided it and
  it is answered under that rule's egress metadata.
\<close>

lemma handle_request_cases:
  assumes "wf_rule_set ext (re_rule_set (dh_engine h))"
    and "handle_request h env query st = (resp, st')"
  obtains (turned_away) "resp = Invalid_Request \<or> resp = Refused \<or> resp = Nx_Domain"
      "ds_cache st' = ds_cache st" "ds_dynamic st' = ds_dynamic st" "ds_kernel st' = ds_kernel st"
  | (allowed) q peer r st1 where "query = Some q" "query_peer h env = Some peer"
      "\<not> ends_with (qi_name (normalize_query q)) ''.local''"
      "query_rule h q peer = Some r" "cr_action r = Rule_Allow"
      "ds_cache st1 = ds_cache st" "ds_dynamic st1 = ds_dynamic st" "ds_kernel st1 = ds_kernel st"
      "answer_query h env (normalize_query q) (cr_egress r) peer st1 = (resp, st')"
proof (cases "\<exists>q peer r. query = Some q \<and> query_peer h env = Some peer
    \<and> \<not> ends_with (qi_name (normalize_query q)) ''.local''
    \<and> query_rule h q peer = Some r \<and> cr_action r = Rule_Allow")
  case True
  then obtain q peer r where a: "query = Some q" "query_peer h env = Some peer"
    "\<not> ends_with (qi_name (normalize_query q)) ''.local''" "query_rule h q peer = Some r"
    "cr_action r = Rule_Allow" by blast
  note ev = evaluate_with_egress_deciding [OF assms(1), of "dh_cel h"
      "dns_eval_context (normalize_query q) peer"]
  show ?thesis
    using assms(2) a
    by (intro allowed [OF a, of "st\<lparr>ds_counters := (ds_counters st)
        \<lparr>dc_queries_total := bump (dc_queries_total (ds_counters st))\<rparr>\<rparr>"])
      (simp_all add: handle_request_def Let_def query_peer_def [symmetric] evaluate_with_egress_def ev
        query_rule_def verdict_of_def snapshot_def)
next
  case False
  show ?thesis
  proof (cases query)
    case None
    with assms(2) show ?thesis by (intro turned_away) (simp_all add: handle_request_def)
  next
    case (Some q)
    show ?thesis
    proof (cases "query_peer h env")
      case None
      with Some assms(2) show ?thesis
        by (intro turned_away)
          (auto simp: handle_request_def Let_def query_peer_def [symmetric] count_blocked_def)
    next
      case (Some peer)
      note ev = evaluate_with_egress_deciding [OF assms(1), of "dh_cel h"
          "dns_eval_context (normalize_query q) peer"]
      have "query_rule h q peer = Some r \<Longrightarrow> cr_action r \<noteq> Rule_Allow \<or>
          ends_with (qi_name (normalize_query q)) ''.local''" for r
        using False Some \<open>query = Some q\<close> by blast
      with Some \<open>query = Some q\<close> assms(2) show ?thesis
        by (intro turned_away)
          (auto simp: handle_request_def Let_def query_peer_def [symmetric] count_blocked_def
            evaluate_with_egress_def ev query_rule_def verdict_of_def blocked_result_def
            snapshot_def
            split: option.splits if_splits rule_action.splits)
    qed
  qed
qed

lemma enforce_and_send_cases:
  assumes "enforce_and_send h env source egress peer records st = (resp, st')"
  obtains (no_address) "resp = Serv_Fail" "ds_cache st' = ds_cache st" "ds_dynamic st' = ds_dynamic st"
      "ds_kernel st' = ds_kernel st"
  | (answered) kept where "resp = Answer kept"
      "apply_address_policy records
         (case egress of Some e \<Rightarrow> eg_allow_private_ips e | None \<Rightarrow> False) = Allowed kept"
      "ds_cache st' = ds_cache st"
      "apply_egress_policy (dh_ctl h) (dh_net h) (de_insert env) source egress kept peer
         (ds_dynamic st, ds_kernel st) = (ds_dynamic st', ds_kernel st')"
  using assms
  by (cases "apply_address_policy records
        (case egress of Some e \<Rightarrow> eg_allow_private_ips e | None \<Rightarrow> False)")
    (auto simp: enforce_and_send_def Let_def split: prod.splits)

lemma enforce_and_send_grants:
  assumes "nft_controller (dh_ctl h) active"
    and "enforce_and_send h env (V4 src) egress peer rs t = (resp, t')"
    and "wf_dyn (ds_dynamic t)" and "tracked (active (ds_kernel t)) (ds_dynamic t)"
  shows "wf_dyn (ds_dynamic t') \<and> tracked (active (ds_kernel t')) (ds_dynamic t')
    \<and> (\<forall>x \<in> opened (active (ds_kernel t)) (active (ds_kernel t')).
        \<exists>records name e. resp = Answer records \<and> peer = Some name
          \<and> egress = Some e \<and> eg_mode e = DirectIp
          \<and> x \<in> direct_expressions src records (direct_ports e))"
  using assms(2)
proof (cases rule: enforce_and_send_cases)
  case (answered kept)
  from nft_controller.apply_egress_grants [OF assms(1), where p = "(ds_dynamic t, ds_kernel t)"
      and egress = egress and c = peer and src = src and records = kept and ext = "dh_net h"
      and ienv = "de_insert env"] assms(3,4) answered
  show ?thesis by (auto split: option.splits if_splits)
qed (use assms in simp)

lemma enforce_and_send_kept:
  assumes "enforce_and_send h env source egress peer rs t = (resp, t')"
  shows "ds_cache t' = ds_cache t \<and> (\<forall>records. resp = Answer records \<longrightarrow> set records \<subseteq> set rs)"
  using assms
proof (cases rule: enforce_and_send_cases)
  case (answered kept)
  with apply_address_policy_Allowed [OF answered(2)] show ?thesis by simp
qed simp

text \<open>An answer comes from the cache or from the upstream resolver.\<close>

lemma answer_query_cases:
  assumes "answer_query h env q egress peer st = (resp, st')"
  obtains (upstream_failed) c where "resp = Serv_Fail" "de_lookup env = None"
      "cache_get (dh_lru h) (de_now env) (qi_name q) (qi_type q) (ds_cache st) = (None, c)"
      "ds_cache st' = c" "ds_dynamic st' = ds_dynamic st" "ds_kernel st' = ds_kernel st"
  | (hit) records st1 where
      "cache_get (dh_lru h) (de_now env) (qi_name q) (qi_type q) (ds_cache st)
         = (Some records, ds_cache st1)"
      "ds_dynamic st1 = ds_dynamic st" "ds_kernel st1 = ds_kernel st"
      "enforce_and_send h env (qi_source q) egress peer records st1 = (resp, st')"
  | (resolved) records st1 c evicted where "de_lookup env = Some records"
      "cache_get (dh_lru h) (de_now env) (qi_name q) (qi_type q) (ds_cache st) = (None, c)"
      "cache_insert (dh_lru h) (de_now env) (qi_name q) (qi_type q) (qi_type_name q) records c
         = (evicted, ds_cache st1)"
      "ds_dynamic st1 = ds_dynamic st" "ds_kernel st1 = ds_kernel st"
      "enforce_and_send h env (qi_source q) egress peer records st1 = (resp, st')"
proof -
  obtain found c where g: "cache_get (dh_lru h) (de_now env) (qi_name q) (qi_type q) (ds_cache st)
      = (found, c)" by fastforce
  show thesis
  proof (cases found)
    case (Some records)
    with assms g show ?thesis by (intro hit) (simp_all add: answer_query_def)
  next
    case None
    note n = this
    show ?thesis
    proof (cases "de_lookup env")
      case None
      with assms g n show ?thesis by (intro upstream_failed) (auto simp: answer_query_def Let_def)
    next
      case (Some records)
      obtain ev c' where "cache_insert (dh_lru h) (de_now env) (qi_name q) (qi_type q)
          (qi_type_name q) records c = (ev, c')" by fastforce
      with assms g n Some show ?thesis
        by (intro resolved) (simp_all add: answer_query_def Let_def)
    qed
  qed
qed

section \<open>Properties\<close>

text \<open>
  C3: A name is answered only under an allow rule. When the handler sends records, the message held
  one query, the peer was identified as a managed container whenever that is required, the name is not
  an mDNS name, the first rule that matches the normalised name, type and agent is an allow rule, and
  unless that rule's egress allows private addresses no A or AAAA record of the answer carries a
  restricted address.
\<close>

theorem dns_answer_authorised:
  assumes "wf_rule_set ext (re_rule_set (dh_engine h))"
    and "handle_request h env query st = (Answer records, st')"
  shows "\<exists>q peer r. query = Some q \<and> query_peer h env = Some peer
    \<and> (peer = None \<longrightarrow> \<not> dh_require_managed_peer h)
    \<and> (\<forall>name. peer = Some name \<longrightarrow> de_container env = Inr (Some name))
    \<and> \<not> ends_with (qi_name (normalize_query q)) ''.local''
    \<and> query_rule h q peer = Some r \<and> cr_action r = Rule_Allow
    \<and> ((\<forall>e. cr_egress r = Some e \<longrightarrow> \<not> eg_allow_private_ips e) \<longrightarrow>
        (\<forall>x \<in> set records. \<forall>a. record_address x = Some a \<longrightarrow> \<not> is_restricted a))"
  using assms
proof (cases rule: handle_request_cases)
  case (allowed q peer r st1)
  let ?p = "case cr_egress r of Some e \<Rightarrow> eg_allow_private_ips e | None \<Rightarrow> False"
  have "\<exists>rs. apply_address_policy rs ?p = Allowed records"
    using allowed(9) by (cases rule: answer_query_cases) (auto elim: enforce_and_send_cases)
  then have "\<not> ?p \<Longrightarrow> \<forall>x \<in> set records. \<forall>a. record_address x = Some a \<longrightarrow> \<not> is_restricted a"
    using apply_address_policy_Allowed by blast
  moreover have "(\<forall>e. cr_egress r = Some e \<longrightarrow> \<not> eg_allow_private_ips e) \<Longrightarrow> \<not> ?p"
    by (simp split: option.splits)
  moreover have "peer = None \<longrightarrow> \<not> dh_require_managed_peer h"
    "\<forall>name. peer = Some name \<longrightarrow> de_container env = Inr (Some name)"
    using allowed(2) by (auto simp: query_peer_def split: sum.splits option.splits if_splits)
  ultimately show ?thesis using allowed by blast
qed simp


text \<open>
  The entries of a cache are old ones or the given answer under the given key; an answer served from an
  entry carries its data and what is left of its time to live.
\<close>

definition cached_from ::
  "dns_env \<Rightarrow> cache_key \<Rightarrow> (cache_key \<rightharpoonup> cache_entry) \<Rightarrow> (cache_key \<rightharpoonup> cache_entry) \<Rightarrow> bool" where
  "cached_from env key old new \<longleftrightarrow> (\<forall>k e. new k = Some e \<longrightarrow>
     old k = Some e \<or> k = key \<and> de_lookup env = Some (ce_records e) \<and> ce_inserted_at e = de_now env)"

definition live_answer :: "dns_env \<Rightarrow> cache_entry \<Rightarrow> dns_record list \<Rightarrow> bool" where
  "live_answer env e records \<longleftrightarrow> \<not> entry_expired (de_now env) e
     \<and> (\<forall>x \<in> set records. rr_data x \<in> rr_data ` set (ce_records e) \<and> 0 < rr_ttl x
          \<and> rr_ttl x = ce_effective_ttl e - (de_now env - ce_inserted_at e) div 10 ^ 9)"

lemma cached_from_le: "new \<subseteq>\<^sub>m old \<Longrightarrow> cached_from env key old new"
  unfolding cached_from_def map_le_def by (metis domI)

lemma live_answer_subset: "live_answer env e rs \<Longrightarrow> set records \<subseteq> set rs \<Longrightarrow> live_answer env e records"
  unfolding live_answer_def by blast

lemma cache_hit_live:
  assumes "lru ops" and "wf_cache ops c" and "cache_get ops (de_now env) n t c = (Some rs, c')"
  obtains e where "map_of (lru_iter ops c) (n, t) = Some e" "live_answer env e rs"
proof -
  obtain e where e: "map_of (lru_iter ops c) (n, t) = Some e" "\<not> entry_expired (de_now env) e"
    "map rr_data rs = map rr_data (ce_records e)" "\<forall>x \<in> set rs. rr_ttl x
      = ce_effective_ttl e - (de_now env - ce_inserted_at e) div 10 ^ 9 \<and> 0 < rr_ttl x"
    using cache_get_sound [OF assms] by auto
  have "\<forall>x \<in> set rs. rr_data x \<in> rr_data ` set (ce_records e)"
    using arg_cong [OF e(3), of set] by (metis image_eqI image_set)
  with e that show thesis unfolding live_answer_def by blast
qed

lemma answer_query_cache:
  assumes "lru (dh_lru h)" and "wf_cache (dh_lru h) (ds_cache st)"
    and "answer_query h env q egress peer st = (resp, st')"
  shows "wf_cache (dh_lru h) (ds_cache st')
    \<and> cached_from env (qi_name q, qi_type q) (map_of (lru_iter (dh_lru h) (ds_cache st)))
        (map_of (lru_iter (dh_lru h) (ds_cache st')))
    \<and> (\<forall>records. resp = Answer records \<longrightarrow>
        (\<exists>given. de_lookup env = Some given \<and> set records \<subseteq> set given)
        \<or> (\<exists>e. map_of (lru_iter (dh_lru h) (ds_cache st)) (qi_name q, qi_type q) = Some e
            \<and> live_answer env e records))"
  using assms(3)
proof (cases rule: answer_query_cases)
  case (upstream_failed c)
  with cache_get_sound [OF assms(1,2) upstream_failed(3)] cached_from_le show ?thesis by simp
next
  case (hit rs st2)
  note g = cache_get_sound [OF assms(1,2) hit(1)] and kept = enforce_and_send_kept [OF hit(4)]
  obtain e where "map_of (lru_iter (dh_lru h) (ds_cache st)) (qi_name q, qi_type q) = Some e"
    "live_answer env e rs" using cache_hit_live [OF assms(1,2) hit(1)] .
  moreover have "wf_cache (dh_lru h) (ds_cache st')" "map_of (lru_iter (dh_lru h) (ds_cache st'))
      \<subseteq>\<^sub>m map_of (lru_iter (dh_lru h) (ds_cache st))" using g kept by simp_all
  ultimately show ?thesis using kept live_answer_subset by (auto intro: cached_from_le)
next
  case (resolved rs st2 c evicted)
  note g = cache_get_sound [OF assms(1,2) resolved(2)]
  note i = cache_insert_sound [OF assms(1) conjunct1 [OF g] resolved(3)]
  note kept = enforce_and_send_kept [OF resolved(6)]
  have "cached_from env (qi_name q, qi_type q) (map_of (lru_iter (dh_lru h) (ds_cache st)))
      (map_of (lru_iter (dh_lru h) (ds_cache st2)))"
    using i g resolved(1) unfolding cached_from_def map_le_def by (metis domI)
  with i kept resolved(1) show ?thesis by simp
qed

text \<open>
  C34: What the cache holds and serves. Requests keep the cache within its capacity and every entry
  with a positive time to live of at most five minutes that no record of it undercuts; a new entry
  appears only for the name and type of a query that an allow rule decided, with the records upstream
  just gave. An answer holds records of what upstream just gave or of a live entry for this name and
  type, with the entry's time to live less its age, which is positive.
\<close>

theorem dns_cache_fresh:
  assumes "lru (dh_lru h)" and "wf_cache (dh_lru h) (ds_cache st)"
    and "wf_rule_set ext (re_rule_set (dh_engine h))"
    and "handle_request h env (Some q) st = (resp, st')"
  shows "let key = (qi_name (normalize_query q), qi_type q) in wf_cache (dh_lru h) (ds_cache st')
    \<and> (\<forall>k e. map_of (lru_iter (dh_lru h) (ds_cache st')) k = Some e \<longrightarrow>
        map_of (lru_iter (dh_lru h) (ds_cache st)) k = Some e
        \<or> k = key \<and> de_lookup env = Some (ce_records e) \<and> ce_inserted_at e = de_now env
          \<and> (\<exists>peer r. query_rule h q peer = Some r \<and> cr_action r = Rule_Allow))
    \<and> (\<forall>records. resp = Answer records \<longrightarrow>
        (\<exists>given. de_lookup env = Some given \<and> set records \<subseteq> set given)
        \<or> (\<exists>e. map_of (lru_iter (dh_lru h) (ds_cache st)) key = Some e
            \<and> \<not> entry_expired (de_now env) e
            \<and> (\<forall>x \<in> set records. rr_data x \<in> rr_data ` set (ce_records e) \<and> 0 < rr_ttl x
                \<and> rr_ttl x = ce_effective_ttl e - (de_now env - ce_inserted_at e) div 10 ^ 9)))"
  using assms(3,4)
proof (cases rule: handle_request_cases)
  case turned_away
  then show ?thesis using assms(2) by (auto simp: Let_def)
next
  case (allowed q' peer r st1)
  have key: "(qi_name (normalize_query q'), qi_type (normalize_query q')) = (qi_name (normalize_query q), qi_type q)"
    using allowed(1) by (simp add: normalize_query_def)
  have rule: "\<exists>peer r. query_rule h q peer = Some r \<and> cr_action r = Rule_Allow"
    using allowed by auto
  have "wf_cache (dh_lru h) (ds_cache st1)" using assms(2) allowed(6) by simp
  note sound = answer_query_cache [OF assms(1) this allowed(9), unfolded allowed(6) key]
  show ?thesis
    unfolding Let_def
    using sound rule unfolding cached_from_def live_answer_def by (intro conjI) blast+
qed

section \<open>Examples\<close>

text \<open>The container web asks for the name 8, whose rule opens port 443; upstream answers 1.1.1.1.\<close>

definition demo_handler ::
  "((string \<times> cel_value) list, string, (cache_key, cache_entry) lru_list, nft_kernel) dns_handler" where
  "demo_handler = \<lparr>dh_cel = demo_cel,
     dh_engine = \<lparr>re_rules_dir = [''r''], re_rule_set = demo_rule_set\<rparr>, dh_lru = list_lru,
     dh_ctl = system_nft demo_net_ext sim_nft demo_bridge, dh_net = demo_net_ext,
     dh_require_managed_peer = True\<rparr>"

definition demo_dns_env :: dns_env where
  "demo_dns_env = \<lparr>de_container = Inr (Some ''web''), de_now = 0,
     de_lookup = Some [\<lparr>rr_ttl = 60, rr_data = RA 16843009\<rparr>], de_insert = (\<lambda>_ _. demo_insert_env)\<rparr>"

definition demo_query :: dns_query_info where
  "demo_query = \<lparr>qi_name = ''8.'', qi_type = 1, qi_type_name = ''A'', qi_source = V4 170524674\<rparr>"

definition demo_dns_state :: "((cache_key, cache_entry) lru_list, nft_kernel) dns_state" where
  "demo_dns_state = \<lparr>ds_cache = cache_new list_lru, ds_counters = counters_new, ds_dynamic = [],
     ds_kernel = demo_kernel []\<rparr>"

lemma demo_normalize:
  "normalize_query demo_query = \<lparr>qi_name = ''8'', qi_type = 1, qi_type_name = ''A'',
     qi_source = V4 170524674\<rparr>"
  by (simp add: normalize_query_def demo_query_def trim_end_matches_def to_ascii_lower_def
      to_ascii_upper_def is_ascii_upper_def is_ascii_lower_def)

lemma demo_query_rule: "query_rule demo_handler demo_query (Some ''web'') = Some demo_web"
  by (simp add: query_rule_def demo_handler_def demo_normalize dns_eval_context_def demo_eval_defs
      derive_agent_name_def rsplit_once_def agent_value_def)

lemma demo_show: "show_ipv4 170524674 = ''10.42.0.2''" "show_ipv4 16843009 = ''1.1.1.1''"
  by (simp_all add: show_ipv4_def octet_def show_nat.simps char_of_def bit_0)

lemma demo_direct_request: "direct_request ''web'' (show_ipv4 170524674) (show_ipv4 16843009) 443 60
    = demo_request"
  by (simp add: direct_request_def demo_request_def demo_show)

lemma demo_handler_wf: "wf_rule_set demo_ext (re_rule_set (dh_engine demo_handler))"
  using demo_wf by (simp add: demo_handler_def)

lemma demo_answer:
  assumes "ds_dynamic st = []" and "ds_kernel st = demo_kernel []"
  shows "\<exists>st'. enforce_and_send demo_handler demo_dns_env (V4 170524674) (cr_egress demo_web) (Some ''web'')
     [\<lparr>rr_ttl = 60, rr_data = RA 16843009\<rparr>] st = (Answer [\<lparr>rr_ttl = 60, rr_data = RA 16843009\<rparr>], st')
    \<and> ds_kernel st' = demo_kernel_after"
proof -
  let ?rs = "[\<lparr>rr_ttl = 60, rr_data = RA 16843009\<rparr>] :: dns_record list"
  have "\<not> is_restricted (V4 16843009)"
    by (simp add: is_restricted_v4_def octet_def)
  then have a: "apply_address_policy ?rs False = Allowed ?rs"
    by (simp add: apply_address_policy_def filter_restricted_addresses_def record_address_def Let_def)
  have d: "extract_ipv4_destinations ?rs = [show_ipv4 16843009]"
    by (simp add: extract_ipv4_destinations_def map_filter_simps)
  have "apply_egress_policy (system_nft demo_net_ext sim_nft demo_bridge) demo_net_ext
      (\<lambda>_ _. demo_insert_env) (V4 170524674) (cr_egress demo_web) ?rs (Some ''web'')
      ([], demo_kernel []) = ([(''web'', [demo_dyn_rule])], demo_kernel_after)"
    using demo_insert
    by (simp add: apply_egress_policy_def demo_web_def apply_direct_ip_policy_def direct_rule_ttl_def
        MAX_TTL_SECS_def matching_direct_destinations_def d insert_direct_rules_def direct_ports_def
        demo_direct_request Let_def)
  with assms show ?thesis
    by (simp add: enforce_and_send_def Let_def a demo_handler_def demo_dns_env_def demo_web_def)
qed

lemma demo_handle:
  "\<exists>st. handle_request demo_handler demo_dns_env (Some demo_query) demo_dns_state
      = (Answer [\<lparr>rr_ttl = 60, rr_data = RA 16843009\<rparr>], st)
    \<and> ds_kernel st = demo_kernel_after"
proof -
  let ?c = "dns_eval_context (normalize_query demo_query) (Some ''web'')"
  have ev: "evaluate_with_egress (dh_cel demo_handler) (dh_engine demo_handler) ?c
      = \<lparr>rv_result = verdict_of demo_web, rv_egress = cr_egress demo_web\<rparr>"
    using demo_query_rule
    by (simp add: evaluate_with_egress_def evaluate_with_egress_deciding [OF demo_handler_wf]
        snapshot_def query_rule_def)
  have c: "de_container demo_dns_env = Inr (Some ''web'')" "de_lookup demo_dns_env
      = Some [\<lparr>rr_ttl = 60, rr_data = RA 16843009\<rparr>]" by (simp_all add: demo_dns_env_def)
  have g: "cache_get (dh_lru demo_handler) 0 ''8'' (Suc 0) (ds_cache demo_dns_state)
      = (None, ds_cache demo_dns_state)"
    by (simp add: cache_get_def demo_handler_def demo_dns_state_def cache_new_def list_lru_def ll_get_def)
  have h: "handle_request demo_handler demo_dns_env (Some demo_query) st
      = answer_query demo_handler demo_dns_env (normalize_query demo_query) (cr_egress demo_web)
          (Some ''web'') (st\<lparr>ds_counters := (ds_counters st)
            \<lparr>dc_queries_total := bump (dc_queries_total (ds_counters st))\<rparr>\<rparr>)" for st
    using ev
    by (simp add: handle_request_def c demo_normalize ends_with_def verdict_of_def demo_web_def
        suffix_def)
  obtain ev c where i: "cache_insert (dh_lru demo_handler) 0 ''8'' (Suc 0) ''A''
      [\<lparr>rr_ttl = 60, rr_data = RA 16843009\<rparr>] (ds_cache demo_dns_state) = (ev, c)"
    by (meson surj_pair)
  have [simp]: "de_now demo_dns_env = 0" by (simp add: demo_dns_env_def)
  show ?thesis
    unfolding h answer_query_def
    by (simp add: demo_normalize g c i Let_def, intro conjI impI; rule demo_answer)
      (simp_all add: demo_dns_state_def)
qed

theorem dns_answer_authorised_witness:
  "query_rule demo_handler demo_query (Some ''web'') = Some demo_web"
proof -
  have wf: "wf_rule_set demo_ext (re_rule_set (dh_engine demo_handler))"
    using demo_wf by (simp add: demo_handler_def)
  from demo_handle obtain st where "handle_request demo_handler demo_dns_env (Some demo_query)
      demo_dns_state = (Answer [\<lparr>rr_ttl = 60, rr_data = RA 16843009\<rparr>], st)" by blast
  from dns_answer_authorised [OF wf this] obtain r where
    "query_rule demo_handler demo_query (Some ''web'') = Some r" "cr_action r = Rule_Allow"
    by (auto simp: query_peer_def demo_dns_env_def)
  moreover from this(1) have "r \<in> set demo_rule_set"
    by (simp add: query_rule_def demo_handler_def deciding_rule_mem)
  ultimately show ?thesis by (auto simp: demo_rule_set_def demo_deny_def)
qed


theorem dns_cache_fresh_witness:
  "\<exists>st. handle_request demo_handler demo_dns_env (Some demo_query) demo_dns_state
      = (Answer [\<lparr>rr_ttl = 60, rr_data = RA 16843009\<rparr>], st) \<and> wf_cache list_lru (ds_cache st)"
proof -
  have "lru (dh_lru demo_handler)" "wf_cache (dh_lru demo_handler) (ds_cache demo_dns_state)"
    using wf_cache_new [OF list_lru.lru_axioms]
    by (simp_all add: demo_handler_def demo_dns_state_def list_lru.lru_axioms)
  with demo_handle dns_cache_fresh [OF this demo_handler_wf] show ?thesis
    by (metis demo_handler_def dns_handler.select_convs(3))
qed

end
