(* ===== verification/Loader_Frames.thy ===== *)
theory Loader_Frames
  imports Rule_Loader
begin

text \<open>
  Reading and loading rules change no file: the frame calculus of the state files, extended to reads
  and to the loader, so that operations that load rules between writes can be reasoned about.
\<close>

section \<open>Reading the rules leaves the files alone\<close>

lemma touches_then:
  assumes "touches A m" and "\<And>s r t. m s = (r, t) \<Longrightarrow> n s = (case r of Inl e \<Rightarrow> f e t | Inr x \<Rightarrow> g x t)"
    and "\<And>e. touches A (f e)" and "\<And>x. touches A (g x)"
  shows "touches A n"
proof (rule touchesI)
  fix s r t
  assume nr: "no_race s" and n: "n s = (r, t)"
  obtain a u where m: "m s = (a, u)" by fastforce
  have fr: "frame A s u" using touchesD [OF assms(1) nr m] .
  have "frame A u t"
    using assms(2) [OF m] n touchesD [OF assms(3) frame_no_race [OF fr]]
      touchesD [OF assms(4) frame_no_race [OF fr]] by (cases a) (auto simp: eq_commute [of "(r, t)"])
  with fr show "frame A s t" using frame_trans [of A s u A t] by simp
qed

lemma touches_const: "touches A (Pair r)"
  using frame_refl frame_mono [of "{}" _ _ A] by (auto simp: touches_def)

lemma touches_map_err: "touches A m \<Longrightarrow> touches A (io_map_err f m)"
  by (auto simp: touches_def io_map_err_eq)

lemma touches_lift: "touches A (io_lift r)"
  using frame_refl frame_mono [of "{}" _ _ A] by (auto simp: touches_def io_lift_eq)

lemma touches_if: "touches A m \<Longrightarrow> touches A n \<Longrightarrow> touches A (if b then m else n)"
  by simp

lemma touches_io_fold: "(\<And>x a. touches A (f x a)) \<Longrightarrow> touches A (io_fold f xs a)"
  by (induction xs arbitrary: a) (auto intro: touches_io_bind touches_return)

lemma touches_open: "touches {} (open_nofollow p)"
  by (rule touches_then [OF touches_calls(1) [of p], where f = "\<lambda>e. Pair (Inl e)"
        and g = "\<lambda>n. Pair (if n = Symlink then Inl Io_Other else Inr n)"])
    (auto simp: open_nofollow_def touches_const split: sum.splits)

lemma touches_read_optional: "touches {} (read_optional p limit)"
proof -
  let ?contents = "\<lambda>opened. case opened of
      File contents _ \<Rightarrow>
        io_bind (with_context (Read_Failed p) plain_call) (\<lambda>_. io_lift
          (let data = take (limit + 1) contents
           in if limit < length data then Inl (Too_Large p limit) else Inr (Some data)))
    | _ \<Rightarrow> io_fail (Not_Real_File p)"
  let ?open = "io_bind (with_context (Open_Failed p) (open_nofollow p)) (\<lambda>opened.
      io_bind (with_context (Inspect_Failed p) plain_call) (\<lambda>_. ?contents opened))"
  have o: "touches {} ?open"
    by (intro touches_io_bind touches_with_context touches_open touches_calls)
      (auto intro!: touches_io_bind touches_with_context touches_calls touches_lift touches_return
        split: node.splits)
  show ?thesis
  proof (rule touches_then [OF touches_calls(1) [of p]])
    show "read_optional p limit s = (case r of
        Inl e \<Rightarrow> (if e = Not_Found then Pair (Inr None) else Pair (Inl (Stat_Failed p))) t
      | Inr n \<Rightarrow> (case n of
          File bytes _ \<Rightarrow> if limit < length bytes then Pair (Inl (Too_Large p limit)) else ?open
        | _ \<Rightarrow> Pair (Inl (Not_Real_File p))) t)" if "lstat p s = (r, t)" for s r t
      using that
      by (auto simp: read_optional_def io_bind_def io_lift_def io_fail_def Let_def
          split: sum.splits prod.splits node.splits io_kind.splits)
  qed (auto simp: touches_const o split: node.splits)
qed

lemma touches_load_rules: "touches {} (load_rules ext dir)"
proof -
  have dir: "touches {} (read_dir dir)"
    by (auto simp: touches_def read_dir_def split: prod.splits option.splits
        dest: syscall_frame(1))
  have entry: "touches {} (discover_entry dir entry files)" for entry files
    unfolding discover_entry_def
    by (auto intro!: touches_io_bind touches_with_context touches_calls touches_return
        split: node.splits)
  have disc: "touches {} (discover_rule_files dir)"
    by (rule touches_then [OF touches_calls(1) [of dir], where
          f = "\<lambda>e. if e = Not_Found then Pair (Inr []) else Pair (Inl (Inspect_Dir_Failed dir))" and
          g = "\<lambda>n. if n \<noteq> Dir then Pair (Inl (Not_A_Directory dir))
            else io_bind (with_context (Read_Dir_Failed dir) (read_dir dir)) (\<lambda>entries.
                 io_bind (io_fold (discover_entry dir) entries []) (\<lambda>files.
                 io_return (sort files)))"])
      (auto simp: discover_rule_files_def touches_const split: sum.splits io_kind.splits
        intro!: touches_io_bind touches_with_context dir touches_io_fold entry touches_return)
  have load: "touches {} (load_file ext dir name st)" for name st
    unfolding load_file_def read_rule_file_def
    by (auto intro!: touches_io_bind touches_map_err touches_read_optional touches_lift touches_return
        split: option.splits)
  show ?thesis
    unfolding load_rules_def
    by (auto intro!: touches_io_bind disc touches_io_fold load touches_return)
qed

text \<open>A new file that was installed: what it replaced is nothing, and no race is introduced.\<close>

lemma write_new_atomic_ok:
  assumes "no_race s" and "p \<noteq> []" and "write_new_atomic p bytes mode s = (Inr (), t)"
  shows "no_race t \<and> node_at s p = None \<and> node_at t p = Some (File bytes mode)"
proof -
  obtain l u where l: "lstat p s = (l, u)" by fastforce
  note fr = lstat_frame [OF assms(1) l]
  have "l = Inl Not_Found"
    using assms(3) l by (auto simp: write_new_atomic_def split: sum.splits io_kind.splits)
  let ?rest = "\<lambda>k. io_bind (with_context (Link_Failed p k) (hard_link k p))
      (\<lambda>_. io_bind (with_context (Remove_Failed k) (unlink k)) (\<lambda>_. sync_parent p))"
  from \<open>l = Inl Not_Found\<close> assms(3) l obtain k v where k: "write_temporary p bytes mode u = (Inr k, v)"
    and rest: "(case ?rest k v of (Inr _, t) \<Rightarrow> (Inr (), t)
      | (Inl e, t) \<Rightarrow> (case with_temporary_cleanup e k t of (e', u) \<Rightarrow> (Inl e', u))) = (Inr (), t)"
    by (auto simp: write_new_atomic_def io_bind_def [of "write_temporary p bytes mode"]
        split: sum.splits prod.splits)
  obtain r' t' where r: "?rest k v = (r', t')" by fastforce
  with rest obtain x where x: "?rest k v = (Inr x, t)"
    by (cases r') (auto split: prod.splits)
  note fw = touchesD [OF touches_write_temporary [OF assms(2)] frame_no_race [OF fr] k]
  note ok = write_temporary_ok [OF frame_no_race [OF fr] assms(2) k]
  have "k \<noteq> p" using ok(1) temporary_path_neq [OF assms(2)] by (auto simp: temporaries_def)
  from link_sync_cases [OF frame_no_race [OF fw] this ok(2) x]
  have c: "frame {k, p} v t \<and> node_at v p = None \<and> node_at t p = Some (File bytes mode)" by simp
  moreover have "node_at v p = node_at s p"
    using frame_node [OF fw target_not_scratch [OF assms(2)]] frame_node [OF fr] by simp
  ultimately show ?thesis using frame_no_race by auto
qed

lemma remove_if_exists_gone:
  assumes "no_race s" and "remove_if_exists p s = (Inr b, t)"
  shows "no_race t \<and> node_at t p = None"
proof -
  obtain l u where l: "lstat p s = (l, u)" by fastforce
  note fr = lstat_frame [OF assms(1) l]
  show ?thesis
  proof (cases l)
    case (Inl e)
    with assms(2) l have "e = Not_Found" "t = u"
      by (auto simp: remove_if_exists_def split: io_kind.splits)
    with l Inl fr show ?thesis
      by (auto simp: lstat_def frame_def split: prod.splits option.splits)
  next
    case (Inr n)
    with assms(2) l obtain v x where v: "unlink p u = (Inr x, v)"
      and t: "sync_parent p v = (Inr (), t)"
      by (auto simp: remove_if_exists_def io_eqs io_return_eq split: if_splits)
    have "frame {p} u v" "node_at v p = None"
      using unlink_frame [OF frame_no_race [OF fr] v] v by (auto simp: unlink_def split: prod.splits
          option.splits if_splits)
    then show ?thesis
      using touchesD [OF touches_sync_parent frame_no_race t, of "{p}" u] by (simp add: frame_def)
  qed
qed

end
