(* ===== verification/Rule_Requests.thy ===== *)
theory Rule_Requests
  imports Dns_Handler Loader_Frames
begin

text \<open>
  The queue of rule requests (agent\_api/rule\_requests.rs): requests an agent submits, kept in memory
  and in a state file, and their transitions. Then the operator's side: approving and rejecting a
  request (api/rule\_requests.rs) and the reload of the policy (api/policy\_reload.rs), which replaces
  the rule set and revokes what was derived from the old one.

  A \<open>HashMap\<close> is an association list with distinct keys. The JSON of the state file is serde's and a
  parameter; the state file is read and written through state\_file.rs.
\<close>

section \<open>The queue\<close>

datatype request_status = Pending | Approved | Rejected

record rule_request_entry =
  rq_container_id :: string
  rq_rule_file :: string
  rq_status :: request_status
  rq_reason :: "string option"

type_synonym request_map = "(string \<times> rule_request_entry) list"

record request_json =
  json_print :: "request_map \<Rightarrow> string option"
  json_parse :: "string \<Rightarrow> request_map option"

definition MAX_STATE_BYTES :: nat where
  "MAX_STATE_BYTES = 16 * 1024 * 1024"

definition MAX_REQUESTS :: nat where
  "MAX_REQUESTS = 10000"

definition MAX_REQUEST_RULE_FILE_BYTES :: nat where
  "MAX_REQUEST_RULE_FILE_BYTES = 65536"

definition MAX_CONTAINER_ID_BYTES :: nat where
  "MAX_CONTAINER_ID_BYTES = 128"

definition MAX_REASON_BYTES :: nat where
  "MAX_REASON_BYTES = 1024"

datatype request_error =
    Reason_Empty
  | Reason_Too_Long
  | Reason_Control
  | Bad_Container_Id
  | Bad_Rule_File_Size
  | Bad_Rule_File load_error
  | Not_Pending string
  | Invalid_Request_Id string
  | Duplicate_Request_Id string
  | Too_Many_Requests
  | Serialize_Failed
  | State_Too_Large
  | Persist_Failed state_error
  | Persist_Task_Failed
  | Load_State_Failed state_error
  | Parse_State_Failed

definition is_lower_hex :: "char \<Rightarrow> bool" where
  "is_lower_hex c \<longleftrightarrow> is_ascii_digit c \<or> CHR ''a'' \<le> c \<and> c \<le> CHR ''f''"

definition has_canonical_hex_suffix :: "string \<Rightarrow> string \<Rightarrow> nat \<Rightarrow> bool" where
  "has_canonical_hex_suffix v pre hex_len \<longleftrightarrow>
     length v = length pre + hex_len \<and> prefix pre v \<and> list_all is_lower_hex (drop (length pre) v)"

definition valid_request_id :: "string \<Rightarrow> bool" where
  "valid_request_id rid \<longleftrightarrow>
     length rid = length ''rr-'' + 12 \<and> prefix ''rr-'' rid
     \<and> list_all is_lower_hex (drop (length ''rr-'') rid)"

definition hex_encode :: "8 word list \<Rightarrow> string" where
  "hex_encode bytes =
     concat (map (\<lambda>b. [hex_digit (unat (drop_bit 4 b)), hex_digit (unat (take_bit 4 b))]) bytes)"

text \<open>The six random bytes, or \<open>None\<close> when the system has none.\<close>

definition generate_request_id :: "8 word list option \<Rightarrow> string option" where
  "generate_request_id random = map_option (\<lambda>bytes. ''rr-'' @ hex_encode bytes) random"

definition validate_reason :: "string option \<Rightarrow> (request_error, unit) result" where
  "validate_reason reason =
     (case reason of
        None \<Rightarrow> Inr ()
      | Some r \<Rightarrow>
          if trim_start_utf8 r = [] then Inl Reason_Empty
          else if MAX_REASON_BYTES < length r then Inl Reason_Too_Long
          else if has_control r then Inl Reason_Control
          else Inr ())"

definition is_container_id_char :: "char \<Rightarrow> bool" where
  "is_container_id_char c \<longleftrightarrow>
     is_ascii_alphanumeric c \<or> c = CHR ''.'' \<or> c = CHR ''_'' \<or> c = CHR ''-''"

definition validate_entry ::
  "'p loader_ext \<Rightarrow> rule_request_entry \<Rightarrow> bool \<Rightarrow> (request_error, unit) result" where
  "validate_entry ext e validate_rule_file =
     (if rq_container_id e = [] \<or> MAX_CONTAINER_ID_BYTES < length (rq_container_id e)
         \<or> \<not> list_all is_container_id_char (rq_container_id e)
      then Inl Bad_Container_Id
      else if (rq_status e = Pending \<or> rq_rule_file e \<noteq> [])
         \<and> (rq_rule_file e = [] \<or> MAX_REQUEST_RULE_FILE_BYTES < length (rq_rule_file e))
      then Inl Bad_Rule_File_Size
      else
        res_bind (validate_reason (rq_reason e)) (\<lambda>_.
        if validate_rule_file then map_err Bad_Rule_File (validate_rule_yaml ext (rq_rule_file e))
        else Inr ()))"

text \<open>At capacity the history of completed requests is dropped.\<close>

definition make_room_for_insert :: "request_map \<Rightarrow> request_map" where
  "make_room_for_insert requests =
     (if length requests < MAX_REQUESTS then requests
      else filter (\<lambda>(_, e). rq_status e = Pending) requests)"

definition persist_rule_requests ::
  "request_json \<Rightarrow> path \<Rightarrow> request_map \<Rightarrow> (request_error, unit) fs_io" where
  "persist_rule_requests js p requests =
     (case json_print js requests of
        None \<Rightarrow> io_fail Serialize_Failed
      | Some bytes \<Rightarrow>
          if MAX_STATE_BYTES < length bytes then io_fail State_Too_Large
          else io_map_err Persist_Failed (write_atomic p bytes 384))"

text \<open>The whole state file: parsed, bounded, and every entry valid.\<close>

definition check_loaded_entry ::
  "'p loader_ext \<Rightarrow> string \<times> rule_request_entry \<Rightarrow> unit \<Rightarrow> (request_error, unit) result" where
  "check_loaded_entry ext = (\<lambda>(rid, e) _.
     if \<not> valid_request_id rid then Inl (Invalid_Request_Id rid)
     else validate_entry ext e (rq_status e = Pending))"

definition load_rule_requests ::
  "'p loader_ext \<Rightarrow> request_json \<Rightarrow> path \<Rightarrow> (request_error, request_map) fs_io" where
  "load_rule_requests ext js p =
     io_bind (io_map_err Load_State_Failed (read_optional p MAX_STATE_BYTES)) (\<lambda>contents.
       case contents of
         None \<Rightarrow> io_return []
       | Some bytes \<Rightarrow>
           io_lift (res_bind (ok_or Parse_State_Failed (json_parse js bytes)) (\<lambda>m.
             if MAX_REQUESTS < length m then Inl Too_Many_Requests
             else res_bind (fold_res (check_loaded_entry ext) m ()) (\<lambda>_. Inr m))))"

record rule_request_manager =
  rm_requests :: request_map
  rm_state_path :: path

definition manager_new ::
  "'p loader_ext \<Rightarrow> request_json \<Rightarrow> path \<Rightarrow> (request_error, rule_request_manager) fs_io" where
  "manager_new ext js p =
     io_bind (load_rule_requests ext js p)
       (\<lambda>m. io_return \<lparr>rm_requests = m, rm_state_path = p\<rparr>)"

definition request_get :: "string \<Rightarrow> rule_request_manager \<Rightarrow> rule_request_entry option" where
  "request_get rid mgr = map_of (rm_requests mgr) rid"

definition list_pending :: "rule_request_manager \<Rightarrow> request_map" where
  "list_pending mgr = sort_key fst (filter (\<lambda>(_, e). rq_status e = Pending) (rm_requests mgr))"

text \<open>
  \<open>join_failed\<close>: the blocking task that persists could not be joined; whether it had run is then
  unknown to the caller, and \<open>join_failed\<close> stands for a task that did not run. The new map replaces the one
  in memory only after it was persisted.
\<close>

definition request_persist ::
  "request_json \<Rightarrow> bool \<Rightarrow> request_map \<Rightarrow> rule_request_manager \<Rightarrow> fs
     \<Rightarrow> (request_error, unit) result \<times> rule_request_manager \<times> fs" where
  "request_persist js join_failed m mgr s =
     (if join_failed then (Inl Persist_Task_Failed, mgr, s)
      else
        (case persist_rule_requests js (rm_state_path mgr) m s of
           (Inl e, t) \<Rightarrow> (Inl e, mgr, t)
         | (Inr _, t) \<Rightarrow> (Inr (), mgr\<lparr>rm_requests := m\<rparr>, t)))"

definition request_finish ::
  "request_json \<Rightarrow> bool \<Rightarrow> string \<Rightarrow> (rule_request_entry \<Rightarrow> rule_request_entry)
     \<Rightarrow> rule_request_manager \<Rightarrow> fs
     \<Rightarrow> (request_error, rule_request_entry option) result \<times> rule_request_manager \<times> fs" where
  "request_finish js join_failed rid change mgr s =
     (case request_get rid mgr of
        None \<Rightarrow> (Inr None, mgr, s)
      | Some current \<Rightarrow>
          if rq_status current \<noteq> Pending then (Inl (Not_Pending rid), mgr, s)
          else
            (case request_persist js join_failed (AList.update rid (change current) (rm_requests mgr))
                    mgr s of
               (Inl e, mgr, t) \<Rightarrow> (Inl e, mgr, t)
             | (Inr _, mgr, t) \<Rightarrow> (Inr (Some (change current)), mgr, t)))"

definition request_approve ::
  "request_json \<Rightarrow> bool \<Rightarrow> string \<Rightarrow> rule_request_manager \<Rightarrow> fs
     \<Rightarrow> (request_error, rule_request_entry option) result \<times> rule_request_manager \<times> fs" where
  "request_approve js join_failed rid mgr s =
     request_finish js join_failed rid (\<lambda>e. e\<lparr>rq_status := Approved, rq_rule_file := []\<rparr>) mgr s"

definition request_reject ::
  "request_json \<Rightarrow> bool \<Rightarrow> string \<Rightarrow> string option \<Rightarrow> rule_request_manager \<Rightarrow> fs
     \<Rightarrow> (request_error, rule_request_entry option) result \<times> rule_request_manager \<times> fs" where
  "request_reject js join_failed rid reason mgr s =
     (case validate_reason reason of
        Inl e \<Rightarrow> (Inl e, mgr, s)
      | Inr _ \<Rightarrow>
          request_finish js join_failed rid
            (\<lambda>e. e\<lparr>rq_status := Rejected, rq_reason := reason, rq_rule_file := []\<rparr>) mgr s)"

definition request_insert ::
  "'p loader_ext \<Rightarrow> request_json \<Rightarrow> bool \<Rightarrow> string \<Rightarrow> rule_request_entry \<Rightarrow> rule_request_manager \<Rightarrow> fs
     \<Rightarrow> (request_error, unit) result \<times> rule_request_manager \<times> fs" where
  "request_insert ext js join_failed rid e mgr s =
     (if \<not> valid_request_id rid then (Inl (Invalid_Request_Id rid), mgr, s)
      else
        (case validate_entry ext e True of
           Inl err \<Rightarrow> (Inl err, mgr, s)
         | Inr _ \<Rightarrow>
             if map_of (rm_requests mgr) rid \<noteq> None then (Inl (Duplicate_Request_Id rid), mgr, s)
             else
               (let m = make_room_for_insert (rm_requests mgr)
                in if MAX_REQUESTS \<le> length m then (Inl Too_Many_Requests, mgr, s)
                   else request_persist js join_failed (AList.update rid e m) mgr s)))"

section \<open>Reloading the policy (policy\_reload.rs)\<close>

text \<open>
  The daemon's shared state as far as the policy needs it: the engine, the DNS server's cache with the
  dynamic rules and the kernel, the queue, and the file system. The locks that serialise policy
  updates and transitions are held for a whole operation, so each operation is one step; the policy
  barrier keeps DNS queries out between the flush and the commit.
\<close>

record ('p, 'c, 's) app_state =
  ap_rules_dir :: path
  ap_rules :: "'p rule_engine"
  ap_dns :: "('c, 's) dns_state"
  ap_requests :: rule_request_manager
  ap_fs :: fs

record ('p, 'c, 's) app_ext =
  ax_loader :: "'p loader_ext"
  ax_lru :: "'c dns_lru"
  ax_ctl :: "'s nft_ops"
  ax_json :: request_json

datatype policy_error = Reload_Failed reload_error | Revoke_Failed dyn_error

text \<open>Revoking what was derived from the old rules; the cache is cleared only after the kernel is.\<close>

definition revoke_derived ::
  "'s nft_ops \<Rightarrow> 'c dns_lru \<Rightarrow> ('c, 's) dns_state \<Rightarrow> (policy_error, unit) result \<times> ('c, 's) dns_state" where
  "revoke_derived ctl ops dns =
     (case flush_all ctl (ds_dynamic dns) (ds_kernel dns) of
        (Inl e, dyn, k) \<Rightarrow> (Inl (Revoke_Failed e), dns\<lparr>ds_dynamic := dyn, ds_kernel := k\<rparr>)
      | (Inr _, dyn, k) \<Rightarrow>
          (Inr (), snd (flush_cache ops (dns\<lparr>ds_dynamic := dyn, ds_kernel := k\<rparr>))))"

definition reload_components ::
  "('p, 'c, 's) app_ext \<Rightarrow> bool \<Rightarrow> ('p, 'c, 's) app_state
     \<Rightarrow> (policy_error, nat \<times> nat \<times> load_warning list) result \<times> ('p, 'c, 's) app_state" where
  "reload_components ax join_failed st =
     (case prepare_reload (ax_loader ax) join_failed (ap_rules st) (ap_fs st) of
        (Inl e, t) \<Rightarrow> (Inl (Reload_Failed e), st\<lparr>ap_fs := t\<rparr>)
      | (Inr prepared, t) \<Rightarrow>
          (case revoke_derived (ax_ctl ax) (ax_lru ax) (ap_dns st) of
             (Inl e, dns) \<Rightarrow> (Inl e, st\<lparr>ap_fs := t, ap_dns := dns\<rparr>)
           | (Inr _, dns) \<Rightarrow>
               (case commit_reload prepared (ap_rules st) of
                  (info, engine) \<Rightarrow> (Inr info, st\<lparr>ap_fs := t, ap_dns := dns, ap_rules := engine\<rparr>))))"

definition restore_components ::
  "('p, 'c, 's) app_ext \<Rightarrow> 'p rule_set \<Rightarrow> ('p, 'c, 's) app_state
     \<Rightarrow> (policy_error, unit) result \<times> ('p, 'c, 's) app_state" where
  "restore_components ax saved st =
     (let st = st\<lparr>ap_rules := restore_snapshot saved (ap_rules st)\<rparr>
      in case revoke_derived (ax_ctl ax) (ax_lru ax) (ap_dns st) of
           (r, dns) \<Rightarrow> (r, st\<lparr>ap_dns := dns\<rparr>))"

section \<open>The operator's handlers (api/rule\_requests.rs)\<close>

datatype approve_response =
    Approve_Bad_Id
  | Approve_Not_Found
  | Approve_Conflict request_status
  | Approve_Write_Failed state_error
  | Approve_Reload_Failed "state_error option"
  | Approve_Persist_Failed bool
  | Approve_Ok string nat

definition agent_rule_path :: "path \<Rightarrow> string \<Rightarrow> path" where
  "agent_rule_path dir rid = dir @ [''agent-'' @ rid @ ''.yaml'']"

definition err_of :: "('e, 'a) result \<Rightarrow> 'e option" where
  "err_of r = (case r of Inl e \<Rightarrow> Some e | Inr _ \<Rightarrow> None)"

text \<open>
  Once the rule file is in place: reload, then record the approval; each failure removes the file
  again, the second also restores the rules that were live before.
\<close>

definition approve_installed ::
  "('p, 'c, 's) app_ext \<Rightarrow> bool \<Rightarrow> bool \<Rightarrow> string \<Rightarrow> path \<Rightarrow> ('p, 'c, 's) app_state
     \<Rightarrow> approve_response \<times> ('p, 'c, 's) app_state" where
  "approve_installed ax reload_join_failed persist_join_failed rid file_path st =
     (let rollback_snapshot = snapshot (ap_rules st)
      in case reload_components ax reload_join_failed st of
           (Inl _, st) \<Rightarrow>
             (case remove_if_exists file_path (ap_fs st) of
                (r, t) \<Rightarrow> (Approve_Reload_Failed (err_of r), st\<lparr>ap_fs := t\<rparr>))
         | (Inr (_, rules_loaded, _), st) \<Rightarrow>
             (case request_approve (ax_json ax) persist_join_failed rid (ap_requests st) (ap_fs st) of
                (Inr _, mgr, t) \<Rightarrow>
                  (Approve_Ok rid rules_loaded, st\<lparr>ap_requests := mgr, ap_fs := t\<rparr>)
              | (Inl _, mgr, t) \<Rightarrow>
                  (case remove_if_exists file_path t of
                     (removed, t) \<Rightarrow>
                       (case restore_components ax rollback_snapshot
                               (st\<lparr>ap_requests := mgr, ap_fs := t\<rparr>) of
                          (restored, st) \<Rightarrow>
                            (Approve_Persist_Failed (is_ok removed \<and> is_ok restored), st)))))"

definition approve ::
  "('p, 'c, 's) app_ext \<Rightarrow> bool \<Rightarrow> bool \<Rightarrow> string \<Rightarrow> ('p, 'c, 's) app_state
     \<Rightarrow> approve_response \<times> ('p, 'c, 's) app_state" where
  "approve ax reload_join_failed persist_join_failed rid st =
     (if \<not> valid_request_id rid then (Approve_Bad_Id, st)
      else
        (case request_get rid (ap_requests st) of
           None \<Rightarrow> (Approve_Not_Found, st)
         | Some e \<Rightarrow>
             if rq_status e = Approved \<or> rq_status e = Rejected
             then (Approve_Conflict (rq_status e), st)
             else
               (let file_path = agent_rule_path (ap_rules_dir st) rid
                in case write_new_atomic file_path (rq_rule_file e) 384 (ap_fs st) of
                     (Inl err, t) \<Rightarrow> (Approve_Write_Failed err, st\<lparr>ap_fs := t\<rparr>)
                   | (Inr _, t) \<Rightarrow>
                       approve_installed ax reload_join_failed persist_join_failed rid file_path
                         (st\<lparr>ap_fs := t\<rparr>))))"

datatype reject_response =
    Reject_Bad_Id
  | Reject_Bad_Reason request_error
  | Reject_Not_Found
  | Reject_Conflict request_status
  | Reject_Persist_Failed
  | Reject_Ok string

definition reject ::
  "('p, 'c, 's) app_ext \<Rightarrow> bool \<Rightarrow> string \<Rightarrow> string option \<Rightarrow> ('p, 'c, 's) app_state
     \<Rightarrow> reject_response \<times> ('p, 'c, 's) app_state" where
  "reject ax persist_join_failed rid reason st =
     (if \<not> valid_request_id rid then (Reject_Bad_Id, st)
      else
        (case validate_reason reason of
           Inl e \<Rightarrow> (Reject_Bad_Reason e, st)
         | Inr _ \<Rightarrow>
             (case request_get rid (ap_requests st) of
                None \<Rightarrow> (Reject_Not_Found, st)
              | Some e \<Rightarrow>
                  if rq_status e \<noteq> Pending then (Reject_Conflict (rq_status e), st)
                  else
                    (case request_reject (ax_json ax) persist_join_failed rid reason (ap_requests st)
                            (ap_fs st) of
                       (Inl _, mgr, t) \<Rightarrow>
                         (Reject_Persist_Failed, st\<lparr>ap_requests := mgr, ap_fs := t\<rparr>)
                     | (Inr _, mgr, t) \<Rightarrow>
                         (Reject_Ok rid, st\<lparr>ap_requests := mgr, ap_fs := t\<rparr>)))))"

section \<open>Generated identifiers\<close>

lemma hex_digit_lower: "n < 16 \<Longrightarrow> is_lower_hex (hex_digit n)"
  by (auto simp: hex_digit_def is_lower_hex_def is_ascii_digit_def less_eq_char_def)

lemma hex_encode_lower: "list_all is_lower_hex (hex_encode bytes)"
proof -
  have "unat (drop_bit 4 b) < 16" "unat (take_bit 4 b) < 16" for b :: "8 word"
    using unsigned_less [of b, where 'a = nat] take_bit_nat_less_exp [of 4 "unat b"]
    by (simp_all add: unsigned_drop_bit_eq unsigned_take_bit_eq drop_bit_eq_div
        unat_div)
  then show ?thesis by (auto simp: hex_encode_def list_all_iff intro!: hex_digit_lower)
qed

lemma length_hex_encode [simp]: "length (hex_encode bytes) = 2 * length bytes"
  by (induction bytes) (simp_all add: hex_encode_def)

lemma generated_request_id_valid:
  "generate_request_id (Some bytes) = Some rid \<Longrightarrow> length bytes = 6 \<Longrightarrow> valid_request_id rid"
  using hex_encode_lower [of bytes] by (auto simp: generate_request_id_def valid_request_id_def)

section \<open>Well-formed queues\<close>

definition wf_requests :: "'p loader_ext \<Rightarrow> request_map \<Rightarrow> bool" where
  "wf_requests ext m \<longleftrightarrow>
     distinct (map fst m) \<and> length m \<le> MAX_REQUESTS
     \<and> (\<forall>rid e. map_of m rid = Some e \<longrightarrow>
          valid_request_id rid \<and> validate_entry ext e (rq_status e = Pending) = Inr ())"

text \<open>What one operation may do to a request.\<close>

definition request_transition :: "rule_request_entry option \<Rightarrow> rule_request_entry option \<Rightarrow> bool" where
  "request_transition old new \<longleftrightarrow>
     new = old
     \<or> old = None \<and> (\<exists>e. new = Some e \<and> rq_status e = Pending)
     \<or> (\<exists>e. old = Some e \<and> rq_status e = Pending
          \<and> (\<exists>e'. new = Some e' \<and> rq_status e' \<noteq> Pending \<and> rq_rule_file e' = []
               \<and> rq_container_id e' = rq_container_id e))
     \<or> (\<exists>e. old = Some e \<and> rq_status e \<noteq> Pending \<and> new = None)"

lemma update_map_of [simp]: "map_of (AList.update k v m) = (map_of m)(k \<mapsto> v)"
  by (rule update_conv')

lemma length_update_new: "map_of m k = None \<Longrightarrow> length (AList.update k v m) = Suc (length m)"
  by (induction m) (auto split: if_splits)

lemma length_update_old: "map_of m k \<noteq> None \<Longrightarrow> length (AList.update k v m) = length m"
  by (induction m) (auto split: if_splits)

lemma request_persist_cases:
  assumes "request_persist js join_failed m mgr s = (r, mgr', t)"
  obtains (kept) e where "r = Inl e" "mgr' = mgr"
  | (stored) bytes where "r = Inr ()" "mgr' = mgr\<lparr>rm_requests := m\<rparr>" "json_print js m = Some bytes"
      "length bytes \<le> MAX_STATE_BYTES" "write_atomic (rm_state_path mgr) bytes 384 s = (Inr (), t)"
  using assms
  by (auto simp: request_persist_def persist_rule_requests_def io_eqs
      split: if_splits option.splits prod.splits sum.splits)

lemma validate_entry_finished:
  assumes "validate_entry ext e True = Inr ()" and "validate_reason reason = Inr ()"
    and "status \<noteq> Pending"
  shows "validate_entry ext (e\<lparr>rq_status := status, rq_reason := reason, rq_rule_file := []\<rparr>) False
    = Inr ()"
  using assms by (auto simp: validate_entry_def result_simps split: if_splits)

lemma make_room:
  assumes "distinct (map fst m)"
  shows "wf_requests ext m \<Longrightarrow> wf_requests ext (make_room_for_insert m)"
    and "map_of (make_room_for_insert m) rid = map_of m rid
      \<or> map_of (make_room_for_insert m) rid = None
        \<and> (\<exists>e. map_of m rid = Some e \<and> rq_status e \<noteq> Pending)"
proof -
  note f = map_of_filter_pair [OF assms, of "\<lambda>e. rq_status e = Pending"]
  show "wf_requests ext (make_room_for_insert m)" if "wf_requests ext m"
    using that by (fastforce simp: make_room_for_insert_def wf_requests_def distinct_map_filter
        intro: le_trans [OF length_filter_le])
  show "map_of (make_room_for_insert m) rid = map_of m rid
      \<or> map_of (make_room_for_insert m) rid = None
        \<and> (\<exists>e. map_of m rid = Some e \<and> rq_status e \<noteq> Pending)"
    using f [of rid] by (cases "map_of m rid") (auto simp: make_room_for_insert_def)
qed

lemma request_finish_step:
  assumes "wf_requests ext (rm_requests mgr)"
    and "request_finish js join_failed rid change mgr s = (r, mgr', t)"
    and "\<And>e. validate_entry ext e True = Inr () \<Longrightarrow> validate_entry ext (change e) False = Inr ()"
    and "\<And>e. rq_status (change e) \<noteq> Pending \<and> rq_rule_file (change e) = []
      \<and> rq_container_id (change e) = rq_container_id e"
  shows "wf_requests ext (rm_requests mgr')
    \<and> (\<forall>k. request_transition (request_get k mgr) (request_get k mgr'))"
proof (cases "request_get rid mgr")
  case None
  with assms(1,2) show ?thesis by (auto simp: request_finish_def request_transition_def)
next
  case (Some e)
  note cur = this [unfolded request_get_def]
  show ?thesis
  proof (cases "rq_status e = Pending")
    case False
    with Some assms(1,2) show ?thesis by (auto simp: request_finish_def request_transition_def)
  next
    case True
    let ?m = "AList.update rid (change e) (rm_requests mgr)"
    obtain pr mgr1 t1 where p: "request_persist js join_failed ?m mgr s = (pr, mgr1, t1)"
      by (metis prod_cases3)
    have mgr': "mgr' = mgr1"
      using assms(2) Some True p by (auto simp: request_finish_def split: sum.splits)
    from p show ?thesis
    proof (cases rule: request_persist_cases)
      case kept
      with assms(1) mgr' show ?thesis by (simp add: request_transition_def)
    next
      case stored
      have "validate_entry ext e True = Inr ()" "valid_request_id rid"
        using assms(1) cur True by (auto simp: wf_requests_def dest!: spec [of _ rid])
      then have "wf_requests ext ?m"
        using assms(1,3,4) cur
        by (auto simp: wf_requests_def distinct_update length_update_old)
      moreover have "request_transition (map_of (rm_requests mgr) k) (map_of ?m k)" for k
        using cur True assms(4) [of e] by (auto simp: request_transition_def)
      ultimately show ?thesis using stored mgr' by (simp add: request_get_def)
    qed
  qed
qed

lemma request_insert_step:
  assumes "wf_requests ext (rm_requests mgr)" and "rq_status e = Pending"
    and "request_insert ext js join_failed rid e mgr s = (r, mgr', t)"
  shows "wf_requests ext (rm_requests mgr')
    \<and> (\<forall>k. request_transition (request_get k mgr) (request_get k mgr'))"
proof (cases "valid_request_id rid \<and> validate_entry ext e True = Inr ()
    \<and> map_of (rm_requests mgr) rid = None
    \<and> length (make_room_for_insert (rm_requests mgr)) < MAX_REQUESTS")
  case False
  then have "mgr' = mgr"
    using assms(3) by (auto simp: request_insert_def Let_def split: if_splits sum.splits)
  with assms(1) show ?thesis by (simp add: request_transition_def)
next
  case True
  let ?m = "make_room_for_insert (rm_requests mgr)"
  have "request_persist js join_failed (AList.update rid e ?m) mgr s = (r, mgr', t)"
    using assms(3) True by (simp add: request_insert_def Let_def)
  then show ?thesis
  proof (cases rule: request_persist_cases)
    case kept
    with assms(1) show ?thesis by (simp add: request_transition_def)
  next
    case stored
    have d: "distinct (map fst (rm_requests mgr))" using assms(1) by (simp add: wf_requests_def)
    have room: "wf_requests ext ?m" using make_room(1) [OF d] assms(1) by blast
    have none: "map_of ?m rid = None" using make_room(2) [OF d, of rid] True by auto
    have "wf_requests ext (AList.update rid e ?m)"
      using room none True assms(2)
      by (auto simp: wf_requests_def distinct_update length_update_new)
    moreover have "request_transition (map_of (rm_requests mgr) k)
        (map_of (AList.update rid e ?m) k)" for k
      using make_room(2) [OF d, of k] True assms(2) by (auto simp: request_transition_def)
    ultimately show ?thesis using stored by (simp add: request_get_def)
  qed
qed

lemma request_insert_stored:
  assumes "request_insert ext js join_failed rid e mgr s = (Inr u, mgr', t)"
  shows "request_get rid mgr' = Some e"
proof -
  obtain m where "request_persist js join_failed (AList.update rid e m) mgr s = (Inr u, mgr', t)"
    using assms by (auto simp: request_insert_def Let_def split: if_splits sum.splits)
  then show ?thesis
    by (cases rule: request_persist_cases) (simp_all add: request_get_def)
qed

text \<open>The steps of the queue: submissions, approvals and rejections, successful or not.\<close>

inductive request_step ::
  "'p loader_ext \<Rightarrow> request_json \<Rightarrow> rule_request_manager \<times> fs \<Rightarrow> rule_request_manager \<times> fs \<Rightarrow> bool"
  for ext js where
  step_submit: "rq_status e = Pending \<Longrightarrow>
      request_insert ext js join_failed rid e mgr s = (r, mgr', t) \<Longrightarrow>
      request_step ext js (mgr, s) (mgr', t)"
| step_approve: "request_approve js join_failed rid mgr s = (r, mgr', t) \<Longrightarrow>
      request_step ext js (mgr, s) (mgr', t)"
| step_reject: "request_reject js join_failed rid reason mgr s = (r, mgr', t) \<Longrightarrow>
      request_step ext js (mgr, s) (mgr', t)"

lemma request_step_sound:
  assumes "request_step ext js (mgr, s) (mgr', t)" and "wf_requests ext (rm_requests mgr)"
  shows "wf_requests ext (rm_requests mgr')
    \<and> (\<forall>k. request_transition (request_get k mgr) (request_get k mgr'))"
  using assms(1)
proof cases
  case (step_submit e join_failed rid r)
  then show ?thesis using request_insert_step assms(2) by blast
next
  case (step_approve join_failed rid r)
  show ?thesis
    by (rule request_finish_step [OF assms(2) step_approve [unfolded request_approve_def]])
      (auto simp: validate_entry_def result_simps split: if_splits)
next
  case (step_reject join_failed rid reason r)
  show ?thesis
  proof (cases "validate_reason reason")
    case (Inl e)
    with step_reject assms(2) show ?thesis by (simp add: request_reject_def request_transition_def)
  next
    case (Inr u)
    then have "request_finish js join_failed rid
        (\<lambda>e. e\<lparr>rq_status := Rejected, rq_reason := reason, rq_rule_file := []\<rparr>) mgr s = (r, mgr', t)"
      using step_reject by (simp add: request_reject_def)
    from assms(2) this show ?thesis
      by (rule request_finish_step) (use Inr validate_entry_finished in auto)
  qed
qed

lemma request_steps_wf:
  assumes "(request_step ext js)\<^sup>*\<^sup>* (mgr, s) (mgr', t)" and "wf_requests ext (rm_requests mgr)"
  shows "wf_requests ext (rm_requests mgr')"
  using assms
proof (induction "(mgr', t)" arbitrary: mgr' t rule: rtranclp_induct)
  case (step y)
  obtain mgr1 u where y: "y = (mgr1, u)" by fastforce
  with step show ?case using request_step_sound by blast
qed simp

text \<open>A loaded queue is well-formed.\<close>

definition json_codec :: "request_json \<Rightarrow> bool" where
  "json_codec js \<longleftrightarrow>
     (\<forall>bytes m. json_parse js bytes = Some m \<longrightarrow> distinct (map fst m))
     \<and> (\<forall>m bytes. json_print js m = Some bytes \<longrightarrow> distinct (map fst m) \<longrightarrow>
          (\<exists>m'. json_parse js bytes = Some m' \<and> map_of m' = map_of m))"

lemma check_loaded_fold:
  "fold_res (check_loaded_entry ext) m () = Inr () \<longleftrightarrow>
     (\<forall>(rid, e) \<in> set m. valid_request_id rid \<and> validate_entry ext e (rq_status e = Pending) = Inr ())"
  by (induction m) (auto simp: check_loaded_entry_def res_bind_def split: sum.splits if_splits)

lemma load_entries_wf:
  assumes "distinct (map fst m)"
  shows "length m \<le> MAX_REQUESTS \<and> fold_res (check_loaded_entry ext) m () = Inr () \<longleftrightarrow>
    wf_requests ext m"
  using assms by (auto simp: check_loaded_fold wf_requests_def)

lemma load_rule_requests_wf:
  assumes "json_codec js" and "load_rule_requests ext js p s = (Inr m, t)"
  shows "wf_requests ext m"
proof -
  from assms(2) have "m = [] \<or> (\<exists>bytes. json_parse js bytes = Some m \<and> length m \<le> MAX_REQUESTS
      \<and> fold_res (check_loaded_entry ext) m () = Inr ())"
    by (cases "fst (read_optional p MAX_STATE_BYTES s)")
      (auto simp: load_rule_requests_def io_bind_def io_map_err_def io_lift_def io_return_def
        ok_or_def result_simps split: option.splits if_splits sum.splits prod.splits)
  then show ?thesis
    using assms(1) load_entries_wf [of m ext] by (auto simp: json_codec_def wf_requests_def)
qed

lemma same_map_length:
  assumes "map_of m = map_of m'" and "distinct (map fst m)" and "distinct (map fst m')"
  shows "length m = length m'"
  using assms by (metis distinct_card dom_map_of_conv_image_fst length_map list.set_map)

text \<open>Without faults, reading back what was just persisted gives the same queue.\<close>

lemma read_optional_quiet:
  assumes "events s = []" and "node_at s p = Some (File bytes mode)" and "length bytes \<le> limit"
  shows "read_optional p limit s = (Inr (Some bytes), s)"
  using assms
  by (simp add: read_optional_def lstat_def syscall_quiet open_nofollow_def with_context_def
      plain_call_def Let_def)

lemma persisted_loads:
  assumes "json_codec js" and "wf_requests ext m" and "json_print js m = Some bytes"
    and "length bytes \<le> MAX_STATE_BYTES"
    and "events s = []" and "node_at s p = Some (File bytes 384)"
  shows "\<exists>m'. load_rule_requests ext js p s = (Inr m', s) \<and> map_of m' = map_of m"
proof -
  have "distinct (map fst m)" using assms(2) by (simp add: wf_requests_def)
  then obtain m' where m': "json_parse js bytes = Some m'" "map_of m' = map_of m"
    "distinct (map fst m')" using assms(1,3) unfolding json_codec_def by metis
  then have "wf_requests ext m'"
    using assms(2) same_map_length [of m' m] by (simp add: wf_requests_def)
  then have "length m' \<le> MAX_REQUESTS" "fold_res (check_loaded_entry ext) m' () = Inr ()"
    using load_entries_wf [OF m'(3)] by blast+
  then have "load_rule_requests ext js p s = (Inr m', s)"
    using read_optional_quiet [OF assms(5,6,4)] m'(1)
    by (simp add: load_rule_requests_def io_bind_def io_map_err_def io_lift_def)
  with m'(2) show ?thesis by blast
qed

section \<open>Branches of reload and approval\<close>

lemma revoke_derived_cases:
  assumes "revoke_derived ctl ops dns = (r, dns')"
  obtains (refused) e e' where "r = Inl e" "ds_cache dns' = ds_cache dns"
      "flush_all ctl (ds_dynamic dns) (ds_kernel dns) = (Inl e', ds_dynamic dns', ds_kernel dns')"
  | (revoked) n where "r = Inr ()" "ds_cache dns' = snd (cache_clear ops (ds_cache dns))"
      "flush_all ctl (ds_dynamic dns) (ds_kernel dns) = (Inr n, ds_dynamic dns', ds_kernel dns')"
  using assms
  by (auto simp: revoke_derived_def flush_cache_def split: prod.splits sum.splits)

lemma reload_components_cases:
  assumes "reload_components ax join_failed st = (r, st')"
  obtains (not_loaded) e e' where "r = Inl e" "ap_rules st' = ap_rules st" "ap_dns st' = ap_dns st"
      "prepare_reload (ax_loader ax) join_failed (ap_rules st) (ap_fs st) = (Inl e', ap_fs st')"
      "ap_requests st' = ap_requests st" "ap_rules_dir st' = ap_rules_dir st"
  | (not_revoked) e prepared where "r = Inl e" "ap_rules st' = ap_rules st"
      "prepare_reload (ax_loader ax) join_failed (ap_rules st) (ap_fs st) = (Inr prepared, ap_fs st')"
      "revoke_derived (ax_ctl ax) (ax_lru ax) (ap_dns st) = (Inl e, ap_dns st')"
      "ap_requests st' = ap_requests st" "ap_rules_dir st' = ap_rules_dir st"
  | (reloaded) prepared info where "r = Inr info"
      "commit_reload prepared (ap_rules st) = (info, ap_rules st')"
      "prepare_reload (ax_loader ax) join_failed (ap_rules st) (ap_fs st) = (Inr prepared, ap_fs st')"
      "revoke_derived (ax_ctl ax) (ax_lru ax) (ap_dns st) = (Inr (), ap_dns st')"
      "ap_requests st' = ap_requests st" "ap_rules_dir st' = ap_rules_dir st"
  using assms
  by (auto simp: reload_components_def split: prod.splits sum.splits)

lemma restore_components_cases:
  assumes "restore_components ax saved st = (r, st')"
  shows "ap_rules st' = restore_snapshot saved (ap_rules st)
    \<and> revoke_derived (ax_ctl ax) (ax_lru ax) (ap_dns st) = (r, ap_dns st')
    \<and> ap_requests st' = ap_requests st \<and> ap_fs st' = ap_fs st"
  using assms by (auto simp: restore_components_def Let_def split: prod.splits)

lemma prepare_reload_frame: "touches {} (prepare_reload ext join_failed engine)"
  unfolding prepare_reload_def by (auto intro: touches_return touches_map_err touches_load_rules)

text \<open>One operation of the queue, and whether it reports success.\<close>

datatype request_op =
    Op_Submit string rule_request_entry
  | Op_Approve string
  | Op_Reject string "string option"

definition run_request_op ::
  "'p loader_ext \<Rightarrow> request_json \<Rightarrow> bool \<Rightarrow> request_op \<Rightarrow> rule_request_manager \<Rightarrow> fs
     \<Rightarrow> bool \<times> rule_request_manager \<times> fs" where
  "run_request_op ext js join_failed op mgr s =
     (case op of
        Op_Submit rid e \<Rightarrow>
          apfst is_ok (request_insert ext js join_failed rid (e\<lparr>rq_status := Pending\<rparr>) mgr s)
      | Op_Approve rid \<Rightarrow>
          apfst (\<lambda>r. is_ok r \<and> r \<noteq> Inr None) (request_approve js join_failed rid mgr s)
      | Op_Reject rid reason \<Rightarrow>
          apfst (\<lambda>r. is_ok r \<and> r \<noteq> Inr None) (request_reject js join_failed rid reason mgr s))"

lemma run_request_op_cases:
  assumes "run_request_op ext js join_failed op mgr s = (ok, mgr', t)"
  obtains (kept) "\<not> ok" "mgr' = mgr"
  | (stored) m bytes where "ok" "mgr' = mgr\<lparr>rm_requests := m\<rparr>" "json_print js m = Some bytes"
      "length bytes \<le> MAX_STATE_BYTES" "write_atomic (rm_state_path mgr) bytes 384 s = (Inr (), t)"
proof -
  have persist: thesis if "request_persist js join_failed m mgr s = (r, mgr', t)" and "ok = is_ok r"
    for m r
    using that(1) by (cases rule: request_persist_cases) (use that(2) kept stored in auto)
  have finish: thesis if "request_finish js join_failed rid change mgr s = (r, mgr', t)"
    and "ok \<longleftrightarrow> is_ok r \<and> r \<noteq> Inr None" for rid change r
  proof (cases "\<exists>e. request_get rid mgr = Some e \<and> rq_status e = Pending")
    case False
    then show ?thesis using that kept by (auto simp: request_finish_def split: option.splits if_splits)
  next
    case True
    then obtain e where e: "request_get rid mgr = Some e" "rq_status e = Pending" by blast
    obtain r1 mgr1 t1 where p: "request_persist js join_failed
        (AList.update rid (change e) (rm_requests mgr)) mgr s = (r1, mgr1, t1)" by (metis prod_cases3)
    from that(1) e p have "mgr1 = mgr'" "t1 = t" "is_ok r1 \<longleftrightarrow> is_ok r \<and> r \<noteq> Inr None"
      by (auto simp: request_finish_def split: sum.splits)
    with p that(2) show ?thesis by (intro persist) auto
  qed
  have insert: thesis if "request_insert ext js join_failed rid e mgr s = (r, mgr', t)"
    and "ok = is_ok r" for rid e r
  proof (cases "validate_entry ext e True")
    case (Inl err)
    from that have "\<not> ok" "mgr' = mgr" by (auto simp: request_insert_def Inl split: if_splits)
    then show ?thesis by (rule kept)
  next
    case (Inr u)
    show ?thesis
      using that kept persist by (auto simp: request_insert_def Inr Let_def split: if_splits)
  qed
  show thesis
  proof (cases op)
    case (Op_Submit rid e)
    with assms insert show ?thesis
      by (auto simp: run_request_op_def apfst_def map_prod_def split: prod.splits)
  next
    case (Op_Approve rid)
    with assms finish show ?thesis
      by (auto simp: run_request_op_def request_approve_def apfst_def map_prod_def split: prod.splits)
  next
    case (Op_Reject rid reason)
    with assms finish kept show ?thesis
      by (cases "validate_reason reason")
        (auto simp: run_request_op_def request_reject_def apfst_def map_prod_def split: prod.splits)
  qed
qed

lemma run_request_op_step:
  "run_request_op ext js join_failed op mgr s = (ok, mgr', t) \<Longrightarrow> request_step ext js (mgr, s) (mgr', t)"
  by (auto simp: run_request_op_def apfst_def map_prod_def split: request_op.splits prod.splits
      intro: step_submit [rotated] step_approve step_reject)

definition derived_revoked ::
  "'c dns_lru \<Rightarrow> ('s \<Rightarrow> u64 \<rightharpoonup> string list) \<Rightarrow> ('c, 's) dns_state \<Rightarrow> bool" where
  "derived_revoked ops active dns \<longleftrightarrow>
     ds_dynamic dns = [] \<and> active (ds_kernel dns) = Map.empty \<and> lru_iter ops (ds_cache dns) = []"

lemma revoke_derived_sound:
  assumes "nft_controller ctl active" and "lru ops" and "wf_cache ops (ds_cache dns)"
    and "wf_dyn (ds_dynamic dns)" and "tracked (active (ds_kernel dns)) (ds_dynamic dns)"
    and "revoke_derived ctl ops dns = (r, dns')"
  shows "tracked (active (ds_kernel dns')) (ds_dynamic dns') \<and> (is_ok r \<longrightarrow> derived_revoked ops active dns')"
proof -
  note flush = nft_controller.flush_all_sound [OF assms(1) conjI [OF assms(4,5)]]
  from assms(6) show ?thesis
  proof (cases rule: revoke_derived_cases)
    case refused
    then show ?thesis using flush [OF refused(3)] by simp
  next
    case revoked
    then show ?thesis
      using flush [OF revoked(3)] cache_clear_sound [OF assms(2,3)] by (simp add: derived_revoked_def)
  qed
qed

lemma request_approve_frame:
  assumes "no_race s" and "rm_state_path mgr \<noteq> []"
    and "request_approve js join_failed rid mgr s = (r, mgr', t)"
  shows "frame (insert (rm_state_path mgr) (scratch (rm_state_path mgr))) s t"
proof -
  let ?A = "insert (rm_state_path mgr) (scratch (rm_state_path mgr))"
  have refl: "frame ?A s s" using assms(1) by (auto intro: frame_mono [OF frame_refl])
  have "touches ?A (write_atomic (rm_state_path mgr) bytes 384)" for bytes
    using write_atomic_cases(1) [OF _ assms(2)] by (rule touchesI)
  then have "touches ?A (persist_rule_requests js (rm_state_path mgr) m)" for m
    unfolding persist_rule_requests_def
    by (auto intro: touches_map_err touches_return split: option.splits)
  note persist = touchesD [OF this assms(1)]
  have "frame ?A s t" if p: "request_persist js join_failed m mgr s = (r, mgr', t)" for m r
  proof (cases join_failed)
    case True
    with p refl show ?thesis by (simp add: request_persist_def)
  next
    case False
    obtain x u where "persist_rule_requests js (rm_state_path mgr) m s = (x, u)" by fastforce
    with p False persist show ?thesis by (cases x) (auto simp: request_persist_def)
  qed
  then show ?thesis
    using assms(3) refl
    by (auto simp: request_approve_def request_finish_def split: option.splits if_splits prod.splits
        sum.splits)
qed

lemma request_approve_cases:
  assumes "request_approve js join_failed rid mgr s = (r, mgr', t)"
    and "request_get rid mgr = Some e" and "rq_status e = Pending"
  shows "(\<exists>x. r = Inl x) \<and> mgr' = mgr
    \<or> (\<exists>x. r = Inr x) \<and> (\<exists>e'. request_get rid mgr' = Some e' \<and> rq_status e' = Approved)"
  using assms
  by (auto simp: request_approve_def request_finish_def request_get_def split: prod.splits sum.splits
      elim!: request_persist_cases)

text \<open>After the rule file is installed.\<close>

lemma approve_installed_cases:
  assumes "no_race (ap_fs st)" and "rm_state_path (ap_requests st) \<noteq> []"
    and "p \<notin> insert (rm_state_path (ap_requests st)) (scratch (rm_state_path (ap_requests st)))"
    and "request_get rid (ap_requests st) = Some e" and "rq_status e = Pending"
    and "approve_installed ax f g rid p st = (resp, st')"
  obtains (failed) "re_rule_set (ap_rules st') = re_rule_set (ap_rules st)"
      "ap_requests st' = ap_requests st" "\<And>rid' n. resp \<noteq> Approve_Ok rid' n"
      "resp = Approve_Reload_Failed None \<or> resp = Approve_Persist_Failed True \<Longrightarrow>
        node_at (ap_fs st') p = None"
  | (approved) info st1 e' where "resp = Approve_Ok rid (fst (snd info))"
      "reload_components ax f st = (Inr info, st1)" "ap_dns st' = ap_dns st1"
      "ap_rules st' = ap_rules st1" "request_get rid (ap_requests st') = Some e'"
      "rq_status e' = Approved" "node_at (ap_fs st') p = node_at (ap_fs st) p"
proof -
  obtain r st1 where r: "reload_components ax f st = (r, st1)" by fastforce
  have fs: "frame {} (ap_fs st) (ap_fs st1)" and rq: "ap_requests st1 = ap_requests st"
    using r by (cases rule: reload_components_cases;
      use touchesD [OF prepare_reload_frame assms(1)] in blast)+
  show thesis
  proof (cases r)
    case (Inl err)
    obtain x t where x: "remove_if_exists p (ap_fs st1) = (x, t)" by fastforce
    have "ap_rules st1 = ap_rules st"
      using r Inl by (cases rule: reload_components_cases) auto
    moreover have "node_at t p = None" if "err_of x = None"
      using that x remove_if_exists_gone [OF frame_no_race [OF fs]]
      by (cases x) (auto simp: err_of_def)
    ultimately show ?thesis
      using assms(6) r Inl x rq by (intro failed) (auto simp: approve_installed_def Let_def)
  next
    case (Inr info)
    obtain a mgr t where a: "request_approve (ax_json ax) g rid (ap_requests st) (ap_fs st1)
        = (a, mgr, t)" by (metis prod_cases3)
    note fr = request_approve_frame [OF frame_no_race [OF fs] assms(2) a]
    have pt: "node_at t p = node_at (ap_fs st) p"
      using frame_node [OF fr assms(3)] frame_node [OF fs] by simp
    from request_approve_cases [OF a assms(4,5)] show ?thesis
    proof
      assume "(\<exists>x. a = Inr x) \<and> (\<exists>e'. request_get rid mgr = Some e' \<and> rq_status e' = Approved)"
      then show ?thesis
        using assms(6) r Inr a pt rq
        by (auto simp: approve_installed_def Let_def intro!: approved split: prod.splits)
    next
      assume "(\<exists>x. a = Inl x) \<and> mgr = ap_requests st"
      then obtain x where x: "a = Inl x" "mgr = ap_requests st" by blast
      obtain y u where y: "remove_if_exists p t = (y, u)" by fastforce
      obtain z st2 where z: "restore_components ax (re_rule_set (ap_rules st))
          (st1\<lparr>ap_requests := mgr, ap_fs := u\<rparr>) = (z, st2)" by fastforce
      note c = restore_components_cases [OF z]
      have "st' = st2" "resp = Approve_Persist_Failed (is_ok y \<and> is_ok z)"
        using assms(6) r Inr a x y z rq
        by (auto simp: approve_installed_def Let_def snapshot_def split: prod.splits)
      moreover have "node_at u p = None" if "is_ok y"
        using that y remove_if_exists_gone [OF frame_no_race [OF fr]] by (auto simp: is_ok_iff)
      ultimately show ?thesis
        using c x by (intro failed) (auto simp: restore_snapshot_def)
    qed
  qed
qed

lemma approve_cases:
  assumes "approve ax f g rid st = (resp, st')"
  obtains (early) "ap_rules st' = ap_rules st" "ap_requests st' = ap_requests st"
      "\<And>rid' n. resp \<noteq> Approve_Ok rid' n" "\<And>b. resp \<noteq> Approve_Persist_Failed b"
      "\<And>b. resp \<noteq> Approve_Reload_Failed b"
  | (installed) e t where "valid_request_id rid" "request_get rid (ap_requests st) = Some e"
      "rq_status e = Pending"
      "write_new_atomic (agent_rule_path (ap_rules_dir st) rid) (rq_rule_file e) 384 (ap_fs st)
        = (Inr (), t)"
      "approve_installed ax f g rid (agent_rule_path (ap_rules_dir st) rid) (st\<lparr>ap_fs := t\<rparr>)
        = (resp, st')"
proof (cases "valid_request_id rid")
  case False
  with assms show thesis by (intro early) (auto simp: approve_def)
next
  case True
  show thesis
  proof (cases "request_get rid (ap_requests st)")
    case None
    with assms True show thesis by (intro early) (auto simp: approve_def)
  next
    case (Some e)
    obtain r t where w: "write_new_atomic (agent_rule_path (ap_rules_dir st) rid) (rq_rule_file e) 384
        (ap_fs st) = (r, t)" by fastforce
    show thesis
    proof (cases "rq_status e = Pending")
      case False
      with assms True Some show thesis
        by (intro early) (cases "rq_status e"; auto simp: approve_def)+
    next
      case p: True
      show thesis
      proof (cases r)
        case (Inl err)
        with assms True Some w p show thesis by (intro early) (auto simp: approve_def Let_def)
      next
        case (Inr u)
        with assms True Some w p show thesis by (intro installed) (auto simp: approve_def Let_def)
      qed
    qed
  qed
qed

lemma reload_components_sound:
  assumes "nft_controller (ax_ctl ax) active" and "lru (ax_lru ax)"
    and "wf_cache (ax_lru ax) (ds_cache (ap_dns st))" and "wf_dyn (ds_dynamic (ap_dns st))"
    and "tracked (active (ds_kernel (ap_dns st))) (ds_dynamic (ap_dns st))"
    and "reload_components ax join_failed st = (r, st')"
  shows "tracked (active (ds_kernel (ap_dns st'))) (ds_dynamic (ap_dns st'))
    \<and> (\<not> is_ok r \<longrightarrow> re_rule_set (ap_rules st') = re_rule_set (ap_rules st))
    \<and> (\<forall>info. r = Inr info \<longrightarrow> derived_revoked (ax_lru ax) active (ap_dns st')
        \<and> (\<exists>loaded. load_rules (ax_loader ax) (re_rules_dir (ap_rules st)) (ap_fs st)
             = (Inr loaded, ap_fs st') \<and> re_rule_set (ap_rules st') = lr_rule_set loaded
             \<and> fst (snd info) = length (lr_rule_set loaded)))"
  using assms(6)
proof (cases rule: reload_components_cases)
  case not_loaded
  then show ?thesis using assms(5) by simp
next
  case not_revoked
  then show ?thesis using revoke_derived_sound [OF assms(1-5) not_revoked(4)] by simp
next
  case (reloaded prepared info)
  have "load_rules (ax_loader ax) (re_rules_dir (ap_rules st)) (ap_fs st) = (Inr prepared, ap_fs st')"
    using reloaded(3) by (auto simp: prepare_reload_def io_eqs split: if_splits)
  then show ?thesis
    using revoke_derived_sound [OF assms(1-5) reloaded(4)] reloaded(1,2)
    by (auto simp: commit_reload_def eq_commute [of _ "ap_rules st'"])
qed

section \<open>Properties\<close>

text \<open>
  C30: The life of a rule request. Starting from a loaded queue, every submission, approval and rejection,
  successful or not, keeps the queue well-formed (distinct valid identifiers, at most 10,000 entries,
  every entry within its limits, every pending rule file accepted by the loader's validation) and
  moves each request only from absent to pending, from pending to approved or rejected with its rule
  file dropped, or from completed to forgotten.
\<close>

theorem request_lifecycle:
  assumes "json_codec js" and "manager_new ext js p s0 = (Inr mgr0, s1)"
    and "(request_step ext js)\<^sup>*\<^sup>* (mgr0, s1) (mgr, s)" and "request_step ext js (mgr, s) (mgr', s')"
  shows "wf_requests ext (rm_requests mgr')
    \<and> (\<forall>rid. request_transition (request_get rid mgr) (request_get rid mgr'))"
proof -
  have "wf_requests ext (rm_requests mgr0)"
    using assms(1,2) by (auto simp: manager_new_def io_eqs dest: load_rule_requests_wf)
  then have "wf_requests ext (rm_requests mgr)" using request_steps_wf [OF assms(3)] by blast
  then show ?thesis using request_step_sound [OF assms(4)] by blast
qed

text \<open>
  C29: Completed operations survive a restart. When a submission, an approval or a rejection reports
  success, the state file holds the queue that is in memory, and a daemon started on it (when its
  reads succeed) loads exactly those requests. A failed operation leaves the queue in memory as it
  was.
\<close>

theorem requests_survive_restart:
  assumes "json_codec js" and "wf_requests ext (rm_requests mgr)" and "rm_state_path mgr \<noteq> []"
    and "no_race s" and "run_request_op ext js join_failed op mgr s = (ok, mgr', t)"
    and "events restart = []"
    and "node_at restart (rm_state_path mgr) = node_at t (rm_state_path mgr)"
  shows "(ok \<longrightarrow> (\<exists>m. load_rule_requests ext js (rm_state_path mgr) restart = (Inr m, restart)
        \<and> map_of m = map_of (rm_requests mgr')))
    \<and> (\<not> ok \<longrightarrow> mgr' = mgr)"
  using assms(5)
proof (cases rule: run_request_op_cases)
  case (stored m bytes)
  have "wf_requests ext m"
    using request_step_sound [OF run_request_op_step [OF assms(5)] assms(2)] stored(2) by simp
  moreover have "node_at restart (rm_state_path mgr) = Some (File bytes 384)"
    using write_atomic_cases(3) [OF assms(4,3) stored(5)] assms(7) by simp
  ultimately show ?thesis using persisted_loads [OF assms(1) _ stored(3,4) assms(6)] stored by simp
qed simp



section \<open>Examples\<close>

definition demo_rid :: string where
  "demo_rid = ''rr-000000000000''"

definition demo_rule_path :: path where
  "demo_rule_path = [''r'', ''agent-rr-000000000000.yaml'']"

definition demo_entry :: rule_request_entry where
  "demo_entry = \<lparr>rq_container_id = ''c'', rq_rule_file = ''demo'', rq_status = Pending, rq_reason = None\<rparr>"

definition demo_json :: request_json where
  "demo_json = \<lparr>
     json_print = (\<lambda>m. if m = [(demo_rid, demo_entry)] then Some ''p''
       else if m = [(demo_rid, demo_entry\<lparr>rq_status := Approved, rq_rule_file := []\<rparr>)] then Some ''a''
       else None),
     json_parse = (\<lambda>s. if s = ''p'' then Some [(demo_rid, demo_entry)]
       else if s = ''a'' then Some [(demo_rid, demo_entry\<lparr>rq_status := Approved, rq_rule_file := []\<rparr>)]
       else None)\<rparr>"

definition demo_app_fs :: "io_event list \<Rightarrow> fs" where
  "demo_app_fs es = \<lparr>nodes = [([], Dir), ([''r''], Dir)], events = es, next_seq = 0, proc_id = 1\<rparr>"

definition demo_installed_fs :: fs where
  "demo_installed_fs = \<lparr>nodes = [([], Dir), ([''r''], Dir), (demo_rule_path, File ''demo'' 384)],
     events = [], next_seq = 1, proc_id = 1\<rparr>"

definition demo_ax :: "(string, (cache_key, cache_entry) lru_list, nft_kernel) app_ext" where
  "demo_ax = \<lparr>ax_loader = demo_ext, ax_lru = list_lru,
     ax_ctl = system_nft demo_net_ext sim_nft demo_bridge, ax_json = demo_json\<rparr>"

definition demo_app ::
  "io_event list \<Rightarrow> (string, (cache_key, cache_entry) lru_list, nft_kernel) app_state" where
  "demo_app es = \<lparr>ap_rules_dir = [''r''], ap_rules = \<lparr>re_rules_dir = [''r''], re_rule_set = []\<rparr>,
     ap_dns = demo_dns_state,
     ap_requests = \<lparr>rm_requests = [(demo_rid, demo_entry)], rm_state_path = [''s'']\<rparr>,
     ap_fs = demo_app_fs es\<rparr>"

lemma demo_rid_valid: "valid_request_id demo_rid"
  by (simp add: valid_request_id_def demo_rid_def is_lower_hex_def is_ascii_digit_def)

lemma demo_install:
  "write_new_atomic demo_rule_path ''demo'' 384 (demo_app_fs []) = (Inr (), demo_installed_fs)"
  "write_new_atomic demo_rule_path ''demo'' 384 (demo_app_fs (replicate 8 Quiet @ [Fail 0]))
     = (Inl (Open_Failed [''r'']), demo_installed_fs)"
  by code_simp+

lemma demo_load_agent:
  "\<exists>loaded. load_rules demo_ext [''r''] demo_installed_fs = (Inr loaded, demo_installed_fs)
     \<and> map cr_id (lr_rule_set loaded) = [''web'', ''deny'']"
proof -
  let ?f = "''agent-rr-000000000000.yaml''"
  have d: "discover_rule_files [''r''] demo_installed_fs = (Inr [?f], demo_installed_fs)"
    by (simp add: discover_rule_files_def read_dir_def discover_entry_def dir_entries_def
        demo_installed_fs_def demo_rule_path_def lstat_def syscall_def plain_call_def node_at_def
        io_bind_def with_context_def io_return_def is_rule_file_def extension_def demo_limits)
  have u: "valid_utf8 ?f" by (simp add: valid_utf8.simps utf8_head_def)
  have "read_rule_file [''r''] ?f demo_installed_fs = (Inr ''demo'', demo_installed_fs)"
    by (simp add: read_rule_file_def read_optional_def call_defs syscall_def demo_installed_fs_def
        demo_rule_path_def node_at_def io_bind_def io_map_err_def with_context_def io_return_def
        demo_limits demo_valid_utf8)
  then have l: "load_file demo_ext [''r''] ?f st demo_installed_fs
      = (load_content demo_ext ?f ''demo'' st, demo_installed_fs)" for st
    by (simp add: load_file_def io_bind_def io_lift_def u)
  have "\<exists>st. load_content demo_ext ?f ''demo'' init_load_state = Inr st
      \<and> map cr_id (sort_by_key cr_priority (ls_rules st)) = [''web'', ''deny'']"
    using demo_expand(2) [of "\<lambda>_. False" ?f]
    by (simp add: demo_load_defs demo_ext_def demo_file_def demo_expand(1) init_load_state_def
        sort_by_key_def)
  then show ?thesis
    using d l by (auto simp: load_rules_def io_bind_def io_return_def init_load_state_def)
qed

definition demo_state_fs :: fs where
  "demo_state_fs = \<lparr>nodes = [([], Dir), ([''s''], File ''p'' 384)], events = [], next_seq = 0, proc_id = 1\<rparr>"

lemma demo_state_write: "fst (write_atomic [''s''] ''a'' 384 demo_state_fs) = Inr ()"
  by code_simp

lemma demo_revoke: "\<exists>dns. revoke_derived ctl ops demo_dns_state = (Inr (), dns)"
  by (simp add: revoke_derived_def flush_all_def all_rules_def demo_dns_state_def)

lemma demo_reload:
  assumes "ap_fs st = demo_installed_fs" and "ap_rules st = \<lparr>re_rules_dir = [''r''], re_rule_set = rs\<rparr>"
    and "ap_dns st = demo_dns_state"
  shows "\<exists>info st'. reload_components demo_ax False st = (Inr info, st') \<and> fst (snd info) = 2
    \<and> map cr_id (re_rule_set (ap_rules st')) = [''web'', ''deny''] \<and> ap_fs st' = demo_installed_fs
    \<and> ap_requests st' = ap_requests st"
proof -
  obtain loaded where l: "load_rules demo_ext [''r''] demo_installed_fs = (Inr loaded, demo_installed_fs)"
    "map cr_id (lr_rule_set loaded) = [''web'', ''deny'']" using demo_load_agent by meson
  have "length (lr_rule_set loaded) = 2" using arg_cong [OF l(2), of length] by simp
  moreover obtain dns where "revoke_derived (ax_ctl demo_ax) (ax_lru demo_ax) demo_dns_state = (Inr (), dns)"
    using demo_revoke by meson
  ultimately show ?thesis
    using l assms
    by (simp add: reload_components_def prepare_reload_def io_map_err_def commit_reload_def demo_ax_def)
qed

lemma demo_codec: "json_codec demo_json"
  by (auto simp: json_codec_def demo_json_def split: if_splits)

lemma demo_validate_entry: "validate_entry demo_ext demo_entry True = Inr ()"
  using demo_validate
  by (simp add: validate_entry_def demo_entry_def MAX_CONTAINER_ID_BYTES_def is_container_id_char_def
      is_ascii_alphanumeric_def is_ascii_lower_def MAX_REQUEST_RULE_FILE_BYTES_def validate_reason_def
      map_err_def)

lemma demo_wf_requests: "wf_requests demo_ext [(demo_rid, demo_entry)]"
  using demo_rid_valid demo_validate_entry
  by (simp add: wf_requests_def MAX_REQUESTS_def) (simp add: demo_entry_def)

lemma demo_request_approve:
  "request_approve demo_json False demo_rid \<lparr>rm_requests = [(demo_rid, demo_entry)], rm_state_path = [''s'']\<rparr>
     demo_installed_fs =
   (Inr (Some (demo_entry\<lparr>rq_status := Approved, rq_rule_file := []\<rparr>)),
    \<lparr>rm_requests = [(demo_rid, demo_entry\<lparr>rq_status := Approved, rq_rule_file := []\<rparr>)],
     rm_state_path = [''s'']\<rparr>,
    demo_installed_fs\<lparr>nodes := nodes demo_installed_fs @ [([''s''], File ''a'' 384)], next_seq := 2\<rparr>)"
proof -
  have "write_atomic [''s''] ''a'' 384 demo_installed_fs = (Inr (),
      demo_installed_fs\<lparr>nodes := nodes demo_installed_fs @ [([''s''], File ''a'' 384)], next_seq := 2\<rparr>)"
    by code_simp
  then show ?thesis
    by (simp add: request_approve_def request_finish_def request_get_def request_persist_def
        persist_rule_requests_def demo_json_def demo_entry_def MAX_STATE_BYTES_def io_map_err_def)
qed

lemma demo_approve:
  "\<exists>st. approve demo_ax False False demo_rid (demo_app []) = (Approve_Ok demo_rid 2, st)"
proof -
  have p: "agent_rule_path [''r''] demo_rid = demo_rule_path"
    by (simp add: agent_rule_path_def demo_rid_def demo_rule_path_def)
  let ?st = "(demo_app [])\<lparr>ap_fs := demo_installed_fs\<rparr>"
  obtain info st1 where r: "reload_components demo_ax False ?st = (Inr info, st1)" "fst (snd info) = 2"
    "ap_fs st1 = demo_installed_fs" "ap_requests st1 = ap_requests ?st"
    using demo_reload [of ?st "[]"] by (auto simp: demo_app_def)
  have "approve demo_ax False False demo_rid (demo_app [])
      = approve_installed demo_ax False False demo_rid demo_rule_path ?st"
    using demo_install(1) p
    by (simp add: approve_def demo_rid_valid request_get_def demo_app_def demo_entry_def)
  then show ?thesis
    using r demo_request_approve
    by (simp add: approve_installed_def Let_def demo_ax_def demo_app_def case_prod_beta)
qed



theorem requests_survive_restart_witness:
  "\<exists>mgr t m. run_request_op demo_ext demo_json False (Op_Approve demo_rid)
       \<lparr>rm_requests = [(demo_rid, demo_entry)], rm_state_path = [''s'']\<rparr> demo_installed_fs = (True, mgr, t)
     \<and> load_rule_requests demo_ext demo_json [''s''] t = (Inr m, t)
     \<and> map_of m demo_rid = Some (demo_entry\<lparr>rq_status := Approved, rq_rule_file := []\<rparr>)"
proof -
  let ?mgr = "\<lparr>rm_requests = [(demo_rid, demo_entry)], rm_state_path = [''s'']\<rparr>"
  let ?t = "demo_installed_fs\<lparr>nodes := nodes demo_installed_fs @ [([''s''], File ''a'' 384)], next_seq := 2\<rparr>"
  have r: "run_request_op demo_ext demo_json False (Op_Approve demo_rid) ?mgr demo_installed_fs
      = (True, \<lparr>rm_requests = [(demo_rid, demo_entry\<lparr>rq_status := Approved, rq_rule_file := []\<rparr>)],
         rm_state_path = [''s'']\<rparr>, ?t)"
    using demo_request_approve by (simp add: run_request_op_def)
  have "wf_requests demo_ext (rm_requests ?mgr)" "rm_state_path ?mgr \<noteq> []" "no_race demo_installed_fs"
    "events ?t = []"
    using demo_wf_requests by (simp_all add: no_race_def demo_installed_fs_def)
  from requests_survive_restart [OF demo_codec this(1-3) r this(4) refl] show ?thesis
    using r by auto
qed

theorem request_lifecycle_witness:
  "\<exists>mgr mgr'. manager_new demo_ext demo_json [''s''] demo_state_fs = (Inr mgr, demo_state_fs)
     \<and> request_get demo_rid mgr = Some demo_entry
     \<and> request_get demo_rid mgr' = Some (demo_entry\<lparr>rq_status := Approved, rq_rule_file := []\<rparr>)
     \<and> wf_requests demo_ext (rm_requests mgr')"
proof -
  let ?mgr = "\<lparr>rm_requests = [(demo_rid, demo_entry)], rm_state_path = [''s'']\<rparr>"
  let ?mgr' = "\<lparr>rm_requests = [(demo_rid, demo_entry\<lparr>rq_status := Approved, rq_rule_file := []\<rparr>)],
    rm_state_path = [''s'']\<rparr>"
  have "read_optional [''s''] MAX_STATE_BYTES demo_state_fs = (Inr (Some ''p''), demo_state_fs)"
    by (rule read_optional_quiet) (simp_all add: demo_state_fs_def node_at_def MAX_STATE_BYTES_def)
  then have new: "manager_new demo_ext demo_json [''s''] demo_state_fs = (Inr ?mgr, demo_state_fs)"
    using demo_rid_valid demo_validate_entry
    by (simp add: manager_new_def load_rule_requests_def io_bind_def io_map_err_def io_lift_def
        io_return_def demo_json_def MAX_REQUESTS_def check_loaded_entry_def)
      (simp add: demo_entry_def io_return_def)
  obtain w t where w: "write_atomic [''s''] ''a'' 384 demo_state_fs = (w, t)" "w = Inr ()"
    using demo_state_write by (metis prod.collapse)
  then have "request_approve demo_json False demo_rid ?mgr demo_state_fs
      = (Inr (Some (demo_entry\<lparr>rq_status := Approved, rq_rule_file := []\<rparr>)), ?mgr', t)"
    by (simp add: request_approve_def request_finish_def request_get_def request_persist_def
        persist_rule_requests_def demo_json_def demo_entry_def MAX_STATE_BYTES_def io_map_err_def)
  then have "request_step demo_ext demo_json (?mgr, demo_state_fs) (?mgr', t)" by (rule step_approve)
  from request_lifecycle [OF demo_codec new rtranclp.rtrancl_refl this] new show ?thesis
    by (intro exI [of _ ?mgr] exI [of _ ?mgr']) (simp add: request_get_def)
qed


end
