(* ===== verification/Container_Request.thy ===== *)
theory Container_Request
  imports Rule_Requests
begin

text \<open>
  Requests to create a container (outcalld/src/container\_request.rs, bind\_mount.rs, container\_env.rs,
  managed\_network.rs, network/name.rs, and the host configuration of docker/utility.rs): what is
  accepted, which host paths and container paths stay out of reach, and the configuration that is handed to
  Docker. \<open>std::fs::canonicalize\<close> is an argument.
\<close>

section \<open>The request (outcall-api/src/container.rs)\<close>

definition CONTAINER_PREFIX :: string where
  "CONTAINER_PREFIX = ''outcall-''"

definition NETWORK_PREFIX :: string where
  "NETWORK_PREFIX = ''outcall-''"

definition AGENT_SOCKET_CONTAINER_PATH :: string where
  "AGENT_SOCKET_CONTAINER_PATH = ''/run/outcall/agent.sock''"

definition SHIM_CONTAINER_PATH :: string where
  "SHIM_CONTAINER_PATH = ''/usr/local/bin/outcall''"

definition DEFAULT_MEMORY_LIMIT :: int where
  "DEFAULT_MEMORY_LIMIT = 512 * 1024 * 1024"

definition DEFAULT_CPU_SHARES :: int where
  "DEFAULT_CPU_SHARES = 1024"

definition DEFAULT_PID_LIMIT :: int where
  "DEFAULT_PID_LIMIT = 256"

definition DEFAULT_CONTAINER_USER :: string where
  "DEFAULT_CONTAINER_USER = ''65532:65532''"

definition HOST_SOCKET_DENY_PATHS :: "string list" where
  "HOST_SOCKET_DENY_PATHS = [''/tmp/outcall/host.sock'', ''/var/run/docker.sock'', ''/run/docker.sock'',
     ''/run/containerd/containerd.sock'']"

record container_create_request =
  cq_image :: string
  cq_network :: "string option"
  cq_name :: "string option"
  cq_user :: "string option"
  cq_memory_limit :: "int option"
  cq_cpu_shares :: "int option"
  cq_env :: "string list option"
  cq_cmd :: "string list option"
  cq_entrypoint :: "string list option"
  cq_working_dir :: "string option"
  cq_volumes :: "string list option"
  cq_helper_mounts :: "bool option"
  cq_interactive :: "bool option"
  cq_tty :: "bool option"

datatype container_error =
    Bad_Image
  | Bad_Container_Name
  | Bad_Network_Name
  | Bad_User
  | Bad_Memory
  | Bad_Cpu_Shares
  | Too_Many_Env
  | Bad_Env_Entry
  | Env_Not_Pair
  | Bad_Env_Key string
  | Duplicate_Env_Key string
  | Bad_Args string
  | Bad_Working_Dir
  | Mount_Limits
  | Mount_Path_Not_Absolute string
  | Mount_Path_Escapes string
  | Mount_Relative_Source string
  | Mount_Denied string "string list"
  | Bad_Mount string
  | Mount_Covers_Protected "string list" "string list"
  | Network_Not_Managed string
  | Network_Not_Bridge string
  | Network_Wrong_Bridge string

abbreviation or_default :: "'a \<Rightarrow> 'a option \<Rightarrow> 'a" where
  "or_default d x \<equiv> (case x of None \<Rightarrow> d | Some v \<Rightarrow> v)"

section \<open>container\_request.rs\<close>

definition MAX_IMAGE_REFERENCE_BYTES :: nat where "MAX_IMAGE_REFERENCE_BYTES = 512"

definition MAX_NETWORK_NAME_BYTES :: nat where "MAX_NETWORK_NAME_BYTES = 128"

definition MAX_ENV_ENTRIES :: nat where "MAX_ENV_ENTRIES = 256"

definition MAX_ENV_ENTRY_BYTES :: nat where "MAX_ENV_ENTRY_BYTES = 65536"

definition MAX_PROCESS_ARGS :: nat where "MAX_PROCESS_ARGS = 1024"

definition MAX_PROCESS_ARG_BYTES :: nat where "MAX_PROCESS_ARG_BYTES = 32768"

definition MAX_PROCESS_ARG_TOTAL_BYTES :: nat where "MAX_PROCESS_ARG_TOTAL_BYTES = 256 * 1024"

definition MAX_MOUNTS :: nat where "MAX_MOUNTS = 256"

definition MAX_MOUNT_BYTES :: nat where "MAX_MOUNT_BYTES = 8192"

definition MAX_WORKING_DIR_BYTES :: nat where "MAX_WORKING_DIR_BYTES = 4096"

abbreviation is_ascii :: "string \<Rightarrow> bool" where
  "is_ascii s \<equiv> list_all (\<lambda>c. byte c < 128) s"

definition is_ascii_control :: "char \<Rightarrow> bool" where
  "is_ascii_control c \<longleftrightarrow> byte c < 32 \<or> byte c = 127"

definition validate_user :: "string \<Rightarrow> (container_error, unit) result" where
  "validate_user user = ensure (valid_container_user user) Bad_User"

definition validate_image :: "string \<Rightarrow> (container_error, unit) result" where
  "validate_image reference =
     ensure (\<not> (reference = [] \<or> MAX_IMAGE_REFERENCE_BYTES < length reference \<or> \<not> is_ascii reference
       \<or> list_ex (\<lambda>c. is_ascii_whitespace c \<or> byte c = 0) reference)) Bad_Image"

definition validate_container_name :: "string \<Rightarrow> (container_error, unit) result" where
  "validate_container_name name = ensure (valid_container_name name) Bad_Container_Name"

definition validate_network_name :: "string \<Rightarrow> (container_error, unit) result" where
  "validate_network_name name =
     ensure (\<not> (name = [] \<or> MAX_NETWORK_NAME_BYTES < length name \<or> \<not> is_ascii name
       \<or> list_ex (\<lambda>c. is_ascii_control c \<or> is_ascii_whitespace c) name)) Bad_Network_Name"

definition validate_resources :: "int \<Rightarrow> int \<Rightarrow> (container_error, unit) result" where
  "validate_resources memory cpu_shares =
     (if \<not> valid_memory_limit memory then Inl Bad_Memory
      else if \<not> valid_cpu_shares cpu_shares then Inl Bad_Cpu_Shares else Inr ())"

fun valid_environment_key :: "string \<Rightarrow> bool" where
  "valid_environment_key [] = False"
| "valid_environment_key (c # cs) =
     ((c = CHR ''_'' \<or> is_ascii_alphabetic c)
      \<and> list_all (\<lambda>d. d = CHR ''_'' \<or> is_ascii_alphanumeric d) cs)"

text \<open>One entry; the state is the set of keys seen.\<close>

definition validate_env_entry :: "string \<Rightarrow> string list \<Rightarrow> (container_error, string list) result" where
  "validate_env_entry entry keys =
     (if MAX_ENV_ENTRY_BYTES < length entry \<or> CHR 0x00 \<in> set entry then Inl Bad_Env_Entry
      else
        res_bind (ok_or Env_Not_Pair (split_once CHR ''='' entry)) (\<lambda>(key, _).
        if \<not> valid_environment_key key then Inl (Bad_Env_Key key)
        else if key \<in> set keys then Inl (Duplicate_Env_Key key)
        else Inr (key # keys)))"

definition validate_environment :: "string list \<Rightarrow> (container_error, unit) result" where
  "validate_environment entries =
     (if MAX_ENV_ENTRIES < length entries then Inl Too_Many_Env
      else res_bind (fold_res validate_env_entry entries []) (\<lambda>_. Inr ()))"

definition validate_process_args :: "string \<Rightarrow> string list \<Rightarrow> (container_error, unit) result" where
  "validate_process_args label args =
     ensure (\<not> (MAX_PROCESS_ARGS < length args
       \<or> list_ex (\<lambda>arg. MAX_PROCESS_ARG_BYTES < length arg \<or> CHR 0x00 \<in> set arg) args
       \<or> MAX_PROCESS_ARG_TOTAL_BYTES < sum_list (map length args))) (Bad_Args label)"

section \<open>Paths of the standard library\<close>

text \<open>
  The components of a Unix path. Empty parts vanish; \<open>.\<close> vanishes but at the start of a relative path.
\<close>

datatype component = Root_Dir | Cur_Dir | Parent_Dir | Normal string

definition is_absolute :: "string \<Rightarrow> bool" where
  "is_absolute s \<longleftrightarrow> prefix ''/'' s"

definition part_component :: "string \<Rightarrow> component" where
  "part_component p = (if p = ''..'' then Parent_Dir else Normal p)"

definition components :: "string \<Rightarrow> component list" where
  "components s =
     (let parts = filter (\<lambda>p. p \<noteq> []) (split_on CHR ''/'' s);
          inner = (\<lambda>ps. map part_component (filter (\<lambda>p. p \<noteq> ''.'') ps))
      in if is_absolute s then Root_Dir # inner parts
         else (case parts of
                 [] \<Rightarrow> []
               | p # ps \<Rightarrow> if p = ''.'' then Cur_Dir # inner ps else inner parts))"

definition validate_working_dir :: "string option \<Rightarrow> (container_error, unit) result" where
  "validate_working_dir working_dir =
     (case working_dir of
        None \<Rightarrow> Inr ()
      | Some d \<Rightarrow>
          ensure (\<not> (MAX_WORKING_DIR_BYTES < length d \<or> CHR 0x00 \<in> set d \<or> \<not> is_absolute d
            \<or> list_ex (\<lambda>c. c = Cur_Dir \<or> c = Parent_Dir) (components d))) Bad_Working_Dir)"

definition validate_mounts :: "string list \<Rightarrow> (container_error, unit) result" where
  "validate_mounts mounts =
     ensure (\<not> (MAX_MOUNTS < length mounts
       \<or> list_ex (\<lambda>m. MAX_MOUNT_BYTES < length m \<or> CHR 0x00 \<in> set m) mounts)) Mount_Limits"

definition validate_create_request :: "container_create_request \<Rightarrow> (container_error, unit) result" where
  "validate_create_request request =
     res_bind (validate_image (cq_image request)) (\<lambda>_.
     res_bind (case cq_name request of None \<Rightarrow> Inr () | Some n \<Rightarrow> validate_container_name n) (\<lambda>_.
     res_bind (case cq_network request of None \<Rightarrow> Inr () | Some n \<Rightarrow> validate_network_name n) (\<lambda>_.
     res_bind (validate_user (or_default DEFAULT_CONTAINER_USER (cq_user request))) (\<lambda>_.
     res_bind (validate_resources (or_default DEFAULT_MEMORY_LIMIT (cq_memory_limit request))
                (or_default DEFAULT_CPU_SHARES (cq_cpu_shares request))) (\<lambda>_.
     res_bind (validate_environment (or_default [] (cq_env request))) (\<lambda>_.
     res_bind (validate_process_args ''container command'' (or_default [] (cq_cmd request))) (\<lambda>_.
     res_bind (validate_process_args ''container entrypoint'' (or_default [] (cq_entrypoint request))) (\<lambda>_.
     res_bind (validate_working_dir (cq_working_dir request)) (\<lambda>_.
       validate_mounts (or_default [] (cq_volumes request)))))))))))"

section \<open>bind\_mount.rs\<close>

definition PROTECTED_CONTAINER_PATHS :: "string list list" where
  "PROTECTED_CONTAINER_PATHS =
     [[''run'', ''outcall'', ''agent.sock''], [''usr'', ''local'', ''bin'', ''outcall''],
      [''etc'', ''resolv.conf'']]"

text \<open>A normalised absolute path is the list of its names.\<close>

fun lexical_components ::
  "string \<Rightarrow> component list \<Rightarrow> string list \<Rightarrow> (container_error, string list) result" where
  "lexical_components p [] normalized = Inr normalized"
| "lexical_components p (c # cs) normalized =
     (case c of
        Root_Dir \<Rightarrow> lexical_components p cs normalized
      | Cur_Dir \<Rightarrow> lexical_components p cs normalized
      | Normal name \<Rightarrow> lexical_components p cs (normalized @ [name])
      | Parent_Dir \<Rightarrow>
          if normalized = [] then Inl (Mount_Path_Escapes p)
          else lexical_components p cs (butlast normalized))"

definition lexical_absolute :: "string \<Rightarrow> (container_error, string list) result" where
  "lexical_absolute p =
     (if \<not> is_absolute p then Inl (Mount_Path_Not_Absolute p) else lexical_components p (components p) [])"

definition path_identities ::
  "(string \<Rightarrow> string list option) \<Rightarrow> string \<Rightarrow> (container_error, string list list) result" where
  "path_identities canonicalize p =
     res_bind (lexical_absolute p) (\<lambda>lexical.
       Inr (case canonicalize p of
              Some canonical \<Rightarrow> if canonical = lexical then [lexical] else [lexical, canonical]
            | None \<Rightarrow> [lexical]))"

definition parse_bind_mount :: "string \<Rightarrow> (container_error, string \<times> string) result" where
  "parse_bind_mount mount =
     (case split_on CHR '':'' mount of
        [source, destination] \<Rightarrow>
          if source = [] \<or> destination = [] then Inl (Bad_Mount mount) else Inr (source, destination)
      | [source, destination, options] \<Rightarrow>
          if source = [] \<or> destination = [] \<or> options = [] then Inl (Bad_Mount mount)
          else Inr (source, destination)
      | _ \<Rightarrow> Inl (Bad_Mount mount))"

definition validate_container_destination :: "string \<Rightarrow> (container_error, unit) result" where
  "validate_container_destination destination =
     res_bind (lexical_absolute destination) (\<lambda>d.
       case find (prefix d) PROTECTED_CONTAINER_PATHS of
         Some protected \<Rightarrow> Inl (Mount_Covers_Protected d protected)
       | None \<Rightarrow> Inr ())"

definition validate_bind_mount ::
  "(string \<Rightarrow> string list option) \<Rightarrow> string list list \<Rightarrow> string \<Rightarrow> (container_error, unit) result" where
  "validate_bind_mount canonicalize denied mount =
     res_bind (parse_bind_mount mount) (\<lambda>(source, destination).
     res_bind (validate_container_destination destination) (\<lambda>_.
     if \<not> is_absolute source
     then (case components source of
             [Normal _] \<Rightarrow> Inr ()
           | _ \<Rightarrow> Inl (Mount_Relative_Source source))
     else
       res_bind (path_identities canonicalize source) (\<lambda>source_identities.
         case find (\<lambda>d. list_ex (\<lambda>s. prefix s d) source_identities) denied of
           Some d \<Rightarrow> Inl (Mount_Denied source d)
         | None \<Rightarrow> Inr ())))"

definition validate_bind_mounts ::
  "(string \<Rightarrow> string list option) \<Rightarrow> string list \<Rightarrow> string list \<Rightarrow> (container_error, unit) result" where
  "validate_bind_mounts canonicalize mounts denied_paths =
     res_bind (fold_res (\<lambda>p acc. res_bind (path_identities canonicalize p) (\<lambda>ids. Inr (acc @ ids)))
                denied_paths []) (\<lambda>denied.
       fold_res (\<lambda>mount _. validate_bind_mount canonicalize denied mount) mounts ())"

section \<open>container\_env.rs\<close>

definition RESERVED_KEYS :: "string list" where
  "RESERVED_KEYS = [''HTTP_PROXY'', ''HTTPS_PROXY'', ''NO_PROXY'', ''http_proxy'', ''https_proxy'', ''no_proxy'']"

definition env_key :: "string \<Rightarrow> string" where
  "env_key entry = (case split_once CHR ''='' entry of Some (key, _) \<Rightarrow> key | None \<Rightarrow> entry)"

definition container_environment :: "string option \<Rightarrow> string list option \<Rightarrow> string list" where
  "container_environment proxy_addr extra =
     (case proxy_addr of
        None \<Rightarrow> []
      | Some addr \<Rightarrow>
          (let proxy_url = ''http://'' @ addr
           in [''HTTP_PROXY='' @ proxy_url, ''HTTPS_PROXY='' @ proxy_url,
               ''NO_PROXY=localhost,127.0.0.1'', ''http_proxy='' @ proxy_url,
               ''https_proxy='' @ proxy_url, ''no_proxy=localhost,127.0.0.1'']))
     @ filter (\<lambda>entry. env_key entry \<notin> set RESERVED_KEYS) (or_default [] extra)"

section \<open>managed\_network.rs and network/name.rs\<close>

definition validate_managed_network ::
  "string \<Rightarrow> string option \<Rightarrow> string option \<Rightarrow> string \<Rightarrow> (container_error, unit) result" where
  "validate_managed_network network_name driver configured_bridge expected_bridge =
     (if \<not> prefix NETWORK_PREFIX network_name then Inl (Network_Not_Managed network_name)
      else if driver \<noteq> Some ''bridge'' then Inl (Network_Not_Bridge network_name)
      else if configured_bridge \<noteq> Some expected_bridge then Inl (Network_Wrong_Bridge network_name)
      else Inr ())"

datatype network_name_error = Network_Name_Too_Long nat | Network_Name_Characters string

definition DEFAULT_NETWORK_NAME :: string where
  "DEFAULT_NETWORK_NAME = ''outcall-default''"

definition full_name :: "string option \<Rightarrow> (network_name_error, string) result" where
  "full_name name =
     (case name of
        None \<Rightarrow> Inr DEFAULT_NETWORK_NAME
      | Some n \<Rightarrow>
          if n = [] then Inr DEFAULT_NETWORK_NAME
          else if 64 < length n then Inl (Network_Name_Too_Long (length n))
          else if \<not> list_all (\<lambda>c. is_ascii_alphanumeric c \<or> c = CHR ''-'' \<or> c = CHR ''_'') n
          then Inl (Network_Name_Characters n)
          else if prefix NETWORK_PREFIX n then Inr n
          else Inr (NETWORK_PREFIX @ n))"

section \<open>docker/utility.rs\<close>

text \<open>The fields of Docker's host configuration that are set; all others keep Docker's default.\<close>

record host_config =
  hc_binds :: "string list"
  hc_memory :: int
  hc_cpu_shares :: int
  hc_pids_limit :: int
  hc_readonly_rootfs :: bool
  hc_privileged :: bool
  hc_cap_drop :: "string list"
  hc_security_opt :: "string list"
  hc_network_mode :: string
  hc_dns :: "string list"
  hc_dns_options :: "string list"
  hc_init :: bool
  hc_tmpfs :: "(string \<times> string) list"

definition managed_host_config :: "string list \<Rightarrow> int \<Rightarrow> int \<Rightarrow> string \<Rightarrow> string \<Rightarrow> host_config" where
  "managed_host_config binds memory cpu_shares dns_addr network_name =
     \<lparr>hc_binds = binds, hc_memory = memory, hc_cpu_shares = cpu_shares,
      hc_pids_limit = DEFAULT_PID_LIMIT, hc_readonly_rootfs = True, hc_privileged = False,
      hc_cap_drop = [''ALL''], hc_security_opt = [''no-new-privileges:true''],
      hc_network_mode = network_name, hc_dns = [dns_addr], hc_dns_options = [''ndots:0''],
      hc_init = True, hc_tmpfs = [(''/tmp'', ''rw,nosuid,nodev,mode=1777'')]\<rparr>"

definition random_hex_suffix :: "8 word list option \<Rightarrow> string option" where
  "random_hex_suffix random = map_option hex_encode random"

section \<open>Accepted mounts\<close>

text \<open>What a mount may not do: cover a protected path of the container, or contain a denied host path.\<close>

definition destination_safe :: "string \<Rightarrow> bool" where
  "destination_safe destination =
     (case lexical_absolute destination of
        Inl _ \<Rightarrow> False
      | Inr d \<Rightarrow> list_all (\<lambda>p. \<not> prefix d p) PROTECTED_CONTAINER_PATHS)"

definition hides_paths :: "(string \<Rightarrow> string list option) \<Rightarrow> string list \<Rightarrow> string \<Rightarrow> bool" where
  "hides_paths canonicalize denied_paths source =
     (case path_identities canonicalize source of
        Inl _ \<Rightarrow> False
      | Inr ss \<Rightarrow>
          list_all (\<lambda>p. case path_identities canonicalize p of
              Inl _ \<Rightarrow> False
            | Inr qs \<Rightarrow> list_all (\<lambda>q. list_all (\<lambda>s. \<not> prefix s q) ss) qs) denied_paths)"

definition mount_safe :: "(string \<Rightarrow> string list option) \<Rightarrow> string list \<Rightarrow> string \<Rightarrow> bool" where
  "mount_safe canonicalize denied_paths mount =
     (case parse_bind_mount mount of
        Inl _ \<Rightarrow> False
      | Inr (source, destination) \<Rightarrow>
          destination_safe destination
          \<and> (if is_absolute source then hides_paths canonicalize denied_paths source
             else \<exists>name. components source = [Normal name]))"

lemma validate_container_destination_safe:
  "validate_container_destination d = Inr () \<longleftrightarrow> destination_safe d"
  by (auto simp: validate_container_destination_def destination_safe_def result_simps list_all_iff
      find_None_iff split: option.splits sum.splits)

text \<open>The identities of the denied paths, in order.\<close>

lemma fold_identities_Inr:
  "fold_res (\<lambda>p acc. res_bind (path_identities canonicalize p) (\<lambda>ids. Inr (acc @ ids))) ps acc = Inr denied \<longleftrightarrow>
     (\<exists>qss. map (path_identities canonicalize) ps = map Inr qss \<and> denied = acc @ concat qss)"
proof (induction ps arbitrary: acc)
  case (Cons p ps)
  show ?case
    by (cases "path_identities canonicalize p") (auto simp: Cons.IH Cons_eq_map_conv)
qed auto

lemma validate_bind_mount_safe:
  assumes "map (path_identities canonicalize) denied_paths = map Inr qss"
  shows "validate_bind_mount canonicalize (concat qss) mount = Inr () \<longleftrightarrow>
    mount_safe canonicalize denied_paths mount"
proof -
  have denied: "(\<forall>p\<in>set denied_paths. P (path_identities canonicalize p)) \<longleftrightarrow> (\<forall>qs\<in>set qss. P (Inr qs))" for P
    using assms by (metis (no_types, lifting) image_iff list.set_map)
  have hides: "hides_paths canonicalize denied_paths source \<longleftrightarrow>
      (\<exists>ss. path_identities canonicalize source = Inr ss
        \<and> find (\<lambda>d. list_ex (\<lambda>s. prefix s d) ss) (concat qss) = None)" for source
    by (cases "path_identities canonicalize source")
       (auto simp: hides_paths_def list_all_iff list_ex_iff find_None_iff
         denied [of "case_sum (\<lambda>_. False) Q" for Q])
  have relative: "(case cs of [Normal _] \<Rightarrow> Inr () | _ \<Rightarrow> Inl e) = Inr () \<longleftrightarrow> (\<exists>name. cs = [Normal name])"
    for cs :: "component list" and e :: container_error
    by (auto split: list.splits component.splits)
  show ?thesis
  proof (cases "parse_bind_mount mount")
    case (Inr sd)
    then show ?thesis
      by (cases "validate_container_destination (snd sd)"; cases "path_identities canonicalize (fst sd)")
        (auto simp: validate_bind_mount_def mount_safe_def hides relative case_prod_unfold
          validate_container_destination_safe [symmetric] split: option.splits)
  qed (simp add: validate_bind_mount_def mount_safe_def)
qed

lemma fold_check_Inr:
  "fold_res (\<lambda>x _. f x) xs () = Inr () \<longleftrightarrow> list_all (\<lambda>x. f x = Inr ()) xs"
  by (induction xs) (auto simp: result_simps)

lemma validate_bind_mounts_safe:
  assumes "validate_bind_mounts canonicalize mounts denied_paths = Inr ()"
  shows "list_all (mount_safe canonicalize denied_paths) mounts"
proof -
  from assms obtain qss where qss: "map (path_identities canonicalize) denied_paths = map Inr qss"
    and "list_all (\<lambda>m. validate_bind_mount canonicalize (concat qss) m = Inr ()) mounts"
    by (auto simp: validate_bind_mounts_def result_simps fold_identities_Inr fold_check_Inr)
  then show ?thesis using validate_bind_mount_safe [OF qss] by simp
qed

section \<open>Accepted environments\<close>

text \<open>A loop that refuses a key it has seen accepts only lists with distinct keys.\<close>

lemma fold_seen:
  assumes "fold_res f xs seen = Inr seen'" and "distinct seen"
    and "\<And>x s s'. f x s = Inr s' \<Longrightarrow> k x \<notin> set s \<and> s' = k x # s"
  shows "distinct (map k xs)"
proof -
  have "seen' = rev (map k xs) @ seen \<and> distinct seen'"
    using assms(1,2)
  proof (induction xs arbitrary: seen)
    case (Cons x xs)
    from Cons.prems(1) obtain s where s: "f x seen = Inr s" "fold_res f xs s = Inr seen'"
      by (auto simp: result_simps)
    with Cons.IH [OF s(2)] Cons.prems(2) assms(3) [OF s(1)] show ?case by (auto simp: disjoint_iff)
  qed simp
  then show ?thesis by auto
qed

lemma validate_environment_keys:
  assumes "validate_environment entries = Inr ()"
  shows "distinct (map env_key entries)"
proof -
  have "env_key e \<notin> set keys \<and> keys' = env_key e # keys" if "validate_env_entry e keys = Inr keys'" for e keys keys'
    using that by (auto simp: validate_env_entry_def env_key_def result_simps split: if_splits)
  with assms show ?thesis
    using fold_seen [of validate_env_entry entries "[]" _ env_key]
    by (auto simp: validate_environment_def result_simps split: if_splits)
qed

text \<open>A reserved key of the environment comes from the daemon.\<close>

lemma filtered_tail:
  "e \<in> set (xs @ filter (\<lambda>e. k e \<notin> R) ys) \<Longrightarrow> k e \<in> R \<Longrightarrow> e \<in> set xs"
  by auto

lemma container_environment_reserved:
  assumes "e \<in> set (container_environment proxy_addr extra)" and "env_key e \<in> set RESERVED_KEYS"
  shows "\<exists>addr. proxy_addr = Some addr \<and> e \<in> set (container_environment (Some addr) None)"
  using filtered_tail [OF assms(1) [unfolded container_environment_def] assms(2)]
  by (cases proxy_addr) (simp_all add: container_environment_def)

end
