(* ===== verification/Rate_Limiter.thy ===== *)
theory Rate_Limiter
  imports Api_Types "HOL-Library.AList"
begin

text \<open>
  Rate limiting of the agent API (outcalld/src/agent\_api/limiter.rs, outcalld/src/rate\_limit.rs and
  \<open>check_rate_limit\<close> of agent\_api/handlers.rs). Instants and durations are numbers of nanoseconds;
  \<open>duration_since\<close> saturates at zero, as subtraction of naturals does. The current time is an
  argument of each operation.
\<close>

section \<open>rate\_limit.rs\<close>

definition MAX_RATE_LIMIT :: nat where
  "MAX_RATE_LIMIT = 1000000"

definition MAX_RATE_WINDOW_SECS :: nat where
  "MAX_RATE_WINDOW_SECS = 24 * 60 * 60"

definition MAX_EVALUATION_TIMEOUT_SECS :: nat where
  "MAX_EVALUATION_TIMEOUT_SECS = 5 * 60"

definition nanos :: "nat \<Rightarrow> nat" where
  "nanos seconds = seconds * 10 ^ 9"

datatype rate_error =
    Rate_Format | Rate_Extra_Slash | Rate_Bad_Count | Rate_Bad_Window
  | Rate_Count_Range | Rate_Window_Range | Timeout_Range

definition rate_parse :: "string \<Rightarrow> (rate_error, nat \<times> nat) result" where
  "rate_parse specification =
     res_bind (ok_or Rate_Format (split_once CHR ''/'' specification)) (\<lambda>(limit, seconds).
     if CHR ''/'' \<in> set seconds then Inl Rate_Extra_Slash
     else
       res_bind (ok_or Rate_Bad_Count (parse_u64 limit)) (\<lambda>limit.
       res_bind (ok_or Rate_Bad_Window (parse_u64 seconds)) (\<lambda>seconds.
       if \<not> (1 \<le> limit \<and> limit \<le> MAX_RATE_LIMIT) then Inl Rate_Count_Range
       else if \<not> (1 \<le> seconds \<and> seconds \<le> MAX_RATE_WINDOW_SECS) then Inl Rate_Window_Range
       else Inr (limit, nanos seconds))))"

definition evaluation_timeout :: "nat \<Rightarrow> (rate_error, nat) result" where
  "evaluation_timeout seconds =
     (if \<not> (1 \<le> seconds \<and> seconds \<le> MAX_EVALUATION_TIMEOUT_SECS) then Inl Timeout_Range
      else Inr (nanos seconds))"

section \<open>limiter.rs\<close>

record sliding_window =
  sw_timestamps :: "nat list"
  sw_window :: nat
  sw_limit :: nat
  sw_last_seen :: nat

definition window_new :: "nat \<Rightarrow> nat \<Rightarrow> nat \<Rightarrow> sliding_window" where
  "window_new limit window now =
     \<lparr>sw_timestamps = [], sw_window = window, sw_limit = limit, sw_last_seen = now\<rparr>"

text \<open>The result is \<open>None\<close> for an accepted request, else the time to wait.\<close>

definition window_check :: "nat \<Rightarrow> sliding_window \<Rightarrow> nat option \<times> sliding_window" where
  "window_check now w =
     (let w = w\<lparr>sw_last_seen := now\<rparr>;
          w = w\<lparr>sw_timestamps := filter (\<lambda>t. now - t < sw_window w) (sw_timestamps w)\<rparr>
      in if sw_limit w \<le> length (sw_timestamps w)
         then (Some (case sw_timestamps w of
                       oldest # _ \<Rightarrow> sw_window w - (now - oldest)
                     | [] \<Rightarrow> sw_window w), w)
         else (None, w\<lparr>sw_timestamps := sw_timestamps w @ [now]\<rparr>))"

text \<open>\<open>Duration::MAX\<close>, at which \<open>saturating_mul\<close> stops.\<close>

definition DURATION_MAX :: nat where
  "DURATION_MAX = (2 ^ 64 - 1) * 10 ^ 9 + 999999999"

definition is_stale :: "nat \<Rightarrow> sliding_window \<Rightarrow> bool" where
  "is_stale now w \<longleftrightarrow> min (sw_window w * 2) DURATION_MAX < now - sw_last_seen w"

type_synonym rate_map = "(string \<times> sliding_window) list"

definition reap_stale :: "nat \<Rightarrow> rate_map \<Rightarrow> rate_map" where
  "reap_stale now rates = filter (\<lambda>(_, limiter). \<not> is_stale now limiter) rates"

definition retry_after_seconds :: "nat \<Rightarrow> nat" where
  "retry_after_seconds duration =
     (let seconds = duration div 10 ^ 9
      in if duration mod 10 ^ 9 = 0 then max seconds 1 else max (min (seconds + 1) (2 ^ 64 - 1)) 1)"

section \<open>check\_rate\_limit of handlers.rs\<close>

record rate_limit_config =
  rc_limit :: nat
  rc_window :: nat

text \<open>\<open>Some n\<close> is the answer 429 with \<open>retry-after: n\<close>.\<close>

definition check_rate_limit ::
  "nat \<Rightarrow> rate_limit_config \<Rightarrow> string \<Rightarrow> rate_map \<Rightarrow> nat option \<times> rate_map" where
  "check_rate_limit now config container_id rates =
     (let rates = reap_stale now rates;
          limiter = (case map_of rates container_id of
                       Some w \<Rightarrow> w
                     | None \<Rightarrow> window_new (rc_limit config) (rc_window config) now)
      in case window_check now limiter of
           (r, w) \<Rightarrow> (map_option retry_after_seconds r, AList.update container_id w rates))"

section \<open>The guarantee\<close>

text \<open>
  A run of the limiter over requests in time order, and the times at which a container's requests
  were accepted.
\<close>

fun accepted_times ::
  "rate_limit_config \<Rightarrow> string \<Rightarrow> (nat \<times> string) list \<Rightarrow> rate_map \<Rightarrow> nat list" where
  "accepted_times config c [] rates = []"
| "accepted_times config c ((now, d) # requests) rates =
     (case check_rate_limit now config d rates of
        (r, rates') \<Rightarrow>
          (if d = c \<and> r = None then [now] else []) @ accepted_times config c requests rates')"

definition in_window :: "nat \<Rightarrow> nat \<Rightarrow> nat \<Rightarrow> bool" where
  "in_window start window t \<longleftrightarrow> start \<le> t \<and> t < start + window"

text \<open>
  \<open>limiter_ok past now w\<close>: the window of a container accounts for the accepted requests \<open>past\<close> that
  still count at \<open>now\<close>.
\<close>

definition limiter_ok :: "rate_limit_config \<Rightarrow> nat list \<Rightarrow> nat \<Rightarrow> sliding_window \<Rightarrow> bool" where
  "limiter_ok config past now w \<longleftrightarrow>
     sw_window w = rc_window config \<and> sw_limit w = rc_limit config
     \<and> sw_last_seen w \<le> now
     \<and> (\<forall>t \<in> set past. t \<le> sw_last_seen w)
     \<and> filter (\<lambda>t. now - t < rc_window config) (sw_timestamps w)
       = filter (\<lambda>t. now - t < rc_window config) past"

definition rates_ok :: "rate_limit_config \<Rightarrow> string \<Rightarrow> nat list \<Rightarrow> nat \<Rightarrow> rate_map \<Rightarrow> bool" where
  "rates_ok config c past now rates \<longleftrightarrow>
     distinct (map fst rates) \<and> (\<forall>t \<in> set past. t \<le> now)
     \<and> (case map_of rates c of
          Some w \<Rightarrow> limiter_ok config past now w
        | None \<Rightarrow> filter (\<lambda>t. now - t < rc_window config) past = [])"

lemma filter_later:
  assumes "now \<le> (later :: nat)"
    and "filter (\<lambda>t. now - t < n) xs = filter (\<lambda>t. now - t < n) ys"
  shows "filter (\<lambda>t. later - t < n) xs = filter (\<lambda>t. later - t < n) ys"
proof -
  have eq: "filter (\<lambda>t. later - t < n) zs = filter (\<lambda>t. later - t < n) (filter (\<lambda>t. now - t < n) zs)"
    for zs :: "nat list"
    using assms(1) by (auto intro!: filter_cong)
  show ?thesis using eq [of xs] eq [of ys] assms(2) by simp
qed

lemma limiter_ok_later:
  "limiter_ok config past now w \<Longrightarrow> now \<le> later \<Longrightarrow> limiter_ok config past later w"
  unfolding limiter_ok_def using filter_later [of now later] le_trans by blast

lemma rates_ok_later:
  assumes "rates_ok config c past now rates" and "now \<le> later"
  shows "rates_ok config c past later rates"
  using assms limiter_ok_later [of config past now _ later]
    filter_later [of now later "rc_window config" past "[]"]
  by (cases "map_of rates c") (auto simp: rates_ok_def)

text \<open>A stale window is forgotten only when nothing in it counts any more.\<close>

lemma stale_past:
  assumes "limiter_ok config past now w" and "is_stale now w"
    and "rc_window config * 2 \<le> DURATION_MAX"
  shows "filter (\<lambda>t. now - t < rc_window config) past = []"
proof -
  have "rc_window config * 2 < now - sw_last_seen w"
    using assms by (auto simp: is_stale_def limiter_ok_def)
  moreover have "t \<le> sw_last_seen w" if "t \<in> set past" for t
    using assms(1) that by (auto simp: limiter_ok_def)
  ultimately have "\<not> now - t < rc_window config" if "t \<in> set past" for t
    using that by fastforce
  then show ?thesis by (simp add: filter_empty_conv)
qed

lemma rates_ok_reap:
  assumes "rates_ok config c past now rates" and "rc_window config * 2 \<le> DURATION_MAX"
  shows "rates_ok config c past now (reap_stale now rates)"
proof -
  have "distinct (map fst (reap_stale now rates))"
    using assms(1) by (auto simp: rates_ok_def reap_stale_def distinct_map_filter)
  then show ?thesis
    using assms stale_past [OF _ _ assms(2), of past now]
    by (cases "map_of rates c") (auto simp: rates_ok_def reap_stale_def map_of_filter_pair)
qed

text \<open>One request: what it adds to the accepted ones keeps within the limit.\<close>

lemma check_cases:
  assumes "check_rate_limit now config d rates = (r, rates')"
    and "rates_ok config c past now rates" and "rc_window config * 2 \<le> DURATION_MAX"
    and "past' = past @ (if d = c \<and> r = None then [now] else [])"
  shows "rates_ok config c past' now rates'
    \<and> (past' \<noteq> past \<longrightarrow> length (filter (\<lambda>t. now - t < rc_window config) past) < rc_limit config)"
proof -
  let ?rates = "reap_stale now rates"
  let ?new = "window_new (rc_limit config) (rc_window config) now"
  define w where "w = (case map_of ?rates d of Some w \<Rightarrow> w | None \<Rightarrow> ?new)"
  obtain q w' where q: "window_check now w = (q, w')" by fastforce
  have eqs: "r = map_option retry_after_seconds q" "rates' = AList.update d w' ?rates"
    using assms(1) q by (simp_all add: check_rate_limit_def Let_def w_def)
  have ok: "rates_ok config c past now ?rates" using assms(2,3) by (rule rates_ok_reap)
  show ?thesis
  proof (cases "d = c")
    case False
    then show ?thesis
      using ok eqs(2) assms(4) by (simp add: rates_ok_def update_conv' distinct_update)
  next
    case True
    have past: "\<forall>t \<in> set past. t \<le> now" using ok by (simp add: rates_ok_def)
    have w: "sw_window w = rc_window config" "sw_limit w = rc_limit config"
      "filter (\<lambda>t. now - t < rc_window config) (sw_timestamps w)
         = filter (\<lambda>t. now - t < rc_window config) past"
      using ok by (cases "map_of ?rates c";
        simp add: w_def True rates_ok_def limiter_ok_def window_new_def)+
    let ?live = "filter (\<lambda>t. now - t < rc_window config) past"
    have q': "q = None \<longleftrightarrow> length ?live < rc_limit config"
      "sw_timestamps w' = ?live @ (if q = None then [now] else [])"
      "sw_window w' = rc_window config" "sw_limit w' = rc_limit config" "sw_last_seen w' = now"
      using q w by (auto simp: window_check_def Let_def split: if_splits)
    have "limiter_ok config past' now w'"
      using past q' True assms(4) eqs(1) by (auto simp: limiter_ok_def)
    then show ?thesis
      using ok past q' True assms(4) eqs by (auto simp: rates_ok_def update_conv' distinct_update)
  qed
qed

lemma window_extend:
  assumes "\<forall>start. length (filter (in_window start n) past) \<le> limit"
    and "length (filter (\<lambda>t. now - t < n) past) < limit"
  shows "length (filter (in_window start n) (past @ [now])) \<le> limit"
proof (cases "in_window start n now")
  case True
  then have "filter (in_window start n) past
      = filter (in_window start n) (filter (\<lambda>t. now - t < n) past)"
    by (auto simp: in_window_def intro!: filter_cong)
  then have "length (filter (in_window start n) past) \<le> length (filter (\<lambda>t. now - t < n) past)"
    by (metis length_filter_le)
  then show ?thesis using assms(2) True by simp
next
  case False
  then show ?thesis using assms(1) by simp
qed

lemma run_bounded:
  assumes "sorted (map fst requests)" and "\<forall>(t, _) \<in> set requests. now \<le> t"
    and "rates_ok config c past now rates" and "rc_window config * 2 \<le> DURATION_MAX"
    and "\<forall>start. length (filter (in_window start (rc_window config)) past) \<le> rc_limit config"
  shows "length (filter (in_window start (rc_window config))
      (past @ accepted_times config c requests rates)) \<le> rc_limit config"
  using assms
proof (induction requests arbitrary: now past rates)
  case Nil
  then show ?case by simp
next
  case (Cons x requests)
  obtain later d where x: "x = (later, d)" by fastforce
  obtain r rates' where r: "check_rate_limit later config d rates = (r, rates')" by fastforce
  define past' where "past' = past @ (if d = c \<and> r = None then [later] else [])"
  have "rates_ok config c past later rates"
    using Cons.prems(2,3) x rates_ok_later by fastforce
  note step = check_cases [OF r this assms(4) past'_def]
  have "\<forall>start. length (filter (in_window start (rc_window config)) past') \<le> rc_limit config"
    using step Cons.prems(5) window_extend [OF Cons.prems(5)] by (auto simp: past'_def)
  then have "length (filter (in_window start (rc_window config))
      (past' @ accepted_times config c requests rates')) \<le> rc_limit config"
    using Cons.prems(1) x step assms(4) by (intro Cons.IH [of later]) auto
  then show ?case by (simp add: x r past'_def)
qed

section \<open>Refused requests\<close>

fun rates_after :: "rate_limit_config \<Rightarrow> (nat \<times> string) list \<Rightarrow> rate_map \<Rightarrow> rate_map" where
  "rates_after config [] rates = rates"
| "rates_after config ((now, d) # requests) rates =
     rates_after config requests (snd (check_rate_limit now config d rates))"

text \<open>The window of a container never holds more than the limit, and nothing from the future.\<close>

definition window_full :: "rate_limit_config \<Rightarrow> string \<Rightarrow> nat \<Rightarrow> rate_map \<Rightarrow> bool" where
  "window_full config c now rates \<longleftrightarrow>
     distinct (map fst rates)
     \<and> (\<forall>w. map_of rates c = Some w \<longrightarrow>
          sw_window w = rc_window config \<and> sw_limit w = rc_limit config
          \<and> length (sw_timestamps w) \<le> rc_limit config \<and> (\<forall>t \<in> set (sw_timestamps w). t \<le> now))"

lemma check_rate_limit_entry:
  assumes "check_rate_limit now config d rates = (r, rates')" and "distinct (map fst rates)"
  shows "distinct (map fst rates')
    \<and> (\<exists>w q w'. (map_of rates d = Some w \<or> w = window_new (rc_limit config) (rc_window config) now)
        \<and> window_check now w = (q, w') \<and> r = map_option retry_after_seconds q
        \<and> map_of rates' d = Some w')
    \<and> (c \<noteq> d \<longrightarrow> map_of rates' c = map_of rates c \<or> map_of rates' c = None)"
proof -
  let ?rates = "reap_stale now rates"
  let ?w = "case map_of ?rates d of Some w \<Rightarrow> w
    | None \<Rightarrow> window_new (rc_limit config) (rc_window config) now"
  obtain q w' where q: "window_check now ?w = (q, w')" by fastforce
  have eqs: "r = map_option retry_after_seconds q" "rates' = AList.update d w' ?rates"
    using assms(1) q by (simp_all add: check_rate_limit_def Let_def)
  have reap: "map_of ?rates k = map_of rates k \<or> map_of ?rates k = None" for k
    unfolding reap_stale_def map_of_filter_pair [OF assms(2)] by (cases "map_of rates k") auto
  then have "map_of rates d = Some ?w \<or> ?w = window_new (rc_limit config) (rc_window config) now"
    by (metis option.case_eq_if option.collapse)
  moreover have "distinct (map fst ?rates)"
    using assms(2) by (auto simp: reap_stale_def distinct_map_filter)
  ultimately show ?thesis
    using q eqs reap by (auto simp: update_conv' distinct_update)
qed

lemma window_check_full:
  assumes "window_check now w = (q, w')" and "0 < sw_limit w"
    and "length (sw_timestamps w) \<le> sw_limit w" and "\<forall>t \<in> set (sw_timestamps w). t \<le> now"
  shows "sw_window w' = sw_window w \<and> sw_limit w' = sw_limit w
    \<and> length (sw_timestamps w') \<le> sw_limit w \<and> (\<forall>t \<in> set (sw_timestamps w'). t \<le> now)
    \<and> (\<forall>d. q = Some d \<longrightarrow> (\<exists>oldest rest. sw_timestamps w' = oldest # rest
        \<and> now - oldest < sw_window w \<and> d = sw_window w - (now - oldest)))"
proof (cases "filter (\<lambda>t. now - t < sw_window w) (sw_timestamps w)")
  case Nil
  with assms show ?thesis by (auto simp: window_check_def Let_def)
next
  case (Cons oldest rest)
  let ?live = "filter (\<lambda>t. now - t < sw_window w) (sw_timestamps w)"
  have live: "length ?live \<le> sw_limit w" "\<forall>t \<in> set ?live. t \<le> now"
    using assms(3,4) by (auto intro: le_trans [OF length_filter_le])
  have "oldest \<in> set ?live" unfolding Cons by simp
  then have "now - oldest < sw_window w" by simp
  with assms(1) Cons live show ?thesis
    by (auto simp: window_check_def Let_def split: if_splits)
qed

lemma window_served:
  assumes "window_check now w = (Some d, w')" and "0 < sw_limit w"
    and "length (sw_timestamps w) \<le> sw_limit w" and "\<forall>t \<in> set (sw_timestamps w). t \<le> now"
  shows "0 < d \<and> d \<le> sw_window w \<and> (now + d \<le> later \<longrightarrow> fst (window_check later w') = None)"
proof -
  note full = window_check_full [OF assms]
  then obtain oldest rest where o: "sw_timestamps w' = oldest # rest"
    "now - oldest < sw_window w" "d = sw_window w - (now - oldest)" by blast
  have "oldest \<le> now" "length rest < sw_limit w" using full o(1) by auto
  moreover from this(2) have "length (filter (\<lambda>t. later - t < sw_window w) rest) < sw_limit w"
    using length_filter_le le_less_trans by blast
  moreover have "\<not> later - oldest < sw_window w" if "now + d \<le> later"
    using that o(2,3) \<open>oldest \<le> now\<close> by linarith
  ultimately show ?thesis
    using full o by (auto simp: window_check_def Let_def)
qed

lemma window_full_step:
  assumes "check_rate_limit now config d rates = (r, rates')" and "window_full config c before rates"
    and "before \<le> now" and "0 < rc_limit config"
  shows "window_full config c now rates'"
proof -
  have dist: "distinct (map fst rates)" using assms(2) by (simp add: window_full_def)
  note e = check_rate_limit_entry [OF assms(1) dist, of c]
  show ?thesis
  proof (cases "c = d")
    case False
    with e assms(2,3) show ?thesis by (fastforce simp: window_full_def)
  next
    case True
    from e obtain w q w' where w: "map_of rates d = Some w
        \<or> w = window_new (rc_limit config) (rc_window config) now"
      and q: "window_check now w = (q, w')" "map_of rates' d = Some w'" by blast
    from w have "sw_window w = rc_window config" "sw_limit w = rc_limit config"
      "length (sw_timestamps w) \<le> sw_limit w" "\<forall>t \<in> set (sw_timestamps w). t \<le> now"
      using assms(2,3) True by (auto simp: window_full_def window_new_def intro: le_trans [of _ before])
    with window_check_full [OF q(1)] assms(4) e q(2) True show ?thesis
      by (auto simp: window_full_def)
  qed
qed

lemma rates_after_full:
  assumes "sorted (map fst requests)" and "\<forall>(t, _) \<in> set requests. start \<le> t \<and> t \<le> now"
    and "window_full config c start rates" and "0 < rc_limit config" and "start \<le> now"
  shows "window_full config c now (rates_after config requests rates)"
  using assms
proof (induction requests arbitrary: start rates)
  case Nil
  then show ?case by (auto simp: window_full_def) (meson le_trans)
next
  case (Cons x requests)
  obtain t d where x: "x = (t, d)" by fastforce
  obtain r rates' where r: "check_rate_limit t config d rates = (r, rates')" by fastforce
  have "window_full config c t rates'"
    using Cons.prems x by (intro window_full_step [OF r]) auto
  then show ?case using Cons.prems x r by (auto intro!: Cons.IH [of t])
qed

text \<open>Requests of other containers leave a window alone, unless it is reaped.\<close>

lemma rates_after_others:
  assumes "\<forall>(_, d) \<in> set others. d \<noteq> c" and "distinct (map fst rates)"
  shows "distinct (map fst (rates_after config others rates))
    \<and> (map_of (rates_after config others rates) c = map_of rates c
       \<or> map_of (rates_after config others rates) c = None)"
  using assms
proof (induction others arbitrary: rates)
  case (Cons x others)
  obtain t d where x: "x = (t, d)" by fastforce
  obtain r rates' where r: "check_rate_limit t config d rates = (r, rates')" by fastforce
  have "c \<noteq> d" using Cons.prems(1) x by auto
  then have "distinct (map fst rates')" "map_of rates' c = map_of rates c \<or> map_of rates' c = None"
    using check_rate_limit_entry [OF r Cons.prems(2), of c] by simp_all
  with Cons.IH [of rates'] Cons.prems(1) x r show ?case by auto
qed simp

lemma retry_after_covers:
  "0 < d \<Longrightarrow> d \<le> 86400 * 10 ^ 9 \<Longrightarrow> d \<le> nanos (retry_after_seconds d)
     \<and> (\<forall>n. d \<le> nanos n \<longrightarrow> retry_after_seconds d \<le> n)"
proof -
  assume d: "0 < d" "d \<le> 86400 * 10 ^ 9"
  define s m where "s = d div 10 ^ 9" and "m = d mod 10 ^ 9"
  have eq: "d = s * 1000000000 + m" "m < 1000000000"
    using div_mult_mod_eq [of d "10 ^ 9"] by (simp_all add: s_def m_def)
  have sm: "s \<le> 86400" "m = 0 \<Longrightarrow> 0 < s" using d eq by auto
  have "retry_after_seconds d = (if m = 0 then s else s + 1)"
    unfolding retry_after_seconds_def Let_def s_def [symmetric] m_def [symmetric]
    using sm by auto
  moreover have "s \<le> n \<and> (m \<noteq> 0 \<longrightarrow> s < n)" if "d \<le> n * 1000000000" for n
    using that eq by auto
  ultimately show ?thesis using eq by (auto simp: nanos_def)
qed

section \<open>Properties\<close>

text \<open>
  C31: The limiter enforces its rate. For a rate accepted by the configuration, over any sequence of
  requests of any containers in time order, starting with no state and with stale windows reaped on
  every request, the requests of one container that are accepted within any interval as long as the
  window are at most the limit.
\<close>

theorem rate_limit_enforced:
  assumes "rate_parse specification = Inr (rc_limit config, rc_window config)"
    and "sorted (map fst requests)"
  shows "length (filter (in_window start (rc_window config)) (accepted_times config c requests []))
    \<le> rc_limit config"
proof -
  have "rc_window config \<le> 86400 * 10 ^ 9"
    using assms(1) by (auto simp: rate_parse_def result_simps nanos_def MAX_RATE_WINDOW_SECS_def
        split: if_splits)
  then have "rc_window config * 2 \<le> DURATION_MAX" by (simp add: DURATION_MAX_def)
  then show ?thesis
    using run_bounded [of requests 0 config c "[]" "[]" start] assms(2)
    by (simp add: rates_ok_def)
qed

theorem rate_limit_enforced_witness:
  "rate_parse ''1/60'' = Inr (1, 60 * 10 ^ 9)
   \<and> length (filter (in_window 0 (60 * 10 ^ 9))
       (accepted_times \<lparr>rc_limit = 1, rc_window = 60 * 10 ^ 9\<rparr> ''a'' [(0, ''a''), (1, ''a'')] []))
     \<le> 1"
proof -
  have "rate_parse ''1/60'' = Inr (1, 60 * 10 ^ 9)"
    by (simp add: rate_parse_def parse_u64_def parse_uint_def digits_value_def digit_value_def
        is_ascii_digit_def MAX_RATE_LIMIT_def MAX_RATE_WINDOW_SECS_def nanos_def)
  then show ?thesis
    using rate_limit_enforced [of "''1/60''" "\<lparr>rc_limit = 1, rc_window = 60 * 10 ^ 9\<rparr>"
        "[(0, ''a''), (1, ''a'')]" 0 "''a''"] by simp
qed

text \<open>
  C32: A refused request is served after the wait. For an accepted rate and any requests before, when a
  request of a container is refused with a number of seconds to wait, that number is at most the
  window's length, and the container's next request that many seconds later or more is accepted,
  whatever other containers requested in the meantime.
\<close>

theorem refused_request_served:
  assumes "rate_parse specification = Inr (rc_limit config, rc_window config)"
    and "sorted (map fst requests)" and "\<forall>(t, _) \<in> set requests. t \<le> now"
    and "check_rate_limit now config c (rates_after config requests []) = (Some wait, rates)"
    and "\<forall>(_, d) \<in> set others. d \<noteq> c" and "now + nanos wait \<le> later"
  shows "nanos wait \<le> rc_window config
    \<and> fst (check_rate_limit later config c (rates_after config others rates)) = None"
proof -
  have "\<exists>secs. rc_window config = nanos secs \<and> 0 < rc_limit config \<and> secs \<le> 86400"
    using assms(1) by (auto simp: rate_parse_def result_simps MAX_RATE_WINDOW_SECS_def Suc_le_eq
        split: if_splits) metis
  then obtain secs where cfg: "rc_window config = nanos secs" "0 < rc_limit config" "secs \<le> 86400"
    by blast
  have full: "window_full config c now (rates_after config requests [])"
    using assms(2,3) cfg(2)
    by (intro rates_after_full [where start = 0]) (auto simp: window_full_def)
  then have "distinct (map fst (rates_after config requests []))" by (simp add: window_full_def)
  note e = check_rate_limit_entry [OF assms(4) this, of c]
  from e obtain w q w' where w: "map_of (rates_after config requests []) c = Some w
      \<or> w = window_new (rc_limit config) (rc_window config) now"
    and q0: "window_check now w = (q, w')" "Some wait = map_option retry_after_seconds q"
    "map_of rates c = Some w'" by blast
  then obtain d where q: "window_check now w = (Some d, w')" "map_of rates c = Some w'"
    "wait = retry_after_seconds d" by (cases q) simp_all
  from w have ww: "sw_window w = rc_window config" "sw_limit w = rc_limit config"
    "length (sw_timestamps w) \<le> sw_limit w" "\<forall>t \<in> set (sw_timestamps w). t \<le> now"
    using full by (auto simp: window_full_def window_new_def)
  note served = window_served [OF q(1) cfg(2) [folded ww(2)] ww(3,4), of later, unfolded ww(1)]
  then have wait: "d \<le> nanos wait" "wait \<le> secs"
    using retry_after_covers [of d] cfg q(3) by (auto simp: nanos_def)
  then have w': "fst (window_check later w') = None" using served assms(6) by linarith
  note oth = rates_after_others [OF assms(5) conjunct1 [OF e], of config, unfolded q(2)]
  obtain r2 rates2 where r2: "check_rate_limit later config c (rates_after config others rates)
      = (r2, rates2)" by fastforce
  from check_rate_limit_entry [OF r2 conjunct1 [OF oth], of c] obtain v q2 v' where
    v: "map_of (rates_after config others rates) c = Some v
      \<or> v = window_new (rc_limit config) (rc_window config) later"
    "window_check later v = (q2, v')" "r2 = map_option retry_after_seconds q2" by blast
  then have "v = w' \<or> v = window_new (rc_limit config) (rc_window config) later" using oth by auto
  then have "q2 = None"
    using v(2) w' cfg(2) by (auto simp: window_new_def window_check_def Let_def)
  with r2 v(3) wait(2) cfg(1) show ?thesis by (simp add: nanos_def)
qed

theorem refused_request_served_witness:
  "\<exists>rates. check_rate_limit 1 \<lparr>rc_limit = 1, rc_window = nanos 60\<rparr> ''a''
       (rates_after \<lparr>rc_limit = 1, rc_window = nanos 60\<rparr> [(0, ''a'')] []) = (Some 60, rates)
     \<and> fst (check_rate_limit (1 + nanos 60) \<lparr>rc_limit = 1, rc_window = nanos 60\<rparr> ''a''
         (rates_after \<lparr>rc_limit = 1, rc_window = nanos 60\<rparr> [(2, ''b'')] rates)) = None"
proof -
  let ?cfg = "\<lparr>rc_limit = 1, rc_window = nanos 60\<rparr>"
  have p: "rate_parse ''1/60'' = Inr (rc_limit ?cfg, rc_window ?cfg)"
    by (simp add: rate_parse_def parse_u64_def parse_uint_def digits_value_def digit_value_def
        is_ascii_digit_def MAX_RATE_LIMIT_def MAX_RATE_WINDOW_SECS_def)
  have "\<exists>rates. check_rate_limit 1 ?cfg ''a'' (rates_after ?cfg [(0, ''a'')] []) = (Some 60, rates)"
    by (simp add: check_rate_limit_def reap_stale_def window_new_def window_check_def nanos_def
        is_stale_def retry_after_seconds_def Let_def DURATION_MAX_def)
  then show ?thesis
    using refused_request_served [OF p, of "[(0, ''a'')]" 1 "''a''" 60 _ "[(2, ''b'')]" "1 + nanos 60"]
    by auto
qed

end
