(* ===== verification/Agent_Api.thy ===== *)
theory Agent_Api
  imports Rule_Requests Rate_Limiter
begin

text \<open>
  The container-facing API (agent\_api): the session registry (sessions.rs), the identity of a peer
  (identity.rs), evaluation with a deadline (evaluation.rs), errors and their status codes (errors.rs),
  the four handlers (handlers.rs) and the cleanup of derived state on container events (mod.rs).

  Peer credentials, Docker's answer on a process id, random bytes, the clock and the outcome of the
  evaluation task are inputs of a request; \<open>Json\<close> extraction happens before the handler, so a body is
  its value or a rejection. The process-wide maps are association lists.
\<close>

section \<open>sessions.rs\<close>

definition MAX_SESSIONS :: nat where
  "MAX_SESSIONS = 4096"

record managed_container_identity =
  mc_id :: string
  mc_name :: string

record session_registry =
  sr_by_token :: "(string \<times> managed_container_identity) list"
  sr_by_container :: "(string \<times> string) list"

definition registry_new :: session_registry where
  "registry_new = \<lparr>sr_by_token = [], sr_by_container = []\<rparr>"

definition existing_for_container ::
  "string \<Rightarrow> session_registry \<Rightarrow> (string \<times> managed_container_identity) option \<times> session_registry" where
  "existing_for_container container_id reg =
     (case map_of (sr_by_container reg) container_id of
        None \<Rightarrow> (None, reg)
      | Some token \<Rightarrow>
          (case map_of (sr_by_token reg) token of
             Some container \<Rightarrow> (Some (token, container), reg)
           | None \<Rightarrow>
               (None, reg\<lparr>sr_by_container := AList.delete container_id (sr_by_container reg)\<rparr>)))"

text \<open>\<open>None\<close>: the limit is reached.\<close>

definition session_insert ::
  "string \<Rightarrow> managed_container_identity \<Rightarrow> session_registry \<Rightarrow> session_registry option" where
  "session_insert token container reg =
     (let old = map_of (sr_by_container reg) (mc_id container)
      in if old = None \<and> MAX_SESSIONS \<le> length (sr_by_token reg) then None
         else
           (let by_token = (case old of Some t \<Rightarrow> AList.delete t (sr_by_token reg)
                              | None \<Rightarrow> sr_by_token reg)
            in Some \<lparr>sr_by_token = AList.update token container by_token,
                 sr_by_container = AList.update (mc_id container) token (sr_by_container reg)\<rparr>))"

definition container_for_token :: "string \<Rightarrow> session_registry \<Rightarrow> managed_container_identity option" where
  "container_for_token token reg = map_of (sr_by_token reg) token"

definition remove_container :: "string \<Rightarrow> session_registry \<Rightarrow> session_registry" where
  "remove_container container_id reg =
     (case map_of (sr_by_container reg) container_id of
        None \<Rightarrow> reg
      | Some token \<Rightarrow>
          \<lparr>sr_by_token = AList.delete token (sr_by_token reg),
           sr_by_container = AList.delete container_id (sr_by_container reg)\<rparr>)"

definition registry_clear :: "session_registry \<Rightarrow> session_registry" where
  "registry_clear reg = \<lparr>sr_by_token = [], sr_by_container = []\<rparr>"

definition generate_token :: "8 word list option \<Rightarrow> string option" where
  "generate_token random = map_option (\<lambda>bytes. ''tok-'' @ hex_encode bytes) random"

definition valid_session_token :: "string \<Rightarrow> bool" where
  "valid_session_token token \<longleftrightarrow> has_canonical_hex_suffix token ''tok-'' 32"

section \<open>errors.rs\<close>

datatype agent_api_error =
    Socket_Bind string
  | Peer_Identification
  | Peer_Identification_Timeout
  | Peer_Identification_Busy
  | Checkin_Rejected
  | Evaluation_Timed_Out
  | Evaluation_Unavailable
  | Rate_Limited string nat
  | Invalid_Request "context_error + load_error"
  | Malformed_Request string
  | Request_Body_Too_Large
  | Invalid_Session
  | Session_Container_Mismatch
  | Session_Capacity
  | Rule_Request_Not_Found
  | Internal string

fun error_status :: "agent_api_error \<Rightarrow> nat" where
  "error_status (Socket_Bind _) = 500"
| "error_status Peer_Identification = 403"
| "error_status Checkin_Rejected = 403"
| "error_status Session_Container_Mismatch = 403"
| "error_status Invalid_Session = 401"
| "error_status (Malformed_Request _) = 400"
| "error_status (Invalid_Request _) = 422"
| "error_status Request_Body_Too_Large = 413"
| "error_status (Rate_Limited _ _) = 429"
| "error_status Rule_Request_Not_Found = 404"
| "error_status Peer_Identification_Timeout = 503"
| "error_status Peer_Identification_Busy = 503"
| "error_status Session_Capacity = 503"
| "error_status Evaluation_Timed_Out = 500"
| "error_status Evaluation_Unavailable = 500"
| "error_status (Internal _) = 500"

section \<open>identity.rs\<close>

text \<open>
  What a request brings: the peer's process id, whether a lookup slot is free and what the lookup
  gives, and the text of the authorization header when it has one.
\<close>

datatype peer_lookup =
    Peer_Found managed_container_identity
  | Peer_Unmanaged
  | Peer_Lookup_Failed
  | Peer_Lookup_Timed_Out

record agent_peer =
  pe_pid :: "nat option"
  pe_slot_free :: bool
  pe_lookup :: "nat \<Rightarrow> peer_lookup"
  pe_authorization :: "string option"

definition bearer_token :: "string option \<Rightarrow> string option" where
  "bearer_token authorization =
     Option.bind authorization (\<lambda>header.
     Option.bind (split_once CHR '' '' header) (\<lambda>(scheme, token).
       if map to_ascii_lower scheme = ''bearer'' then Some token else None))"

definition resolve_peer_container ::
  "agent_peer \<Rightarrow> (agent_api_error, managed_container_identity) result" where
  "resolve_peer_container peer =
     (case pe_pid peer of
        None \<Rightarrow> Inl Peer_Identification
      | Some pid \<Rightarrow>
          if \<not> pe_slot_free peer then Inl Peer_Identification_Busy
          else
            (case pe_lookup peer pid of
               Peer_Found container \<Rightarrow> Inr container
             | Peer_Unmanaged \<Rightarrow> Inl Checkin_Rejected
             | Peer_Lookup_Failed \<Rightarrow> Inl Peer_Identification
             | Peer_Lookup_Timed_Out \<Rightarrow> Inl Peer_Identification_Timeout))"

definition resolve_session ::
  "agent_peer \<Rightarrow> session_registry \<Rightarrow> (agent_api_error, managed_container_identity) result" where
  "resolve_session peer reg =
     (case bearer_token (pe_authorization peer) of
        None \<Rightarrow> Inl Invalid_Session
      | Some token \<Rightarrow>
          if \<not> valid_session_token token then Inl Invalid_Session
          else
            res_bind (resolve_peer_container peer) (\<lambda>peer_container.
              case container_for_token token reg of
                None \<Rightarrow> Inl Invalid_Session
              | Some session_container \<Rightarrow>
                  if mc_id session_container = mc_id peer_container then Inr peer_container
                  else Inl Session_Container_Mismatch))"

section \<open>evaluation.rs\<close>

datatype evaluation_task = Task_Finished | Task_Timed_Out | Task_Panicked

datatype evaluation_error = Evaluation_Timeout | Evaluation_Worker

definition executor_evaluate ::
  "('x, 'p) cel_ops \<Rightarrow> 'p rule_engine \<Rightarrow> evaluation_task \<Rightarrow> eval_context
     \<Rightarrow> (evaluation_error, evaluate_result) result" where
  "executor_evaluate ops engine task context =
     (case task of
        Task_Finished \<Rightarrow> Inr (evaluate_snapshot ops (snapshot engine) context)
      | Task_Timed_Out \<Rightarrow> Inl Evaluation_Timeout
      | Task_Panicked \<Rightarrow> Inl Evaluation_Worker)"

section \<open>handlers.rs\<close>

record ('x, 'p) agent_config =
  ac_cel :: "('x, 'p) cel_ops"
  ac_rules :: "'p rule_engine"
  ac_loader :: "'p loader_ext"
  ac_context :: context_ext
  ac_json :: request_json
  ac_permission_rate :: rate_limit_config
  ac_rule_rate :: rate_limit_config

record agent_state =
  as_sessions :: session_registry
  as_permission_rates :: rate_map
  as_rule_rates :: rate_map
  as_requests :: rule_request_manager
  as_fs :: fs

datatype 'a payload = Payload 'a | Payload_Rejected bool

text \<open>The flag says that the rejection was for a body that is too large.\<close>

fun json_payload :: "'a payload \<Rightarrow> (agent_api_error, 'a) result" where
  "json_payload (Payload v) = Inr v"
| "json_payload (Payload_Rejected too_large) =
     Inl (if too_large then Request_Body_Too_Large else Malformed_Request ''malformed JSON body'')"

record checkin_data =
  cd_container_id :: string
  cd_session_token :: string
  cd_context_keys :: "string list"

record verdict =
  vd_allowed :: bool
  vd_matched_rule :: "string option"
  vd_reason :: "string option"

record rule_request_response =
  rr_id :: string
  rr_status :: request_status
  rr_reason :: "string option"

definition default_context_keys :: "string list" where
  "default_context_keys = [''action_type'', ''target'', ''metadata'']"

definition checkin ::
  "agent_peer \<Rightarrow> unit payload \<Rightarrow> 8 word list option \<Rightarrow> agent_state
     \<Rightarrow> (agent_api_error, checkin_data) result \<times> agent_state" where
  "checkin peer body random st =
     (case res_bind (json_payload body) (\<lambda>_. resolve_peer_container peer) of
        Inl e \<Rightarrow> (Inl e, st)
      | Inr container \<Rightarrow>
          (case existing_for_container (mc_id container) (as_sessions st) of
             (Some (token, existing), reg) \<Rightarrow>
               (Inr \<lparr>cd_container_id = mc_id existing, cd_session_token = token,
                  cd_context_keys = default_context_keys\<rparr>, st\<lparr>as_sessions := reg\<rparr>)
           | (None, reg) \<Rightarrow>
               (case generate_token random of
                  None \<Rightarrow> (Inl (Internal ''secure token generation unavailable''), st\<lparr>as_sessions := reg\<rparr>)
                | Some token \<Rightarrow>
                    (case session_insert token container reg of
                       None \<Rightarrow> (Inl Session_Capacity, st\<lparr>as_sessions := reg\<rparr>)
                     | Some reg' \<Rightarrow>
                         (Inr \<lparr>cd_container_id = mc_id container, cd_session_token = token,
                            cd_context_keys = default_context_keys\<rparr>, st\<lparr>as_sessions := reg'\<rparr>)))))"

definition evaluation_verdict :: "(evaluation_error, evaluate_result) result \<Rightarrow> verdict" where
  "evaluation_verdict r =
     (case r of
        Inr e \<Rightarrow> \<lparr>vd_allowed = (er_decision e = Allow), vd_matched_rule = er_matched_rule e,
           vd_reason = (if er_decision e = Block then Some ''blocked by policy'' else None)\<rparr>
      | Inl Evaluation_Timeout \<Rightarrow>
          \<lparr>vd_allowed = False, vd_matched_rule = None, vd_reason = Some ''evaluation timeout''\<rparr>
      | Inl Evaluation_Worker \<Rightarrow>
          \<lparr>vd_allowed = False, vd_matched_rule = None,
           vd_reason = Some ''policy evaluation unavailable''\<rparr>)"

definition permissions_check ::
  "('x, 'p) agent_config \<Rightarrow> agent_peer \<Rightarrow> nat \<Rightarrow> evaluation_task \<Rightarrow> permission_request payload
     \<Rightarrow> agent_state \<Rightarrow> (agent_api_error, verdict) result \<times> agent_state" where
  "permissions_check cfg peer now task body st =
     (case res_bind (json_payload body) (\<lambda>request.
             res_bind (resolve_session peer (as_sessions st)) (\<lambda>container. Inr (request, container))) of
        Inl e \<Rightarrow> (Inl e, st)
      | Inr (request, container) \<Rightarrow>
          (case check_rate_limit now (ac_permission_rate cfg) (mc_id container)
                  (as_permission_rates st) of
             (Some wait, rates) \<Rightarrow>
               (Inl (Rate_Limited (mc_id container) wait), st\<lparr>as_permission_rates := rates\<rparr>)
           | (None, rates) \<Rightarrow>
               (case build_eval_context (ac_context cfg) request (mc_name container) of
                  Inl e \<Rightarrow> (Inl (Invalid_Request (Inl e)), st\<lparr>as_permission_rates := rates\<rparr>)
                | Inr context \<Rightarrow>
                    (Inr (evaluation_verdict (executor_evaluate (ac_cel cfg) (ac_rules cfg) task context)),
                     st\<lparr>as_permission_rates := rates\<rparr>))))"

definition rule_request_submit ::
  "('x, 'p) agent_config \<Rightarrow> agent_peer \<Rightarrow> nat \<Rightarrow> 8 word list option \<Rightarrow> bool \<Rightarrow> string payload
     \<Rightarrow> agent_state \<Rightarrow> (agent_api_error, rule_request_response) result \<times> agent_state" where
  "rule_request_submit cfg peer now random join_failed body st =
     (case res_bind (json_payload body) (\<lambda>rule_file.
             res_bind (resolve_session peer (as_sessions st)) (\<lambda>container. Inr (rule_file, container))) of
        Inl e \<Rightarrow> (Inl e, st)
      | Inr (rule_file, container) \<Rightarrow>
          (case check_rate_limit now (ac_rule_rate cfg) (mc_id container) (as_rule_rates st) of
             (Some wait, rates) \<Rightarrow>
               (Inl (Rate_Limited (mc_id container) wait), st\<lparr>as_rule_rates := rates\<rparr>)
           | (None, rates) \<Rightarrow>
               (let st = st\<lparr>as_rule_rates := rates\<rparr>
                in case validate_rule_yaml (ac_loader cfg) rule_file of
                     Inl e \<Rightarrow> (Inl (Invalid_Request (Inr e)), st)
                   | Inr _ \<Rightarrow>
                       (case generate_request_id random of
                          None \<Rightarrow> (Inl (Internal ''secure request ID generation unavailable''), st)
                        | Some rid \<Rightarrow>
                            (case request_insert (ac_loader cfg) (ac_json cfg) join_failed rid
                                    \<lparr>rq_container_id = mc_id container, rq_rule_file = rule_file,
                                     rq_status = Pending, rq_reason = None\<rparr>
                                    (as_requests st) (as_fs st) of
                               (r, mgr, t) \<Rightarrow>
                                 ((case r of
                                     Inl _ \<Rightarrow> Inl (Internal ''failed to persist rule request'')
                                   | Inr _ \<Rightarrow> Inr \<lparr>rr_id = rid, rr_status = Pending, rr_reason = None\<rparr>),
                                  st\<lparr>as_requests := mgr, as_fs := t\<rparr>))))))"

definition rule_request_status ::
  "agent_peer \<Rightarrow> string \<Rightarrow> agent_state \<Rightarrow> (agent_api_error, rule_request_response) result" where
  "rule_request_status peer rid st =
     res_bind (resolve_session peer (as_sessions st)) (\<lambda>container.
       if \<not> valid_request_id rid then Inl Rule_Request_Not_Found
       else
         (case request_get rid (as_requests st) of
            Some e \<Rightarrow>
              if rq_container_id e = mc_id container
              then Inr \<lparr>rr_id = rid, rr_status = rq_status e, rr_reason = rq_reason e\<rparr>
              else Inl Rule_Request_Not_Found
          | None \<Rightarrow> Inl Rule_Request_Not_Found))"

section \<open>Cleanup (mod.rs)\<close>

definition clear_derived_state :: "agent_state \<Rightarrow> agent_state" where
  "clear_derived_state st =
     st\<lparr>as_sessions := registry_clear (as_sessions st), as_permission_rates := [], as_rule_rates := []\<rparr>"

definition cleanup_step :: "received_event \<Rightarrow> agent_state \<Rightarrow> agent_state" where
  "cleanup_step event st =
     (case event of
        Received (Lifecycle kind container_name container_id) \<Rightarrow>
          (if kind \<in> {Die, Oom, Kill, Destroy}
           then st\<lparr>as_sessions := remove_container container_id (as_sessions st),
                  as_permission_rates := AList.delete container_id (as_permission_rates st),
                  as_rule_rates := AList.delete container_id (as_rule_rates st)\<rparr>
           else st)
      | Received Stream_Reset \<Rightarrow> clear_derived_state st
      | Lagged _ \<Rightarrow> clear_derived_state st
      | Closed \<Rightarrow> clear_derived_state st)"

section \<open>The registry\<close>

text \<open>
  Every session is the one its container's entry names. (The converse fails when two containers are
  given the same random token; \<open>existing_for_container\<close> repairs that.)
\<close>

definition wf_registry :: "session_registry \<Rightarrow> bool" where
  "wf_registry reg \<longleftrightarrow>
     distinct (map fst (sr_by_token reg)) \<and> distinct (map fst (sr_by_container reg))
     \<and> length (sr_by_token reg) \<le> MAX_SESSIONS
     \<and> (\<forall>token c. map_of (sr_by_token reg) token = Some c \<longrightarrow>
          map_of (sr_by_container reg) (mc_id c) = Some token \<and> valid_session_token token)"

lemma wf_registryD:
  "wf_registry reg \<Longrightarrow> map_of (sr_by_token reg) token = Some c \<Longrightarrow>
     map_of (sr_by_container reg) (mc_id c) = Some token"
  unfolding wf_registry_def by blast

lemma map_of_delete [simp]: "map_of (AList.delete k m) = (map_of m)(k := None)"
  by (rule delete_conv')

lemma length_delete_some: "map_of m k = Some v \<Longrightarrow> length (AList.delete k m) < length m"
  by (induction m) (auto simp: AList.delete_eq length_filter_le less_Suc_eq_le)

lemma length_delete_le: "length (AList.delete k m) \<le> length m"
  by (simp add: AList.delete_eq)

lemma length_update_le: "length (AList.update k v m) \<le> Suc (length m)"
  by (induction m) auto

lemma wf_registry_new [wf_intro]: "wf_registry registry_new"
  by (simp add: wf_registry_def registry_new_def)

lemma wf_registry_clear [wf_intro]: "wf_registry (registry_clear reg)"
  by (simp add: wf_registry_def registry_clear_def)

lemma wf_existing [wf_intro]:
  assumes "wf_registry reg" and "existing_for_container c reg = (r, reg')"
  shows "wf_registry reg' \<and> sr_by_token reg' = sr_by_token reg
    \<and> (r = None \<longrightarrow> map_of (sr_by_container reg') c = None)
    \<and> (\<forall>t x. r = Some (t, x) \<longrightarrow> reg' = reg \<and> container_for_token t reg = Some x)"
proof (cases "map_of (sr_by_container reg) c")
  case None
  with assms show ?thesis by (simp add: existing_for_container_def)
next
  case (Some t)
  show ?thesis
  proof (cases "map_of (sr_by_token reg) t")
    case (Some x)
    with \<open>map_of (sr_by_container reg) c = Some t\<close> assms show ?thesis
      by (auto simp: existing_for_container_def container_for_token_def)
  next
    case None
    then have reg': "reg' = reg\<lparr>sr_by_container := AList.delete c (sr_by_container reg)\<rparr>" "r = None"
      using assms(2) Some by (auto simp: existing_for_container_def)
    have "mc_id x \<noteq> c" if "map_of (sr_by_token reg) u = Some x" for u x
      using wf_registryD [OF assms(1) that] None Some that by (metis option.distinct(1) option.inject)
    with assms(1) show ?thesis by (auto simp: wf_registry_def reg' distinct_delete)
  qed
qed

lemma wf_session_insert [wf_intro]:
  assumes "wf_registry reg" and "map_of (sr_by_container reg) (mc_id c) = None"
    and "valid_session_token token" and "session_insert token c reg = Some reg'"
  shows "wf_registry reg'"
proof -
  have reg': "reg' = \<lparr>sr_by_token = AList.update token c (sr_by_token reg),
      sr_by_container = AList.update (mc_id c) token (sr_by_container reg)\<rparr>"
    and len: "length (sr_by_token reg) < MAX_SESSIONS"
    using assms(2,4) by (auto simp: session_insert_def Let_def split: if_splits)
  have "mc_id x \<noteq> mc_id c" if "map_of (sr_by_token reg) u = Some x" for u x
    using wf_registryD [OF assms(1) that] assms(2) by (metis option.distinct(1))
  moreover have "length (AList.update token c (sr_by_token reg)) \<le> MAX_SESSIONS"
    using length_update_le [of token c "sr_by_token reg"] len by linarith
  ultimately show ?thesis
    using assms(1,3) by (auto simp: wf_registry_def reg' distinct_update)
qed

lemma wf_remove_container [wf_intro]:
  assumes "wf_registry reg"
  shows "wf_registry (remove_container cid reg)
    \<and> (\<forall>token c. container_for_token token (remove_container cid reg) = Some c \<longrightarrow> mc_id c \<noteq> cid)"
proof (cases "map_of (sr_by_container reg) cid")
  case None
  with assms show ?thesis
    by (auto simp: remove_container_def container_for_token_def wf_registry_def)
next
  case (Some t)
  have "mc_id c = cid \<Longrightarrow> u = t" if "map_of (sr_by_token reg) u = Some c" for u c
    using wf_registryD [OF assms that] Some by (metis option.inject)
  then show ?thesis
    using assms Some le_trans [OF length_delete_le]
    by (auto simp: remove_container_def container_for_token_def wf_registry_def distinct_delete
        split: if_splits)
qed

lemma generated_token_valid:
  "generate_token (Some bytes) = Some token \<Longrightarrow> length bytes = 16 \<Longrightarrow> valid_session_token token"
  using hex_encode_lower [of bytes]
  by (auto simp: generate_token_def valid_session_token_def has_canonical_hex_suffix_def)

text \<open>With tokens that are not in use, the two maps are inverse to each other.\<close>

definition exact_registry :: "session_registry \<Rightarrow> bool" where
  "exact_registry reg \<longleftrightarrow>
     (\<forall>cid token. map_of (sr_by_container reg) cid = Some token \<longrightarrow>
        (\<exists>c. map_of (sr_by_token reg) token = Some c \<and> mc_id c = cid))"

definition fresh_token :: "8 word list option \<Rightarrow> session_registry \<Rightarrow> bool" where
  "fresh_token random reg \<longleftrightarrow>
     (\<forall>bytes. random = Some bytes \<longrightarrow> map_of (sr_by_token reg) (''tok-'' @ hex_encode bytes) = None)"

text \<open>A check-in fails without an effect on the sessions, or finds a session, or opens one.\<close>

lemma checkin_cases:
  assumes "checkin peer body random st = (r, st')" and "wf_registry (as_sessions st)"
  obtains (failed) e reg where "r = Inl e" "st' = st\<lparr>as_sessions := reg\<rparr>" "wf_registry reg"
      "sr_by_token reg = sr_by_token (as_sessions st)"
      "exact_registry (as_sessions st) \<Longrightarrow> reg = as_sessions st"
  | (found) c token x where "resolve_peer_container peer = Inr c" "st' = st"
      "map_of (sr_by_container (as_sessions st)) (mc_id c) = Some token"
      "container_for_token token (as_sessions st) = Some x"
      "r = Inr \<lparr>cd_container_id = mc_id x, cd_session_token = token,
        cd_context_keys = default_context_keys\<rparr>"
  | (opened) c bytes reg reg' where "resolve_peer_container peer = Inr c" "random = Some bytes"
      "wf_registry reg" "sr_by_token reg = sr_by_token (as_sessions st)"
      "map_of (sr_by_container reg) (mc_id c) = None"
      "exact_registry (as_sessions st) \<Longrightarrow> reg = as_sessions st"
      "session_insert (''tok-'' @ hex_encode bytes) c reg = Some reg'"
      "st' = st\<lparr>as_sessions := reg'\<rparr>"
      "r = Inr \<lparr>cd_container_id = mc_id c, cd_session_token = ''tok-'' @ hex_encode bytes,
        cd_context_keys = default_context_keys\<rparr>"
proof (cases "res_bind (json_payload body) (\<lambda>_. resolve_peer_container peer)")
  case (Inl e)
  from assms(1) have "r = Inl e" "st' = st" unfolding checkin_def Inl by simp_all
  with assms(2) show thesis by (intro failed) auto
next
  case (Inr c)
  then have peer: "resolve_peer_container peer = Inr c" by (auto simp: result_simps)
  obtain ex reg where ex: "existing_for_container (mc_id c) (as_sessions st) = (ex, reg)" by fastforce
  note wf = wf_existing [OF assms(2) ex]
  have exact: "reg = as_sessions st" if "exact_registry (as_sessions st)"
  proof (cases "map_of (sr_by_container (as_sessions st)) (mc_id c)")
    case None
    with ex show ?thesis by (simp add: existing_for_container_def)
  next
    case (Some t)
    with that obtain x where "map_of (sr_by_token (as_sessions st)) t = Some x"
      unfolding exact_registry_def by blast
    with ex Some show ?thesis by (simp add: existing_for_container_def)
  qed
  show thesis
  proof (cases ex)
    case (Some tx)
    obtain t x where tx: "tx = (t, x)" by fastforce
    have "map_of (sr_by_container (as_sessions st)) (mc_id c) = Some t"
      using ex Some tx by (cases "map_of (sr_by_container (as_sessions st)) (mc_id c)")
        (simp_all add: existing_for_container_def split: option.splits)
    with assms(1) Inr ex Some tx wf peer show thesis
      by (intro found [of c t x]) (auto simp: checkin_def)
  next
    case None
    show thesis
    proof (cases "\<exists>bytes reg'. random = Some bytes
        \<and> session_insert (''tok-'' @ hex_encode bytes) c reg = Some reg'")
      case False
      then obtain e where "r = Inl e" "st' = st\<lparr>as_sessions := reg\<rparr>"
        using assms(1) Inr ex None by (cases random) (auto simp: checkin_def generate_token_def
            split: option.splits)
      with wf exact show thesis by (intro failed [of e reg]) auto
    next
      case True
      then obtain bytes reg' where b: "random = Some bytes"
        "session_insert (''tok-'' @ hex_encode bytes) c reg = Some reg'" by blast
      with assms(1) Inr ex None wf exact peer show thesis
        by (intro opened [of c bytes reg reg']) (auto simp: checkin_def generate_token_def)
    qed
  qed
qed

lemma session_insert_maps:
  assumes "session_insert token c reg = Some reg'" and "map_of (sr_by_container reg) (mc_id c) = None"
  shows "map_of (sr_by_token reg') = (map_of (sr_by_token reg))(token \<mapsto> c)
    \<and> map_of (sr_by_container reg') = (map_of (sr_by_container reg))(mc_id c \<mapsto> token)"
  using assms by (auto simp: session_insert_def Let_def split: if_splits)

lemma wf_checkin:
  assumes "wf_registry (as_sessions st)" and "checkin peer body random st = (r, st')"
    and "\<forall>bytes. random = Some bytes \<longrightarrow> length bytes = 16"
  shows "wf_registry (as_sessions st')"
  using assms(2,1)
proof (cases rule: checkin_cases)
  case (opened c bytes reg reg')
  have "valid_session_token (''tok-'' @ hex_encode bytes)"
    using generated_token_valid [of bytes] assms(3) opened(2) by (simp add: generate_token_def)
  from wf_session_insert [OF opened(3,5) this opened(7)] opened(8) show ?thesis by simp
qed (use assms in auto)

lemma exact_update:
  assumes "\<forall>cid t. b cid = Some t \<longrightarrow> (\<exists>x. a t = Some x \<and> mc_id x = cid)" and "a token = None"
  shows "\<forall>cid t. (b(mc_id c \<mapsto> token)) cid = Some t \<longrightarrow>
    (\<exists>x. (a(token \<mapsto> c)) t = Some x \<and> mc_id x = cid)"
  using assms by (metis fun_upd_apply option.distinct(1) option.inject)

lemma exact_checkin:
  assumes "wf_registry (as_sessions st)" and "exact_registry (as_sessions st)"
    and "fresh_token random (as_sessions st)" and "checkin peer body random st = (r, st')"
  shows "exact_registry (as_sessions st')
    \<and> (\<forall>data. r = Inr data \<longrightarrow> (\<exists>c x. resolve_peer_container peer = Inr c
        \<and> cd_container_id data = mc_id c
        \<and> container_for_token (cd_session_token data) (as_sessions st') = Some x \<and> mc_id x = mc_id c))"
  using assms(4,1)
proof (cases rule: checkin_cases)
  case (failed e reg)
  then show ?thesis using assms(2) by simp
next
  case (found c token x)
  then have "mc_id x = mc_id c"
    using assms(2) unfolding exact_registry_def container_for_token_def by (metis option.inject)
  with found assms(2) show ?thesis by simp
next
  case (opened c bytes reg reg')
  have reg: "reg = as_sessions st" using opened(6) assms(2) by blast
  note maps = session_insert_maps [OF opened(7,5)]
  have "map_of (sr_by_token reg) (''tok-'' @ hex_encode bytes) = None"
    using assms(3) opened(2) reg by (simp add: fresh_token_def)
  then have "exact_registry reg'"
    using assms(2) unfolding exact_registry_def reg [symmetric] conjunct1 [OF maps]
      conjunct2 [OF maps] by (rule exact_update [rotated])
  with opened maps show ?thesis by (simp add: container_for_token_def)
qed

lemma exact_remove_container:
  assumes "exact_registry reg" shows "exact_registry (remove_container cid reg)"
proof (cases "map_of (sr_by_container reg) cid")
  case None
  with assms show ?thesis by (simp add: remove_container_def)
next
  case (Some t)
  then obtain x where x: "map_of (sr_by_token reg) t = Some x" "mc_id x = cid"
    using assms unfolding exact_registry_def by blast
  have "u \<noteq> t" if "map_of (sr_by_container reg) d = Some u" "d \<noteq> cid" for d u
    using assms that x unfolding exact_registry_def by (metis option.inject)
  with assms Some show ?thesis by (fastforce simp: remove_container_def exact_registry_def)
qed

section \<open>Reachable states\<close>

text \<open>
  Requests of any peers, container events and operator decisions in any order. Random tokens have
  sixteen bytes.
\<close>

inductive agent_step :: "('x, 'p) agent_config \<Rightarrow> agent_state \<Rightarrow> agent_state \<Rightarrow> bool" for cfg where
  step_checkin: "checkin peer body random st = (r, st') \<Longrightarrow>
      \<forall>bytes. random = Some bytes \<longrightarrow> length bytes = 16 \<Longrightarrow> agent_step cfg st st'"
| step_permission: "permissions_check cfg peer now task req st = (v, st') \<Longrightarrow> agent_step cfg st st'"
| step_rule: "rule_request_submit cfg peer now random join_failed rule st = (q, st') \<Longrightarrow>
      agent_step cfg st st'"
| step_cleanup: "agent_step cfg st (cleanup_step event st)"
| step_operator: "request_step (ac_loader cfg) (ac_json cfg) (as_requests st, as_fs st) (mgr, t) \<Longrightarrow>
      agent_step cfg st (st\<lparr>as_requests := mgr, as_fs := t\<rparr>)"

lemma permissions_check_sessions:
  "permissions_check cfg peer now task req st = (v, st') \<Longrightarrow>
     as_sessions st' = as_sessions st \<and> as_requests st' = as_requests st"
  by (auto simp: permissions_check_def split: sum.splits prod.splits option.splits)

lemma rule_request_submit_sessions:
  "rule_request_submit cfg peer now random join_failed rule st = (q, st') \<Longrightarrow>
     as_sessions st' = as_sessions st"
  by (auto simp: rule_request_submit_def Let_def split: sum.splits prod.splits option.splits)

lemma agent_step_wf:
  assumes "agent_step cfg st st'" and "wf_registry (as_sessions st)"
  shows "wf_registry (as_sessions st')"
  using assms
proof (induction rule: agent_step.induct)
  case (step_checkin peer body random st r st')
  then show ?case using wf_checkin by blast
next
  case (step_permission peer now task req st v st')
  from permissions_check_sessions [OF this(1)] this(2) show ?case by simp
next
  case (step_rule peer now random join_failed rule st q st')
  from rule_request_submit_sessions [OF this(1)] this(2) show ?case by simp
next
  case (step_cleanup st event)
  then show ?case
    using wf_remove_container wf_registry_clear
    by (auto simp: cleanup_step_def clear_derived_state_def split: received_event.splits
        container_event.splits)
qed simp

text \<open>When a session resolves, the token belongs to the container of the peer.\<close>

lemma resolve_session_Inr:
  "resolve_session peer reg = Inr c \<longleftrightarrow>
     (\<exists>token x. bearer_token (pe_authorization peer) = Some token \<and> valid_session_token token
        \<and> resolve_peer_container peer = Inr c \<and> container_for_token token reg = Some x
        \<and> mc_id x = mc_id c)"
  by (auto simp: resolve_session_def result_simps split: option.splits if_splits)

text \<open>Accepted requests have a session; a permission check has evaluated the context.\<close>

lemma permissions_check_InrD:
  assumes "permissions_check cfg peer now task (Payload req) st = (Inr v, st')"
  shows "\<exists>c cx. resolve_session peer (as_sessions st) = Inr c
    \<and> build_eval_context (ac_context cfg) req (mc_name c) = Inr cx
    \<and> v = evaluation_verdict (executor_evaluate (ac_cel cfg) (ac_rules cfg) task cx)"
proof (cases "resolve_session peer (as_sessions st)")
  case (Inl e)
  with assms show ?thesis by (simp add: permissions_check_def)
next
  case (Inr c)
  obtain w rates where rate: "check_rate_limit now (ac_permission_rate cfg) (mc_id c)
      (as_permission_rates st) = (w, rates)" by (meson surj_pair)
  with assms Inr have "w = None" by (cases w) (simp_all add: permissions_check_def)
  with assms Inr rate show ?thesis
    by (cases "build_eval_context (ac_context cfg) req (mc_name c)")
      (simp_all add: permissions_check_def)
qed

lemma allowed_verdict_rule:
  assumes "v = evaluation_verdict (executor_evaluate (ac_cel cfg) (ac_rules cfg) task cx)" and "vd_allowed v"
  shows "\<exists>r. deciding_rule (ac_cel cfg) (re_rule_set (ac_rules cfg)) cx = Some r
    \<and> cr_action r = Rule_Allow \<and> vd_matched_rule v = Some (cr_id r)"
proof -
  from assms have "executor_evaluate (ac_cel cfg) (ac_rules cfg) task cx
      = Inr (evaluate_snapshot (ac_cel cfg) (re_rule_set (ac_rules cfg)) cx)"
    "er_decision (evaluate_snapshot (ac_cel cfg) (re_rule_set (ac_rules cfg)) cx) = Allow"
    by (auto simp: evaluation_verdict_def executor_evaluate_def snapshot_def split: evaluation_task.splits)
  with assms(1) show ?thesis
    by (auto simp: evaluate_snapshot_deciding evaluation_verdict_def split: option.splits)
qed

lemma rule_request_submit_InrD:
  assumes "rule_request_submit cfg peer now random join_failed (Payload rule) st = (Inr q, st')"
  shows "\<exists>c t u. resolve_session peer (as_sessions st) = Inr c
    \<and> validate_rule_yaml (ac_loader cfg) rule = Inr ()
    \<and> request_insert (ac_loader cfg) (ac_json cfg) join_failed (rr_id q)
        \<lparr>rq_container_id = mc_id c, rq_rule_file = rule, rq_status = Pending, rq_reason = None\<rparr>
        (as_requests st) (as_fs st) = (Inr u, as_requests st', t)"
proof (cases "resolve_session peer (as_sessions st)")
  case (Inl e)
  with assms show ?thesis by (simp add: rule_request_submit_def)
next
  case (Inr c)
  obtain w rates where rate: "check_rate_limit now (ac_rule_rate cfg) (mc_id c)
      (as_rule_rates st) = (w, rates)" by (meson surj_pair)
  with assms Inr have "w = None" by (cases w) (simp_all add: rule_request_submit_def)
  moreover from this assms Inr rate have valid: "validate_rule_yaml (ac_loader cfg) rule = Inr ()"
    by (cases "validate_rule_yaml (ac_loader cfg) rule") (simp_all add: rule_request_submit_def)
  moreover obtain rid where rid: "generate_request_id random = Some rid"
    using calculation assms Inr rate
    by (cases "generate_request_id random") (simp_all add: rule_request_submit_def)
  moreover obtain r mgr t where ins: "request_insert (ac_loader cfg) (ac_json cfg) join_failed rid
      \<lparr>rq_container_id = mc_id c, rq_rule_file = rule, rq_status = Pending, rq_reason = None\<rparr>
      (as_requests st) (as_fs st) = (r, mgr, t)" by (metis prod_cases3)
  moreover obtain u where "r = Inr u"
    using calculation assms Inr rate by (cases r) (simp_all add: rule_request_submit_def)
  ultimately show ?thesis using assms Inr rate by (auto simp: rule_request_submit_def)
qed

section \<open>Properties\<close>

text \<open>
  C19: Sessions follow their containers. In every state reachable by check-ins, requests, operator
  decisions and container events in any order, there are at most 4,096 sessions, tokens are canonical
  and every session is the current one of its container. The event that a container died leaves no
  session of that container, and a gap or a reset of the event stream leaves none at all.
\<close>

theorem sessions_follow_containers:
  assumes "as_sessions st0 = registry_new" and "(agent_step cfg)\<^sup>*\<^sup>* st0 st"
  shows "wf_registry (as_sessions st)
    \<and> (\<forall>kind name cid token c. kind \<in> {Die, Oom, Kill, Destroy} \<longrightarrow>
        container_for_token token (as_sessions (cleanup_step (Received (Lifecycle kind name cid)) st))
          = Some c \<longrightarrow> mc_id c \<noteq> cid)
    \<and> (\<forall>event token. (\<nexists>kind name cid. event = Received (Lifecycle kind name cid)) \<longrightarrow>
        container_for_token token (as_sessions (cleanup_step event st)) = None)"
proof -
  have wf: "wf_registry (as_sessions st)"
    using assms(2) by (induction rule: rtranclp_induct)
      (simp_all add: assms(1) wf_registry_new agent_step_wf)
  moreover have "container_for_token token (as_sessions (cleanup_step event st)) = None"
    if "\<nexists>kind name cid. event = Received (Lifecycle kind name cid)" for event token
    using that by (auto simp: cleanup_step_def clear_derived_state_def registry_clear_def
        container_for_token_def split: received_event.splits container_event.splits)
  ultimately show ?thesis
    using wf_remove_container [OF wf] by (simp add: cleanup_step_def)
qed

text \<open>
  C4: Requests act only for the peer's own container. A permission is granted, a rule request queued
  and a status shown only when the bearer token is the session of the very container Docker reports for
  the peer's process. The grant is then the engine's verdict on a context that names that container's
  agent: the first matching rule is an allow rule. The queued request carries that container's
  identifier, and the status shown is that of a request of that container.
\<close>

theorem agent_acts_for_itself:
  shows "(\<forall>v st'. permissions_check cfg peer now task (Payload req) st = (Inr v, st') \<and> vd_allowed v \<longrightarrow>
        (\<exists>c token x context r. resolve_peer_container peer = Inr c
          \<and> bearer_token (pe_authorization peer) = Some token
          \<and> container_for_token token (as_sessions st) = Some x \<and> mc_id x = mc_id c
          \<and> build_eval_context (ac_context cfg) req (mc_name c) = Inr context
          \<and> deciding_rule (ac_cel cfg) (re_rule_set (ac_rules cfg)) context = Some r
          \<and> cr_action r = Rule_Allow \<and> vd_matched_rule v = Some (cr_id r)))
    \<and> (\<forall>q st'. rule_request_submit cfg peer now random join_failed (Payload rule) st = (Inr q, st') \<longrightarrow>
        (\<exists>c. resolve_session peer (as_sessions st) = Inr c
          \<and> request_get (rr_id q) (as_requests st') = Some \<lparr>rq_container_id = mc_id c,
              rq_rule_file = rule, rq_status = Pending, rq_reason = None\<rparr>
          \<and> validate_rule_yaml (ac_loader cfg) rule = Inr ()))
    \<and> (\<forall>q. rule_request_status peer rid st = Inr q \<longrightarrow>
        (\<exists>c e. resolve_session peer (as_sessions st) = Inr c \<and> rr_id q = rid
          \<and> request_get rid (as_requests st) = Some e \<and> rq_container_id e = mc_id c
          \<and> rr_status q = rq_status e))"
proof (intro conjI allI impI)
  fix v st'
  assume p: "permissions_check cfg peer now task (Payload req) st = (Inr v, st') \<and> vd_allowed v"
  then obtain c cx where c: "resolve_session peer (as_sessions st) = Inr c"
    and ctx: "build_eval_context (ac_context cfg) req (mc_name c) = Inr cx"
    and v: "v = evaluation_verdict (executor_evaluate (ac_cel cfg) (ac_rules cfg) task cx)"
    using permissions_check_InrD by blast
  with p obtain r where "deciding_rule (ac_cel cfg) (re_rule_set (ac_rules cfg)) cx = Some r"
    "cr_action r = Rule_Allow" "vd_matched_rule v = Some (cr_id r)"
    using allowed_verdict_rule by blast
  with c ctx show "\<exists>c token x context r. resolve_peer_container peer = Inr c
      \<and> bearer_token (pe_authorization peer) = Some token
      \<and> container_for_token token (as_sessions st) = Some x \<and> mc_id x = mc_id c
      \<and> build_eval_context (ac_context cfg) req (mc_name c) = Inr context
      \<and> deciding_rule (ac_cel cfg) (re_rule_set (ac_rules cfg)) context = Some r
      \<and> cr_action r = Rule_Allow \<and> vd_matched_rule v = Some (cr_id r)"
    unfolding resolve_session_Inr by blast
next
  fix q st'
  assume s: "rule_request_submit cfg peer now random join_failed (Payload rule) st = (Inr q, st')"
  show "\<exists>c. resolve_session peer (as_sessions st) = Inr c
      \<and> request_get (rr_id q) (as_requests st') = Some \<lparr>rq_container_id = mc_id c,
          rq_rule_file = rule, rq_status = Pending, rq_reason = None\<rparr>
      \<and> validate_rule_yaml (ac_loader cfg) rule = Inr ()"
    using rule_request_submit_InrD [OF s] request_insert_stored by blast
next
  fix q
  assume "rule_request_status peer rid st = Inr q"
  then show "\<exists>c e. resolve_session peer (as_sessions st) = Inr c \<and> rr_id q = rid
      \<and> request_get rid (as_requests st) = Some e \<and> rq_container_id e = mc_id c
      \<and> rr_status q = rq_status e"
    by (auto simp: rule_request_status_def result_simps split: if_splits option.splits)
qed

text \<open>
  A check-in gives a usable session. As long as random tokens do not collide with live ones, the
  registry's two maps stay inverse to each other, and after a successful check-in a request of the
  same peer that presents the returned token as its bearer token resolves to the peer's container.
\<close>

lemma checkin_session_usable:
  assumes "wf_registry (as_sessions st)" and "exact_registry (as_sessions st)"
    and "fresh_token random (as_sessions st)" and "\<forall>bytes. random = Some bytes \<longrightarrow> length bytes = 16"
    and "checkin peer body random st = (Inr data, st')"
    and "pe_authorization later = Some (''Bearer '' @ cd_session_token data)"
    and "resolve_peer_container later = resolve_peer_container peer"
  shows "exact_registry (as_sessions st') \<and> wf_registry (as_sessions st')
    \<and> (\<exists>c. resolve_peer_container peer = Inr c \<and> cd_container_id data = mc_id c
        \<and> resolve_session later (as_sessions st') = Inr c)"
proof -
  note wf = wf_checkin [OF assms(1,5,4)]
  from exact_checkin [OF assms(1-3,5)] obtain c x where
    c: "resolve_peer_container peer = Inr c" "cd_container_id data = mc_id c"
    "container_for_token (cd_session_token data) (as_sessions st') = Some x" "mc_id x = mc_id c"
    and ex: "exact_registry (as_sessions st')" by blast
  have "valid_session_token (cd_session_token data)"
    using wf c(3) unfolding wf_registry_def container_for_token_def by blast
  moreover have "bearer_token (pe_authorization later) = Some (cd_session_token data)"
    by (simp add: bearer_token_def assms(6) to_ascii_lower_def is_ascii_upper_def char_of_def bit_0)
  ultimately show ?thesis
    using c ex wf assms(7) unfolding resolve_session_Inr by auto
qed

section \<open>Examples\<close>

definition demo_container :: managed_container_identity where
  "demo_container = \<lparr>mc_id = ''c'', mc_name = ''web-1''\<rparr>"

definition demo_peer :: "string option \<Rightarrow> agent_peer" where
  "demo_peer authorization = \<lparr>pe_pid = Some 7, pe_slot_free = True,
     pe_lookup = (\<lambda>_. Peer_Found demo_container), pe_authorization = authorization\<rparr>"

definition demo_token :: string where
  "demo_token = ''tok-'' @ hex_encode (replicate 16 0)"

definition demo_agent_state :: agent_state where
  "demo_agent_state = \<lparr>as_sessions = registry_new, as_permission_rates = [], as_rule_rates = [],
     as_requests = \<lparr>rm_requests = [], rm_state_path = [''s'']\<rparr>, as_fs = demo_state_fs\<rparr>"

lemma demo_checkin:
  "checkin (demo_peer None) (Payload ()) (Some (replicate 16 0)) demo_agent_state =
     (Inr \<lparr>cd_container_id = ''c'', cd_session_token = demo_token,
        cd_context_keys = default_context_keys\<rparr>,
      demo_agent_state\<lparr>as_sessions := \<lparr>sr_by_token = [(demo_token, demo_container)],
        sr_by_container = [(''c'', demo_token)]\<rparr>\<rparr>)"
  by (simp add: checkin_def resolve_peer_container_def demo_peer_def demo_container_def
      existing_for_container_def demo_agent_state_def registry_new_def generate_token_def
      session_insert_def MAX_SESSIONS_def demo_token_def)

theorem sessions_follow_containers_witness:
  "wf_registry \<lparr>sr_by_token = [(demo_token, demo_container)], sr_by_container = [(''c'', demo_token)]\<rparr>"
proof -
  have "as_sessions demo_agent_state = registry_new" by (simp add: demo_agent_state_def)
  moreover have "agent_step cfg demo_agent_state (demo_agent_state\<lparr>as_sessions :=
      \<lparr>sr_by_token = [(demo_token, demo_container)], sr_by_container = [(''c'', demo_token)]\<rparr>\<rparr>)" for cfg
    using demo_checkin by (rule step_checkin) simp
  then have "(agent_step undefined)\<^sup>*\<^sup>* demo_agent_state (demo_agent_state\<lparr>as_sessions :=
      \<lparr>sr_by_token = [(demo_token, demo_container)], sr_by_container = [(''c'', demo_token)]\<rparr>\<rparr>)" by blast
  ultimately show ?thesis using sessions_follow_containers by fastforce
qed

definition demo_agent_config :: "((string \<times> cel_value) list, string) agent_config" where
  "demo_agent_config = \<lparr>ac_cel = demo_cel,
     ac_rules = \<lparr>re_rules_dir = [''r''], re_rule_set = [demo_web\<lparr>cr_program := ''true''\<rparr>]\<rparr>,
     ac_loader = demo_ext, ac_context = demo_context_ext, ac_json = demo_json,
     ac_permission_rate = \<lparr>rc_limit = 2, rc_window = 10\<rparr>,
     ac_rule_rate = \<lparr>rc_limit = 2, rc_window = 10\<rparr>\<rparr>"

definition demo_session_state :: agent_state where
  "demo_session_state = demo_agent_state\<lparr>as_sessions := \<lparr>sr_by_token = [(demo_token, demo_container)],
     sr_by_container = [(''c'', demo_token)]\<rparr>,
     as_requests := \<lparr>rm_requests = [(demo_rid, demo_entry)], rm_state_path = [''s'']\<rparr>\<rparr>"

definition demo_agent :: agent_peer where
  "demo_agent = demo_peer (Some (''Bearer '' @ demo_token))"

lemma demo_resolves: "resolve_session demo_agent (as_sessions demo_session_state) = Inr demo_container"
  by code_simp

lemma demo_rate: "fst (check_rate_limit 0 \<lparr>rc_limit = 2, rc_window = 10\<rparr> ''c'' []) = None"
  by (simp add: check_rate_limit_def window_check_def window_new_def reap_stale_def)

lemma demo_cel_true:
  "deciding_rule demo_cel [demo_web\<lparr>cr_program := ''true''\<rparr>] cx
     = Some (demo_web\<lparr>cr_program := ''true''\<rparr>)"
  by (simp add: deciding_rule_def rule_matches_def demo_cel_def demo_web_def build_cel_context_def)

lemma demo_context_built: "\<exists>cx. build_eval_context demo_context_ext demo_permission ''web-1'' = Inr cx"
  by (simp add: build_eval_context_def demo_permission_def demo_not_blank command_context_def
      parse_command_args_def MAX_ARGS_def MAX_ARG_BYTES_def MAX_TOTAL_BYTES_def Let_def)

lemma demo_permission_granted:
  "fst (permissions_check demo_agent_config demo_agent 0 Task_Finished (Payload demo_permission)
     demo_session_state)
   = Inr \<lparr>vd_allowed = True, vd_matched_rule = Some ''web'', vd_reason = None\<rparr>"
proof -
  obtain cx where cx: "build_eval_context demo_context_ext demo_permission ''web-1'' = Inr cx"
    using demo_context_built by blast
  have ids: "mc_id demo_container = ''c''" "mc_name demo_container = ''web-1''"
    by (simp_all add: demo_container_def)
  have rates: "as_permission_rates demo_session_state = []"
    by (simp add: demo_session_state_def demo_agent_state_def)
  obtain rt where rate: "check_rate_limit 0 \<lparr>rc_limit = 2, rc_window = 10\<rparr> ''c'' [] = (None, rt)"
    using demo_rate by (metis prod.collapse)
  have "evaluate_snapshot demo_cel [demo_web\<lparr>cr_program := ''true''\<rparr>] cx
      = verdict_of (demo_web\<lparr>cr_program := ''true''\<rparr>)"
    by (simp add: evaluate_snapshot_deciding demo_cel_true)
  then show ?thesis
    using cx rate by (simp add: permissions_check_def demo_resolves ids rates demo_agent_config_def
      evaluation_verdict_def executor_evaluate_def snapshot_def verdict_of_def demo_web_def)
qed

lemma demo_status_shown:
  "rule_request_status demo_agent demo_rid demo_session_state
   = Inr \<lparr>rr_id = demo_rid, rr_status = Pending, rr_reason = None\<rparr>"
  by code_simp

theorem agent_acts_for_itself_witness:
  "(\<exists>cx r. build_eval_context demo_context_ext demo_permission ''web-1'' = Inr cx
      \<and> deciding_rule demo_cel [demo_web\<lparr>cr_program := ''true''\<rparr>] cx = Some r)
   \<and> (\<exists>c. resolve_session demo_agent (as_sessions demo_session_state) = Inr c)"
proof -
  obtain st' where p: "permissions_check demo_agent_config demo_agent 0 Task_Finished
      (Payload demo_permission) demo_session_state
      = (Inr \<lparr>vd_allowed = True, vd_matched_rule = Some ''web'', vd_reason = None\<rparr>, st')"
    using demo_permission_granted by (metis prod.collapse)
  have c: "resolve_peer_container demo_agent = Inr demo_container"
    by (simp add: demo_agent_def demo_peer_def resolve_peer_container_def)
  note claims = agent_acts_for_itself [of demo_agent_config demo_agent 0 Task_Finished demo_permission
      demo_session_state "Some []" False "[]" demo_rid]
  from conjunct1 [OF claims] p c show ?thesis
    using conjunct2 [OF conjunct2 [OF claims]] demo_status_shown
    by (fastforce simp: demo_agent_config_def demo_container_def)
qed

end
