(* ===== verification/Docker_Identity.thy ===== *)
theory Docker_Identity
  imports Container_Request Agent_Api Proxy_Http
begin

text \<open>
  Who is behind an address (outcalld/src/docker): labels and names (metadata.rs), the index from addresses
  to containers (identity.rs) and the event watcher that keeps it (events.rs). Docker's answers are
  arguments; an operation that fails or times out has no answer.
\<close>

section \<open>metadata.rs\<close>

datatype docker_error =
    Docker_Unavailable
  | Docker_Operation
  | Missing_Text string
  | No_Labels
  | Not_Managed
  | No_Network_Settings
  | Not_Attached string
  | Bad_Container_Ip string
  | Address_Conflict ip_addr
  | Bad_Peer_Ip
  | No_Cgroup
  | Invalid_Request_Of container_error
  | No_Random
  | No_Clock
  | Helper_Sources
  | Start_Failed bool
  | Register_Failed bool
  | Container_Missing
  | Bad_Stop_Timeout
  | Bad_Reference
  | Pull_Timeout

definition has_managed_label :: "(string \<times> string) list option \<Rightarrow> bool" where
  "has_managed_label labels \<longleftrightarrow>
     Option.bind labels (\<lambda>l. map_of l ''managed-by'') = Some ''outcalld''"

definition required_text :: "string option \<Rightarrow> string \<Rightarrow> (docker_error, string) result" where
  "required_text v field =
     (case v of
        Some s \<Rightarrow> if trim_start_utf8 s = [] then Inl (Missing_Text field) else Inr s
      | None \<Rightarrow> Inl (Missing_Text field))"

definition managed_network_label :: "(string \<times> string) list option \<Rightarrow> (docker_error, string) result" where
  "managed_network_label labels =
     res_bind (ok_or No_Labels labels) (\<lambda>l.
       if \<not> has_managed_label (Some l) then Inl Not_Managed
       else required_text (map_of l ''outcall.network'') ''managed container network label'')"

definition container_name :: "string option \<Rightarrow> (docker_error, string) result" where
  "container_name raw =
     res_bind (required_text raw ''managed container name'') (\<lambda>s.
       required_text (Some (dropWhile (\<lambda>c. c = CHR ''/'') s)) ''managed container name'')"

section \<open>Answers of Docker\<close>

record endpoint =
  ep_ip_address :: "string option"
  ep_global_ipv6_address :: "string option"

record container_summary =
  sm_id :: "string option"
  sm_names :: "string list option"
  sm_labels :: "(string \<times> string) list option"
  sm_networks :: "(string \<times> endpoint) list option"

record container_details =
  de_id :: "string option"
  de_name :: "string option"
  de_labels :: "(string \<times> string) list option"
  de_networks :: "(string \<times> endpoint) list option"
  de_running :: "bool option"

datatype inspect_answer = Inspected container_details | Inspect_Missing | Inspect_Failed

section \<open>identity.rs\<close>

record identity_state =
  is_entries :: "(ip_addr \<times> managed_container_identity) list"
  is_generation :: u64
  is_healthy :: bool

definition identity_new :: identity_state where
  "identity_new = \<lparr>is_entries = [], is_generation = 0, is_healthy = False\<rparr>"

definition addresses_from_declared_network ::
  "string \<Rightarrow> (string \<times> endpoint) list \<Rightarrow> (docker_error, ip_addr list) result" where
  "addresses_from_declared_network network_name networks =
     res_bind (ok_or (Not_Attached network_name) (map_of networks network_name)) (\<lambda>endpoint.
       fold_res (\<lambda>raw acc. case raw of
           None \<Rightarrow> Inr acc
         | Some text_ip \<Rightarrow>
             if text_ip = [] then Inr acc
             else res_bind (ok_or (Bad_Container_Ip text_ip) (parse_ip text_ip)) (\<lambda>ip. Inr (acc @ [ip])))
         [ep_ip_address endpoint, ep_global_ipv6_address endpoint] [])"

type_synonym identity_entries = "(ip_addr \<times> managed_container_identity) list"

definition insert_unique_identity ::
  "managed_container_identity \<Rightarrow> ip_addr \<Rightarrow> identity_entries \<Rightarrow> (docker_error, identity_entries) result" where
  "insert_unique_identity identity address entries =
     (case map_of entries address of
        Some existing \<Rightarrow>
          if existing \<noteq> identity then Inl (Address_Conflict address)
          else Inr (AList.update address identity entries)
      | None \<Rightarrow> Inr (AList.update address identity entries))"

definition load_summary :: "container_summary \<Rightarrow> identity_entries \<Rightarrow> (docker_error, identity_entries) result" where
  "load_summary container entries =
     res_bind (managed_network_label (sm_labels container)) (\<lambda>network_name.
     res_bind (ok_or No_Network_Settings (sm_networks container)) (\<lambda>networks.
     res_bind (addresses_from_declared_network network_name networks) (\<lambda>addresses.
     if addresses = [] then Inr entries
     else
       res_bind (required_text (sm_id container) ''managed container ID'') (\<lambda>cid.
       res_bind (container_name (case sm_names container of Some (n # _) \<Rightarrow> Some n | _ \<Rightarrow> None)) (\<lambda>name.
         fold_res (insert_unique_identity \<lparr>mc_id = cid, mc_name = name\<rparr>) addresses entries)))))"

definition load_managed_identities ::
  "container_summary list option \<Rightarrow> (docker_error, identity_entries) result" where
  "load_managed_identities containers =
     res_bind (ok_or Docker_Operation containers) (\<lambda>cs. fold_res load_summary cs [])"

definition inspect_managed_identity ::
  "inspect_answer \<Rightarrow> (docker_error, (managed_container_identity \<times> ip_addr list) option) result" where
  "inspect_managed_identity answer =
     (case answer of
        Inspected d \<Rightarrow>
          if \<not> has_managed_label (de_labels d) then Inr None
          else
            res_bind (managed_network_label (de_labels d)) (\<lambda>network_name.
            res_bind (required_text (de_id d) ''managed container ID'') (\<lambda>cid.
            res_bind (container_name (de_name d)) (\<lambda>name.
            res_bind (ok_or No_Network_Settings (de_networks d)) (\<lambda>networks.
            res_bind (addresses_from_declared_network network_name networks) (\<lambda>addresses.
              Inr (Some (\<lparr>mc_id = cid, mc_name = name\<rparr>, addresses)))))))
      | _ \<Rightarrow> Inl Docker_Operation)"

definition identity_refresh ::
  "container_summary list option \<Rightarrow> identity_state \<Rightarrow> (docker_error, unit) result \<times> identity_state" where
  "identity_refresh containers st =
     (case load_managed_identities containers of
        Inl e \<Rightarrow> (Inl e, st)
      | Inr entries \<Rightarrow>
          (Inr (), \<lparr>is_entries = entries, is_generation = is_generation st + 1, is_healthy = True\<rparr>))"

definition identity_invalidate :: "identity_state \<Rightarrow> identity_state" where
  "identity_invalidate st =
     \<lparr>is_entries = [], is_generation = is_generation st + 1, is_healthy = False\<rparr>"

definition retain_others :: "string \<Rightarrow> string \<Rightarrow> identity_entries \<Rightarrow> identity_entries" where
  "retain_others cid name entries = filter (\<lambda>(_, c). mc_id c \<noteq> cid \<and> mc_name c \<noteq> name) entries"

definition record_container ::
  "inspect_answer \<Rightarrow> identity_state \<Rightarrow> (docker_error, unit) result \<times> identity_state" where
  "record_container answer st =
     (case inspect_managed_identity answer of
        Inl e \<Rightarrow> (Inl e, st)
      | Inr None \<Rightarrow> (Inl Not_Managed, st)
      | Inr (Some (identity, addresses)) \<Rightarrow>
          (Inr (), st\<lparr>is_entries := fold (\<lambda>a es. AList.update a identity es) addresses
              (retain_others (mc_id identity) (mc_name identity) (is_entries st)),
            is_generation := is_generation st + 1\<rparr>))"

definition identity_remove :: "string \<Rightarrow> string \<Rightarrow> identity_state \<Rightarrow> identity_state" where
  "identity_remove cid name st =
     st\<lparr>is_entries := retain_others cid name (is_entries st), is_generation := is_generation st + 1\<rparr>"

text \<open>
  \<open>lookup_name_by_ip\<close> reads the index under the lock, asks Docker without it, and writes under the lock
  again; other operations can come between, so it is two steps.
\<close>

datatype lookup_start = Hit string | Ask ip_addr u64 bool

definition lookup_begin :: "string \<Rightarrow> identity_state \<Rightarrow> (docker_error, lookup_start) result" where
  "lookup_begin ip st =
     res_bind (ok_or Bad_Peer_Ip (parse_ip ip)) (\<lambda>address.
       Inr (case (if is_healthy st then map_of (is_entries st) address else None) of
              Some identity \<Rightarrow> Hit (mc_name identity)
            | None \<Rightarrow> Ask address (is_generation st) (is_healthy st)))"

definition lookup_finish ::
  "container_summary list option \<Rightarrow> ip_addr \<Rightarrow> u64 \<Rightarrow> bool \<Rightarrow> identity_state
     \<Rightarrow> (docker_error, string option) result \<times> identity_state" where
  "lookup_finish containers address generation healthy st =
     (case load_managed_identities containers of
        Inl e \<Rightarrow> (Inl e, st)
      | Inr fetched \<Rightarrow>
          (Inr (map_option mc_name (map_of fetched address)),
           if healthy \<and> is_healthy st \<and> is_generation st = generation
           then st\<lparr>is_entries := fetched, is_generation := is_generation st + 1\<rparr> else st))"

definition is_ascii_hexdigit :: "char \<Rightarrow> bool" where
  "is_ascii_hexdigit c \<longleftrightarrow> is_ascii_digit c \<or> 65 \<le> byte c \<and> byte c \<le> 70 \<or> 97 \<le> byte c \<and> byte c \<le> 102"

definition short_container_id :: "string \<Rightarrow> string option" where
  "short_container_id candidate =
     (if length candidate = 64 \<and> list_all is_ascii_hexdigit candidate
      then Some (map to_ascii_lower (take 12 candidate)) else None)"

definition rsplit_once_str :: "string \<Rightarrow> string \<Rightarrow> (string \<times> string) option" where
  "rsplit_once_str p s = map_option (\<lambda>(a, b). (rev b, rev a)) (split_once_str (rev p) (rev s))"

definition strip_suffix :: "string \<Rightarrow> string \<Rightarrow> string option" where
  "strip_suffix p s = map_option rev (strip_prefix (rev p) (rev s))"

definition cgroup_line_id :: "string \<Rightarrow> string option" where
  "cgroup_line_id line =
     (case Option.bind (split_once_str '':/docker/'' line) (\<lambda>(_, rest).
             short_container_id (trim_end_matches CHR ''/'' (trim_utf8
               (case split_once_str '':/docker/'' rest of Some (candidate, _) \<Rightarrow> candidate | None \<Rightarrow> rest)))) of
        Some cid \<Rightarrow> Some cid
      | None \<Rightarrow>
          (case Option.bind (strip_suffix ''.scope'' line) (\<lambda>base.
                Option.bind (rsplit_once_str ''docker-'' base) (\<lambda>(_, candidate).
                  short_container_id candidate)) of
             Some cid \<Rightarrow> Some cid
           | None \<Rightarrow> short_container_id (last (split_on CHR ''/'' (last (split_on CHR '':'' line))))))"

definition extract_container_id_from_cgroup :: "string \<Rightarrow> string option" where
  "extract_container_id_from_cgroup content = find_map cgroup_line_id (str_lines content)"

definition lookup_container_by_pid ::
  "string option \<Rightarrow> (string \<Rightarrow> inspect_answer)
     \<Rightarrow> (docker_error, managed_container_identity option) result" where
  "lookup_container_by_pid cgroup inspect =
     res_bind (ok_or No_Cgroup cgroup) (\<lambda>content.
       case extract_container_id_from_cgroup content of
         None \<Rightarrow> Inr None
       | Some cid \<Rightarrow>
           res_bind (inspect_managed_identity (inspect cid)) (\<lambda>found. Inr (map_option fst found)))"

section \<open>events.rs\<close>

record event_actor =
  ea_id :: "string option"
  ea_name :: "string option"

record docker_event =
  dv_action :: "string option"
  dv_actor :: "event_actor option"

definition event_kind :: "string \<Rightarrow> container_event_kind option" where
  "event_kind action =
     map_of [(''die'', Die), (''oom'', Oom), (''kill'', Kill), (''destroy'', Destroy), (''pause'', Pause),
       (''unpause'', Unpause)] action"

definition lifecycle_identity :: "event_actor option \<Rightarrow> (docker_error, string \<times> string) result" where
  "lifecycle_identity actor =
     res_bind (required_text (Option.bind actor ea_id) ''Docker event container ID'') (\<lambda>cid.
     res_bind (container_name (Option.bind actor ea_name)) (\<lambda>name. Inr (cid, name)))"

text \<open>
  One message of the stream: the events sent, the index, and whether the stream is read on. \<open>inspect\<close>
  is Docker's answer should the container have to be inspected.
\<close>

definition watch_message ::
  "(string \<Rightarrow> inspect_answer) \<Rightarrow> docker_event \<Rightarrow> identity_state
     \<Rightarrow> container_event list \<times> identity_state \<times> bool" where
  "watch_message inspect message st =
     (let action = or_default [] (dv_action message)
      in if action = ''start'' \<or> action = ''restart''
         then (case required_text (Option.bind (dv_actor message) ea_id) ''Docker event container ID'' of
                 Inl _ \<Rightarrow> ([], st, False)
               | Inr cid \<Rightarrow>
                   (case record_container (inspect cid) st of
                      (Inl _, st') \<Rightarrow> ([], st', False)
                    | (Inr _, st') \<Rightarrow> ([], st', True)))
         else
           (case event_kind action of
              None \<Rightarrow> ([], st, True)
            | Some kind \<Rightarrow>
                (case lifecycle_identity (dv_actor message) of
                   Inl _ \<Rightarrow> ([], st, False)
                 | Inr (cid, name) \<Rightarrow>
                     ([Lifecycle kind name cid],
                      if kind \<in> {Die, Oom, Kill, Destroy} then identity_remove cid name st else st,
                      True))))"

text \<open>
  The stream until it ends, fails or brings a message that cannot be used; then the index is invalidated
  and the consumers are told to start over.
\<close>

fun watch_stream ::
  "(string \<Rightarrow> inspect_answer) \<Rightarrow> docker_event option list \<Rightarrow> identity_state
     \<Rightarrow> container_event list \<times> identity_state" where
  "watch_stream inspect [] st = ([Stream_Reset], identity_invalidate st)"
| "watch_stream inspect (None # messages) st = ([Stream_Reset], identity_invalidate st)"
| "watch_stream inspect (Some message # messages) st =
     (case watch_message inspect message st of
        (sent, st', True) \<Rightarrow>
          (case watch_stream inspect messages st' of (later, st'') \<Rightarrow> (sent @ later, st''))
      | (sent, st', False) \<Rightarrow> (sent @ [Stream_Reset], identity_invalidate st'))"

text \<open>One round of \<open>watch\<close>: refresh, then the stream.\<close>

definition watch_round ::
  "container_summary list option \<Rightarrow> (string \<Rightarrow> inspect_answer) \<Rightarrow> docker_event option list
     \<Rightarrow> identity_state \<Rightarrow> container_event list \<times> identity_state" where
  "watch_round containers inspect messages st =
     (case identity_refresh containers (identity_invalidate st) of
        (Inl _, st') \<Rightarrow> ([Stream_Reset], st')
      | (Inr _, st') \<Rightarrow> watch_stream inspect messages st')"

section \<open>A snapshot attributes every address to one container\<close>

text \<open>The container is managed, attached to the network its label declares, and has the address there.\<close>

definition owns :: "container_summary \<Rightarrow> managed_container_identity \<Rightarrow> ip_addr \<Rightarrow> bool" where
  "owns c identity address =
     (case managed_network_label (sm_labels c) of
        Inl _ \<Rightarrow> False
      | Inr network \<Rightarrow>
          (case sm_networks c of
             None \<Rightarrow> False
           | Some networks \<Rightarrow>
               (case addresses_from_declared_network network networks of
                  Inl _ \<Rightarrow> False
                | Inr addresses \<Rightarrow> address \<in> set addresses))
          \<and> required_text (sm_id c) ''managed container ID'' = Inr (mc_id identity)
          \<and> container_name (case sm_names c of Some (n # _) \<Rightarrow> Some n | _ \<Rightarrow> None) = Inr (mc_name identity))"

lemma insert_identities:
  assumes "fold_res (insert_unique_identity identity) addresses es = Inr es'"
  shows "map_of es' a = Some j \<longleftrightarrow> map_of es a = Some j \<or> a \<in> set addresses \<and> j = identity"
  using assms
proof (induction addresses arbitrary: es)
  case (Cons x xs)
  from Cons.prems obtain u where u: "insert_unique_identity identity x es = Inr u"
    "fold_res (insert_unique_identity identity) xs u = Inr es'"
    by (auto simp: result_simps)
  from u(1) have "u = AList.update x identity es" "map_of es x = None \<or> map_of es x = Some identity"
    by (auto simp: insert_unique_identity_def split: option.splits if_splits)
  with Cons.IH [OF u(2)] show ?case by (auto simp: update_conv')
qed simp

lemma load_summary_owns:
  assumes "load_summary c es = Inr es'"
  shows "map_of es' a = Some j \<longleftrightarrow> map_of es a = Some j \<or> owns c j a"
proof -
  from assms obtain network networks addresses where
    net: "managed_network_label (sm_labels c) = Inr network" "sm_networks c = Some networks"
      "addresses_from_declared_network network networks = Inr addresses"
    and rest: "addresses = [] \<and> es' = es \<or> (\<exists>cid name.
      required_text (sm_id c) ''managed container ID'' = Inr cid
      \<and> container_name (case sm_names c of Some (n # _) \<Rightarrow> Some n | _ \<Rightarrow> None) = Inr name
      \<and> fold_res (insert_unique_identity \<lparr>mc_id = cid, mc_name = name\<rparr>) addresses es = Inr es')"
    by (auto simp: load_summary_def result_simps split: if_splits)
  from rest show ?thesis
    using insert_identities [of "\<lparr>mc_id = cid, mc_name = name\<rparr>" addresses es es' a j for cid name]
    by (elim disjE) (auto simp: owns_def net)
qed

lemma load_identities_owns:
  assumes "fold_res load_summary cs es = Inr es'"
  shows "map_of es' a = Some j \<longleftrightarrow> map_of es a = Some j \<or> (\<exists>c\<in>set cs. owns c j a)"
  using assms
proof (induction cs arbitrary: es)
  case (Cons c cs)
  from Cons.prems obtain u where "load_summary c es = Inr u" "fold_res load_summary cs u = Inr es'"
    by (auto simp: result_simps)
  with Cons.IH load_summary_owns show ?case by auto
qed simp

text \<open>
  C21: A lookup that asks Docker answers with the name of the container that owns the address in the
  listing Docker gave: the container is managed, and has the address on the network its label declares.
  The answer is unique, for a listing in which two containers own one address is refused; and without an
  owner there is no name.
\<close>

theorem lookup_names_owner:
  assumes "lookup_finish (Some cs) address generation healthy st = (Inr answer, st')"
  shows "(answer = Some name \<longleftrightarrow> (\<exists>c\<in>set cs. \<exists>i. owns c i address \<and> mc_name i = name))
    \<and> (\<forall>c\<in>set cs. \<forall>c'\<in>set cs. \<forall>i i'. owns c i address \<and> owns c' i' address \<longrightarrow> i = i')"
proof -
  from assms obtain fetched where f: "fold_res load_summary cs [] = Inr fetched"
    and answer: "answer = map_option mc_name (map_of fetched address)"
    by (auto simp: lookup_finish_def load_managed_identities_def split: sum.splits)
  have own: "map_of fetched address = Some i \<longleftrightarrow> (\<exists>c\<in>set cs. owns c i address)" for i
    using load_identities_owns [OF f] by simp
  then have "answer = Some name \<longleftrightarrow> (\<exists>i. (\<exists>c\<in>set cs. owns c i address) \<and> mc_name i = name)"
    unfolding answer own [symmetric] by auto
  moreover have "\<forall>c\<in>set cs. \<forall>c'\<in>set cs. \<forall>i i'. owns c i address \<and> owns c' i' address \<longrightarrow> i = i'"
    using own by (metis option.inject)
  ultimately show ?thesis by blast
qed

section \<open>The generation guards the index\<close>

text \<open>The operations that can come between the two steps of a lookup.\<close>

inductive index_step :: "identity_state \<Rightarrow> identity_state \<Rightarrow> bool" where
  step_refresh: "identity_refresh containers st = (r, st') \<Longrightarrow> index_step st st'"
| step_invalidate: "index_step st (identity_invalidate st)"
| step_record: "record_container answer st = (r, st') \<Longrightarrow> index_step st st'"
| step_remove: "index_step st (identity_remove cid name st)"
| step_finish: "lookup_finish containers address generation healthy st = (r, st') \<Longrightarrow> index_step st st'"

text \<open>Sequences of operations, with the number of those that changed the generation.\<close>

inductive index_run :: "nat \<Rightarrow> identity_state \<Rightarrow> identity_state \<Rightarrow> bool" where
  run_none: "index_run 0 st st"
| run_idle: "index_run n st st' \<Longrightarrow> index_step st' st'' \<Longrightarrow> is_generation st'' = is_generation st'
    \<Longrightarrow> index_run n st st''"
| run_change: "index_run n st st' \<Longrightarrow> index_step st' st'' \<Longrightarrow> is_generation st'' \<noteq> is_generation st'
    \<Longrightarrow> index_run (Suc n) st st''"

lemma index_step_generation:
  "index_step st st' \<Longrightarrow> st' = st \<or> is_generation st' = is_generation st + 1"
  by (induction rule: index_step.induct)
     (auto simp: identity_refresh_def identity_invalidate_def record_container_def identity_remove_def
       lookup_finish_def split: sum.splits option.splits prod.splits if_splits)

lemma index_run_generation:
  "index_run n st st' \<Longrightarrow> is_generation st' = is_generation st + of_nat n \<and> (n = 0 \<longrightarrow> st' = st)"
proof (induction rule: index_run.induct)
  case (run_idle n st st' st'')
  from index_step_generation [OF run_idle(2)] run_idle(3,4) show ?case by auto
next
  case (run_change n st st' st'')
  from index_step_generation [OF run_change(2)] run_change(3,4) show ?case by (auto simp: algebra_simps)
qed simp

text \<open>
  A listing fetched by a lookup is installed exactly when nothing changed in between: after any
  sequence of operations of other tasks, of which fewer than 2 to the 64 changed the index (the generation
  is a 64-bit counter that wraps), finishing the lookup replaces the index when no change was made and the
  index was healthy, and leaves it as it is otherwise.
\<close>

lemma stale_listing_not_installed:
  assumes "lookup_begin ip st = Inr (Ask address generation healthy)"
    and "index_run n st st'" and "n < 2 ^ 64"
    and "load_managed_identities containers = Inr fetched"
  shows "snd (lookup_finish containers address generation healthy st') =
    (if n = 0 \<and> is_healthy st
     then st\<lparr>is_entries := fetched, is_generation := is_generation st + 1\<rparr> else st')"
proof -
  from assms(1) have g: "generation = is_generation st" "healthy = is_healthy st"
    by (auto simp: lookup_begin_def result_simps split: option.splits if_splits)
  have "is_generation st' = generation \<longleftrightarrow> n = 0"
    using index_run_generation [OF assms(2)] assms(3) g
    by (auto simp: word_of_nat_eq_0_iff dest: nat_dvd_not_less)
  then show ?thesis
    using index_run_generation [OF assms(2)] g assms(4) by (auto simp: lookup_finish_def)
qed

definition example_summary :: container_summary where
  "example_summary =
     \<lparr>sm_id = Some ''c1'', sm_names = Some [''/worker''],
      sm_labels = Some [(''managed-by'', ''outcalld''), (''outcall.network'', ''outcall-default'')],
      sm_networks = Some [(''outcall-default'', \<lparr>ep_ip_address = Some ''10.0.0.2'', ep_global_ipv6_address = None\<rparr>)]\<rparr>"

lemma example_address: "parse_ip ''10.0.0.2'' = Some (V4 167772162)"
  by (simp add: parse_ip_def parse_ipv4_def parse_octet_def is_ascii_digit_def digits_value_def
      digit_value_def ipv4_new_def)

lemma example_names:
  "managed_network_label (sm_labels example_summary) = Inr ''outcall-default''"
  "container_name (Some ''/worker'') = Inr ''worker''"
  "required_text (Some ''c1'') ''managed container ID'' = Inr ''c1''"
  by code_simp+

lemma example_summary_loaded:
  "load_managed_identities (Some [example_summary]) =
     Inr [(V4 167772162, \<lparr>mc_id = ''c1'', mc_name = ''worker''\<rparr>)]"
  using example_names
  by (simp add: load_managed_identities_def load_summary_def addresses_from_declared_network_def
      insert_unique_identity_def example_summary_def example_address)

theorem lookup_names_owner_witness:
  "\<exists>c\<in>set [example_summary]. \<exists>i. owns c i (V4 167772162) \<and> mc_name i = ''worker''"
proof -
  have "lookup_finish (Some [example_summary]) (V4 167772162) 0 False identity_new
      = (Inr (Some ''worker''), identity_new)"
    by (simp add: lookup_finish_def example_summary_loaded)
  from lookup_names_owner [OF this, of "''worker''"] show ?thesis by simp
qed

text \<open>
  A refresh has no such guard: a listing made before a container was removed puts the container back into
  an index that is healthy again.
\<close>

lemma refresh_installs_stale_listing:
  "case identity_refresh (Some [example_summary]) (identity_remove ''c1'' ''worker'' (identity_invalidate st)) of
     (r, st') \<Rightarrow> r = Inr () \<and> is_healthy st'
       \<and> map_of (is_entries st') (V4 167772162) = Some \<lparr>mc_id = ''c1'', mc_name = ''worker''\<rparr>"
  by (simp add: identity_refresh_def example_summary_loaded)

section \<open>The watcher\<close>

text \<open>A container whose death was seen is not in the index.\<close>

lemma identity_remove_gone:
  assumes "map_of (is_entries (identity_remove cid name st)) a = Some i"
  shows "mc_id i \<noteq> cid \<and> mc_name i \<noteq> name"
  using map_of_SomeD [OF assms] by (auto simp: identity_remove_def retain_others_def)

lemma watch_stream_reset:
  "\<exists>sent st'. watch_stream inspect messages st = (sent @ [Stream_Reset], st')
     \<and> is_entries st' = [] \<and> \<not> is_healthy st'"
proof (induction inspect messages st rule: watch_stream.induct)
  case (3 inspect message messages st)
  obtain sent st' go where m: "watch_message inspect message st = (sent, st', go)"
    by (metis prod_cases3)
  show ?case
  proof (cases go)
    case True
    from 3 [OF m [symmetric] refl] True obtain later st'' where "watch_stream inspect messages st' = (later @ [Stream_Reset], st'')"
      "is_entries st'' = []" "\<not> is_healthy st''" by auto
    with m True show ?thesis by auto
  qed (use m in \<open>auto simp: identity_invalidate_def\<close>)
qed (auto simp: identity_invalidate_def)

text \<open>
  C22: However the event stream behaves, when it breaks no identity derived from it survives: the index is
  empty and answers no lookup by itself, the last event sent is the reset, and once the session cleanup has
  taken the events in, no session and no rate window is left.
\<close>

theorem broken_stream_forgets:
  "case watch_stream inspect messages st of (sent, st') \<Rightarrow>
     is_entries st' = [] \<and> \<not> is_healthy st' \<and> last sent = Stream_Reset
     \<and> (let agent' = fold (\<lambda>e. cleanup_step (Received e)) sent agent
        in as_sessions agent' = registry_clear (as_sessions agent')
           \<and> as_permission_rates agent' = [] \<and> as_rule_rates agent' = [])"
proof -
  obtain sent st' where w: "watch_stream inspect messages st = (sent @ [Stream_Reset], st')"
    "is_entries st' = []" "\<not> is_healthy st'"
    using watch_stream_reset by blast
  then show ?thesis by (simp add: Let_def cleanup_step_def clear_derived_state_def registry_clear_def)
qed

end
