(* ===== verification/Timestamp.thy ===== *)
theory Timestamp
  imports Outcall_Prelude
begin

text \<open>
  Timestamps (outcalld/src/timestamp.rs): the date of a day counted from 1 January 1970 and its text. The
  arithmetic is on unsigned 64-bit integers; on the days of any 64-bit number of seconds no operation
  overflows, and the subtractions do not go below zero.
\<close>

section \<open>timestamp.rs\<close>

definition days_to_ymd :: "nat \<Rightarrow> nat \<times> nat \<times> nat" where
  "days_to_ymd days =
     (let z = days + 719468;
          era = z div 146097;
          day_of_era = z mod 146097;
          year_of_era = (day_of_era - day_of_era div 1460 + day_of_era div 36524
            - day_of_era div 146096) div 365;
          year = year_of_era + era * 400;
          day_of_year = day_of_era - (365 * year_of_era + year_of_era div 4 - year_of_era div 100);
          month_position = (5 * day_of_year + 2) div 153;
          day = day_of_year - (153 * month_position + 2) div 5 + 1;
          month = (if month_position < 10 then month_position + 3 else month_position - 9);
          year = (if month \<le> 2 then year + 1 else year)
      in (year, month, day))"

definition pad :: "nat \<Rightarrow> nat \<Rightarrow> string" where
  "pad width n = replicate (width - length (show_nat n)) CHR ''0'' @ show_nat n"

datatype timestamp_error = Before_Epoch | Clock_Too_Large

definition format_unix_timestamp :: "int \<Rightarrow> (timestamp_error, string) result" where
  "format_unix_timestamp seconds =
     (if seconds < 0 then Inl Before_Epoch
      else
        let s = nat seconds;
            time_of_day = s mod 86400;
            (year, month, day) = days_to_ymd (s div 86400)
        in Inr (pad 4 year @ ''-'' @ pad 2 month @ ''-'' @ pad 2 day @ ''T''
             @ pad 2 (time_of_day div 3600) @ '':'' @ pad 2 (time_of_day mod 3600 div 60) @ '':''
             @ pad 2 (time_of_day mod 60) @ ''Z''))"

text \<open>The clock reads seconds since the epoch; \<open>None\<close> when it stands before.\<close>

definition now_iso8601 :: "nat option \<Rightarrow> (timestamp_error, string) result" where
  "now_iso8601 clock =
     (case clock of
        None \<Rightarrow> Inl Before_Epoch
      | Some seconds \<Rightarrow>
          if 2 ^ 63 \<le> seconds then Inl Clock_Too_Large else format_unix_timestamp (int seconds))"

section \<open>The Gregorian calendar\<close>

definition is_leap_year :: "nat \<Rightarrow> bool" where
  "is_leap_year y \<longleftrightarrow> 4 dvd y \<and> (\<not> 100 dvd y \<or> 400 dvd y)"

definition days_in_month :: "nat \<Rightarrow> nat \<Rightarrow> nat" where
  "days_in_month y m = (if m = 2 then (if is_leap_year y then 29 else 28)
     else if m \<in> {4, 6, 9, 11} then 30 else 31)"

text \<open>The day after a date.\<close>

definition next_day :: "nat \<times> nat \<times> nat \<Rightarrow> nat \<times> nat \<times> nat" where
  "next_day = (\<lambda>(y, m, d).
     if d < days_in_month y m then (y, m, d + 1)
     else if m < 12 then (y, m + 1, 1)
     else (y + 1, 1, 1))"

text \<open>
  The computation counts years from 1 March in eras of 400 years: \<open>year_start y\<close> days lie before the
  year \<open>y\<close> of an era, and the year has \<open>year_length y\<close> days, the leap day being its last.
\<close>

definition year_start :: "nat \<Rightarrow> nat" where
  "year_start y = 365 * y + y div 4 - y div 100"

definition year_length :: "nat \<Rightarrow> nat" where
  "year_length y = (if is_leap_year (y + 1) then 366 else 365)"

definition year_of_era :: "nat \<Rightarrow> nat" where
  "year_of_era e = (e - e div 1460 + e div 36524 - e div 146096) div 365"

text \<open>The date of day \<open>k\<close> of year \<open>y\<close> of an era.\<close>

definition march_date :: "nat \<Rightarrow> nat \<Rightarrow> nat \<Rightarrow> nat \<times> nat \<times> nat" where
  "march_date era y k =
     (let month_position = (5 * k + 2) div 153;
          month = (if month_position < 10 then month_position + 3 else month_position - 9)
      in (if month \<le> 2 then y + era * 400 + 1 else y + era * 400, month,
          k - (153 * month_position + 2) div 5 + 1))"

lemma days_to_ymd_march:
  "days_to_ymd days = (let e = (days + 719468) mod 146097; y = year_of_era e
     in march_date ((days + 719468) div 146097) y (e - year_start y))"
  unfolding days_to_ymd_def march_date_def year_of_era_def year_start_def Let_def by (rule refl)

text \<open>Centuries, four-year cycles and years within them.\<close>

lemma year_parts:
  fixes y :: nat
  assumes "y < 400"
  obtains a c d where "y = 100 * a + 4 * c + d" "a < 4" "c < 25" "d < 4"
    "year_start y = 36524 * a + 1461 * c + 365 * d"
    "year_length y = (if d = 3 \<and> (c \<noteq> 24 \<or> a = 3) then 366 else 365)"
proof -
  define a r where "a = y div 100" and "r = y mod 100"
  define c d where "c = r div 4" and "d = r mod 4"
  have y: "y = 100 * a + 4 * c + d" "a < 4" "c < 25" "d < 4"
    using assms by (simp_all add: a_def r_def c_def d_def less_mult_imp_div_less)
  have "y div 4 = 25 * a + c" using y by (intro div_nat_eqI) simp_all
  moreover have "y div 100 = a" using y by (intro div_nat_eqI) simp_all
  ultimately have start: "year_start y = 36524 * a + 1461 * c + 365 * d"
    unfolding year_start_def using y by linarith
  have "y + 1 = 4 * (25 * a + c) + (d + 1)" using y by simp
  then have four: "4 dvd y + 1 \<longleftrightarrow> 4 dvd d + 1" by (metis dvd_add_right_iff dvd_triv_left)
  have "4 dvd d + 1 \<longleftrightarrow> d = 3" using y(4) nat_dvd_not_less [of "d + 1" 4] by fastforce
  note four = four [unfolded this]
  have "y + 1 = 100 * a + (4 * c + d + 1)" using y by simp
  then have "100 dvd y + 1 \<longleftrightarrow> 100 dvd 4 * c + d + 1" by (metis dvd_add_right_iff dvd_triv_left)
  also have "\<dots> \<longleftrightarrow> 4 * c + d + 1 = 100"
    using y nat_dvd_not_less [of "4 * c + d + 1" 100] by fastforce
  finally have hundred: "100 dvd y + 1 \<longleftrightarrow> c = 24 \<and> d = 3" using y by linarith
  have "400 dvd y + 1 \<longleftrightarrow> y = 399"
    using assms nat_dvd_not_less [of "y + 1" 400] by fastforce
  then have "400 dvd y + 1 \<longleftrightarrow> a = 3 \<and> c = 24 \<and> d = 3" using y by linarith
  with four hundred have "year_length y = (if d = 3 \<and> (c \<noteq> 24 \<or> a = 3) then 366 else 365)"
    unfolding year_length_def is_leap_year_def by auto
  with y start that show thesis by blast
qed

lemma year_of_era_inverse:
  assumes "y < 400" and "k < year_length y"
  shows "year_of_era (year_start y + k) = y"
proof -
  obtain a c d where p: "y = 100 * a + 4 * c + d" "a < 4" "c < 25" "d < 4"
    "year_start y = 36524 * a + 1461 * c + 365 * d"
    "year_length y = (if d = 3 \<and> (c \<noteq> 24 \<or> a = 3) then 366 else 365)"
    using year_parts [OF assms(1)] by blast
  define e where "e = year_start y + k"
  define r where "r = 24 * a + 365 * d + c + k"
  have e: "e = 1460 * (25 * a + c) + r" unfolding e_def p(5) r_def by simp
  have e1: "e div 1460 = 25 * a + c + r div 1460" unfolding e by simp
  have k: "k < 366" "k = 365 \<Longrightarrow> d = 3" using assms(2) p(6) by (auto split: if_splits)
  have r: "r div 1460 \<le> k" "k - r div 1460 < 365"
  proof -
    show "r div 1460 \<le> k"
    proof (cases "r < 1460")
      case False
      then have "1 \<le> k" using p(2-4) unfolding r_def by linarith
      moreover have "r div 1460 < 2" using p(2-4) k(1) unfolding r_def by (intro less_mult_imp_div_less) linarith
      ultimately show ?thesis by linarith
    qed simp
    have "1 \<le> r div 1460" if "k = 365"
      using that k(2) unfolding r_def by (simp add: le_div_geq)
    then show "k - r div 1460 < 365" using k(1) by (cases "k = 365") auto
  qed
  show ?thesis
  proof (cases "e = 146096")
    case True
    then have "y = 399" using p k unfolding e_def by (cases "a = 3"; cases "c = 24"; cases "d = 3") linarith+
    with True show ?thesis unfolding e_def [symmetric] year_of_era_def by simp
  next
    case False
    have le: "e < 36524 * (a + 1) \<or> e = 146096"
    proof (cases "d = 3 \<and> c = 24")
      case True
      then have "e = 36524 * a + 36159 + k" unfolding e_def p(5) by simp
      moreover have "k = 365 \<Longrightarrow> a = 3" using assms(2) p(6) True by (auto split: if_splits)
      ultimately show ?thesis using k(1) p(2) by (cases "k = 365") auto
    next
      case False
      then have "1461 * c + 365 * d + k < 36524" using p(3,4) k by (cases "d = 3"; cases "c = 24") auto
      then show ?thesis unfolding e_def p(5) by simp
    qed
    have "e div 36524 = a" using le False p(5) unfolding e_def by (intro div_nat_eqI) simp_all
    moreover have "e div 146096 = 0" using le False p(2) by simp
    ultimately have "year_of_era e = (365 * y + (k - r div 1460)) div 365"
      unfolding year_of_era_def e1 using e p(1) r(1) r_def by simp
    also have "\<dots> = y" using r(2) by simp
    finally show ?thesis unfolding e_def .
  qed
qed

text \<open>The months, counted from March, by the day of the year.\<close>

lemma month_position:
  fixes k :: nat
  assumes "k < 366"
  shows "(5 * k + 2) div 153 = (if k < 31 then 0 else if k < 61 then 1 else if k < 92 then 2
    else if k < 122 then 3 else if k < 153 then 4 else if k < 184 then 5 else if k < 214 then 6
    else if k < 245 then 7 else if k < 275 then 8 else if k < 306 then 9 else if k < 337 then 10 else 11)"
  using assms by (intro div_nat_eqI) (simp_all split: if_split)

lemma march_date_table:
  assumes "k < 366" and "Y = y + era * 400"
  shows "march_date era y k = (if k < 31 then (Y, 3, k + 1) else if k < 61 then (Y, 4, k - 30)
    else if k < 92 then (Y, 5, k - 60) else if k < 122 then (Y, 6, k - 91)
    else if k < 153 then (Y, 7, k - 121) else if k < 184 then (Y, 8, k - 152)
    else if k < 214 then (Y, 9, k - 183) else if k < 245 then (Y, 10, k - 213)
    else if k < 275 then (Y, 11, k - 244) else if k < 306 then (Y, 12, k - 274)
    else if k < 337 then (Y + 1, 1, k - 305) else (Y + 1, 2, k - 336))"
  unfolding march_date_def Let_def month_position [OF assms(1)] assms(2) by auto

lemma leap_year_era: "is_leap_year (y + era * 400 + 1) \<longleftrightarrow> is_leap_year (y + 1)"
proof -
  have "d dvd y + era * 400 + 1 \<longleftrightarrow> d dvd y + 1" if "d dvd 400" for d :: nat
  proof -
    have "d dvd era * 400" using that by (rule dvd_mult)
    then show ?thesis by (metis add.assoc add.commute dvd_add_right_iff)
  qed
  then show ?thesis by (simp add: is_leap_year_def)
qed

lemma march_date_step:
  assumes "k + 1 < year_length y"
  shows "march_date era y (k + 1) = next_day (march_date era y k)"
proof -
  have k: "k < 365" "k = 364 \<Longrightarrow> is_leap_year (y + era * 400 + 1)"
    using assms unfolding leap_year_era by (auto simp: year_length_def split: if_splits)
  have "k < 366" "k + 1 < 366" using k(1) by simp_all
  note t = march_date_table [OF this(1) refl] march_date_table [OF this(2) refl]
  show ?thesis
    unfolding t next_day_def days_in_month_def using k
    by (cases k "30 :: nat" rule: linorder_cases, force, force,
      cases k "60 :: nat" rule: linorder_cases, force, force,
      cases k "91 :: nat" rule: linorder_cases, force, force,
      cases k "121 :: nat" rule: linorder_cases, force, force,
      cases k "152 :: nat" rule: linorder_cases, force, force,
      cases k "183 :: nat" rule: linorder_cases, force, force,
      cases k "213 :: nat" rule: linorder_cases, force, force,
      cases k "244 :: nat" rule: linorder_cases, force, force,
      cases k "274 :: nat" rule: linorder_cases, force, force,
      cases k "305 :: nat" rule: linorder_cases, force, force,
      cases k "336 :: nat" rule: linorder_cases, force, force, force)
qed

lemma march_date_last:
  assumes "k + 1 = year_length y"
  shows "next_day (march_date era y k) = (y + era * 400 + 1, 3, 1)"
proof -
  have k: "k < 366" "k = (if is_leap_year (y + era * 400 + 1) then 365 else 364)"
    using assms unfolding leap_year_era by (auto simp: year_length_def split: if_splits)
  show ?thesis
    unfolding march_date_table [OF k(1) refl] next_day_def days_in_month_def using k(2)
    by (auto split: if_split)
qed

lemma march_date_first: "march_date era y 0 = (y + era * 400, 3, 1)"
  by (simp add: march_date_def)

text \<open>Every day lies in a year of an era.\<close>

lemma year_start_next:
  assumes "y < 400"
  shows "year_start y + year_length y = (if y = 399 then 146097 else year_start (y + 1))"
proof (cases "y = 399")
  case True
  then show ?thesis by (simp add: year_start_def year_length_def is_leap_year_def)
next
  case False
  then have "y + 1 < 400" using assms by simp
  obtain a c d where p: "y = 100 * a + 4 * c + d" "a < 4" "c < 25" "d < 4"
    "year_start y = 36524 * a + 1461 * c + 365 * d"
    "year_length y = (if d = 3 \<and> (c \<noteq> 24 \<or> a = 3) then 366 else 365)"
    using year_parts [OF assms(1)] by blast
  have "(y + 1) div 4 = 25 * a + c + (if d = 3 then 1 else 0)"
    using p(1-4) by (intro div_nat_eqI) auto
  moreover have "(y + 1) div 100 = a + (if d = 3 \<and> c = 24 then 1 else 0)"
    using p(1-4) by (intro div_nat_eqI) auto
  ultimately have "year_start (y + 1) = 365 * (y + 1) + (25 * a + c + (if d = 3 then 1 else 0))
      - (a + (if d = 3 \<and> c = 24 then 1 else 0))"
    by (simp add: year_start_def)
  moreover have "\<not> (d = 3 \<and> c = 24 \<and> a = 3)" using False p(1) by auto
  ultimately show ?thesis using False p by auto
qed

lemma day_split: "\<exists>era y k. z = 146097 * era + year_start y + k \<and> y < 400 \<and> k < year_length y"
proof (induction z)
  case 0
  show ?case by (intro exI [of _ 0]) (simp add: year_start_def year_length_def)
next
  case (Suc z)
  then obtain era y k where z: "z = 146097 * era + year_start y + k" "y < 400" "k < year_length y" by blast
  have pos: "0 < year_length n" for n by (simp add: year_length_def)
  show ?case
  proof (cases "k + 1 < year_length y")
    case True
    then show ?thesis using z by (intro exI [of _ era] exI [of _ y] exI [of _ "k + 1"]) simp
  next
    case False
    then have l: "k + 1 = year_length y" using z(3) by simp
    show ?thesis
    proof (cases "y = 399")
      case True
      then have "Suc z = 146097 * (era + 1) + year_start 0 + 0"
        using z(1) l year_start_next [OF z(2)] by (simp add: year_start_def)
      then show ?thesis using pos by (metis zero_less_numeral)
    next
      case False
      then have "Suc z = 146097 * era + year_start (y + 1) + 0" "y + 1 < 400"
        using z(1,2) l year_start_next [OF z(2)] by simp_all
      then show ?thesis using pos by blast
    qed
  qed
qed

lemma days_to_ymd_split:
  assumes "days + 719468 = 146097 * era + year_start y + k" and "y < 400" and "k < year_length y"
  shows "days_to_ymd days = march_date era y k"
proof -
  have mono: "year_start y + year_length y \<le> 146097"
  proof -
    obtain a c d where "y = 100 * a + 4 * c + d" "a < 4" "c < 25" "d < 4"
      "year_start y = 36524 * a + 1461 * c + 365 * d"
      "year_length y = (if d = 3 \<and> (c \<noteq> 24 \<or> a = 3) then 366 else 365)"
      using year_parts [OF assms(2)] by blast
    then show ?thesis by auto
  qed
  then have "year_start y + k < 146097" using assms(3) by simp
  then have "(days + 719468) div 146097 = era" "(days + 719468) mod 146097 = year_start y + k"
    unfolding assms(1) add.assoc by simp_all
  then show ?thesis
    unfolding days_to_ymd_march Let_def using year_of_era_inverse [OF assms(2,3)] by simp
qed

section \<open>Properties\<close>

text \<open>
  C35: Timestamps follow the Gregorian calendar. Day 0 is 1 January 1970, and the date of each further day
  is the day after in the calendar with its month lengths and leap years: the date computed for day \<open>n\<close>
  is the \<open>n\<close>-th successor of 1 January 1970.
\<close>

theorem dates_follow_calendar: "days_to_ymd n = (next_day ^^ n) (1970, 1, 1)"
proof (induction n)
  case 0
  have "days_to_ymd 0 = march_date 4 369 306"
    by (rule days_to_ymd_split) (simp_all add: year_start_def year_length_def is_leap_year_def)
  then show ?case by (simp add: march_date_def)
next
  case (Suc n)
  obtain era y k where z: "n + 719468 = 146097 * era + year_start y + k" "y < 400" "k < year_length y"
    using day_split [of "n + 719468"] by blast
  have "days_to_ymd (Suc n) = next_day (march_date era y k)"
  proof (cases "k + 1 < year_length y")
    case True
    then show ?thesis
      using days_to_ymd_split [of "Suc n" era y "k + 1"] z march_date_step [OF True] by simp
  next
    case False
    then have l: "k + 1 = year_length y" using z(3) by simp
    have pos: "0 < year_length m" for m by (simp add: year_length_def)
    show ?thesis
      using days_to_ymd_split [of "Suc n" era "y + 1" 0] days_to_ymd_split [of "Suc n" "era + 1" 0 0]
        z(1,2) l year_start_next [OF z(2)] march_date_last [OF l] pos march_date_first
      by (cases "y = 399") (simp_all add: year_start_def [of 0])
  qed
  with Suc days_to_ymd_split [OF z] show ?case by simp
qed

end
