(* ===== verification/Docker_Containers.thy ===== *)
theory Docker_Containers
  imports Docker_Identity Timestamp
begin

text \<open>
  The containers of the Docker manager (outcalld/src/docker/mod.rs, create.rs, containers.rs, image.rs):
  creation with its checks, its confinement and its roll back, stop, removal, listing and inspection.
  Docker's answers are arguments; every call that changes something at Docker is an entry of the call list
  of the result, in the order the calls are made.
\<close>

section \<open>The manager (mod.rs)\<close>

record docker_manager =
  dm_available :: bool
  dm_agent_socket :: string
  dm_shim :: string
  dm_bridge :: string
  dm_denied :: "string list"

text \<open>Paths are compared by their components.\<close>

definition docker_manager_new :: "bool \<Rightarrow> string \<Rightarrow> string \<Rightarrow> string \<Rightarrow> string \<Rightarrow> docker_manager" where
  "docker_manager_new responsive agent_socket shim bridge host_socket =
     \<lparr>dm_available = responsive, dm_agent_socket = agent_socket, dm_shim = shim, dm_bridge = bridge,
      dm_denied = HOST_SOCKET_DENY_PATHS
        @ (if components host_socket \<in> components ` set HOST_SOCKET_DENY_PATHS then [] else [host_socket])\<rparr>"

definition DEFAULT_BRIDGE_NAME :: string where
  "DEFAULT_BRIDGE_NAME = ''outcall0''"

definition new_unavailable :: docker_manager where
  "new_unavailable =
     \<lparr>dm_available = False, dm_agent_socket = [], dm_shim = [], dm_bridge = DEFAULT_BRIDGE_NAME,
      dm_denied = HOST_SOCKET_DENY_PATHS\<rparr>"

definition docker_client :: "docker_manager \<Rightarrow> (docker_error, unit) result" where
  "docker_client mgr = ensure (dm_available mgr) Docker_Unavailable"

section \<open>What Docker is asked to do\<close>

record container_config =
  cc_image :: string
  cc_user :: string
  cc_entrypoint :: "string list option"
  cc_cmd :: "string list option"
  cc_env :: "string list"
  cc_working_dir :: "string option"
  cc_attach_stdin :: bool
  cc_open_stdin :: bool
  cc_tty :: bool
  cc_labels :: "(string \<times> string) list"
  cc_endpoints :: "string list"
  cc_host_config :: host_config

datatype docker_call =
    Create_Container string container_config
  | Start_Container string
  | Stop_Container string int
  | Remove_Container string bool

datatype path_type = Path_File | Path_Dir | Path_Symlink | Path_Socket

record path_metadata =
  pm_type :: path_type
  pm_mode :: u32

record network_details =
  nd_driver :: "string option"
  nd_options :: "(string \<times> string) list option"

text \<open>The answers of the environment during a creation.\<close>

record create_env =
  ce_canonicalize :: "string \<Rightarrow> string list option"
  ce_metadata :: "string \<Rightarrow> path_metadata option"
  ce_inspect_network :: "string \<Rightarrow> network_details option"
  ce_random :: "8 word list option"
  ce_clock :: "nat option"
  ce_created :: "string option"
  ce_started :: bool
  ce_inspect :: "string \<Rightarrow> inspect_answer"
  ce_removed :: bool

section \<open>create.rs\<close>

definition MANAGED_BY_LABEL :: string where "MANAGED_BY_LABEL = ''managed-by''"

definition MANAGED_BY_VALUE :: string where "MANAGED_BY_VALUE = ''outcalld''"

definition NETWORK_LABEL :: string where "NETWORK_LABEL = ''outcall.network''"

definition CREATED_AT_LABEL :: string where "CREATED_AT_LABEL = ''outcall.created-at''"

definition managed_container_user :: "string option \<Rightarrow> string" where
  "managed_container_user requested = or_default DEFAULT_CONTAINER_USER requested"

definition helper_mounts_requested :: "container_create_request \<Rightarrow> bool" where
  "helper_mounts_requested request = or_default False (cq_helper_mounts request)"

text \<open>73 is the octal 111, the execute bits.\<close>

definition validate_helper_sources ::
  "(string \<Rightarrow> path_metadata option) \<Rightarrow> string \<Rightarrow> string \<Rightarrow> (docker_error, unit) result" where
  "validate_helper_sources metadata agent_socket shim =
     res_bind (ok_or Helper_Sources (metadata agent_socket)) (\<lambda>socket.
     if pm_type socket \<noteq> Path_Socket then Inl Helper_Sources
     else
       res_bind (ok_or Helper_Sources (metadata shim)) (\<lambda>s.
       if pm_type s \<noteq> Path_File then Inl Helper_Sources
       else if pm_mode s AND 73 = 0 then Inl Helper_Sources
       else Inr ()))"

abbreviation lift_request :: "(container_error, 'a) result \<Rightarrow> (docker_error, 'a) result" where
  "lift_request \<equiv> map_err Invalid_Request_Of"

definition check_network ::
  "docker_manager \<Rightarrow> (string \<Rightarrow> network_details option) \<Rightarrow> string \<Rightarrow> (docker_error, unit) result" where
  "check_network mgr inspect_network network_name =
     res_bind (docker_client mgr) (\<lambda>_.
     res_bind (ok_or Docker_Operation (inspect_network network_name)) (\<lambda>network.
       lift_request (validate_managed_network network_name (nd_driver network)
         (Option.bind (nd_options network) (\<lambda>opts. map_of opts ''com.docker.network.bridge.name''))
         (dm_bridge mgr))))"

definition helper_binds :: "docker_manager \<Rightarrow> string list" where
  "helper_binds mgr =
     [dm_agent_socket mgr @ '':'' @ AGENT_SOCKET_CONTAINER_PATH @ '':ro'',
      dm_shim mgr @ '':'' @ SHIM_CONTAINER_PATH @ '':ro'']"

definition container_binds ::
  "docker_manager \<Rightarrow> create_env \<Rightarrow> container_create_request \<Rightarrow> (docker_error, string list) result" where
  "container_binds mgr env request =
     res_bind
       (if helper_mounts_requested request
        then res_bind (validate_helper_sources (ce_metadata env) (dm_agent_socket mgr) (dm_shim mgr))
               (\<lambda>_. Inr (helper_binds mgr))
        else Inr [])
       (\<lambda>binds.
          case cq_volumes request of
            None \<Rightarrow> Inr binds
          | Some user_volumes \<Rightarrow>
              res_bind (lift_request (validate_bind_mounts (ce_canonicalize env) user_volumes (dm_denied mgr)))
                (\<lambda>_. Inr (binds @ user_volumes)))"

definition container_config_of ::
  "container_create_request \<Rightarrow> string option \<Rightarrow> string \<Rightarrow> string \<Rightarrow> string list \<Rightarrow> string \<Rightarrow> container_config"
  where
  "container_config_of request proxy_addr dns_addr network_name binds created_at =
     \<lparr>cc_image = cq_image request, cc_user = managed_container_user (cq_user request),
      cc_entrypoint = cq_entrypoint request, cc_cmd = cq_cmd request,
      cc_env = container_environment proxy_addr (cq_env request),
      cc_working_dir = cq_working_dir request,
      cc_attach_stdin = or_default False (cq_interactive request),
      cc_open_stdin = or_default False (cq_interactive request),
      cc_tty = or_default False (cq_tty request),
      cc_labels = [(MANAGED_BY_LABEL, MANAGED_BY_VALUE), (NETWORK_LABEL, network_name),
        (CREATED_AT_LABEL, created_at)],
      cc_endpoints = [network_name],
      cc_host_config = managed_host_config binds
        (or_default DEFAULT_MEMORY_LIMIT (cq_memory_limit request))
        (or_default DEFAULT_CPU_SHARES (cq_cpu_shares request)) dns_addr network_name\<rparr>"

text \<open>Everything before Docker is asked to create the container: its name and configuration.\<close>

definition prepare_container ::
  "docker_manager \<Rightarrow> create_env \<Rightarrow> container_create_request \<Rightarrow> string option \<Rightarrow> string
     \<Rightarrow> (docker_error, string \<times> container_config) result" where
  "prepare_container mgr env request proxy_addr dns_addr =
     res_bind (lift_request (validate_create_request request)) (\<lambda>_.
     res_bind (docker_client mgr) (\<lambda>_.
     let network_name = or_default ''outcall-default'' (cq_network request)
     in
       res_bind (check_network mgr (ce_inspect_network env) network_name) (\<lambda>_.
       res_bind (case cq_name request of
                   Some name \<Rightarrow> Inr name
                 | None \<Rightarrow> res_bind (ok_or No_Random (random_hex_suffix (ce_random env)))
                     (\<lambda>random_part. Inr (CONTAINER_PREFIX @ random_part))) (\<lambda>name.
       res_bind (container_binds mgr env request) (\<lambda>binds.
       res_bind (case now_iso8601 (ce_clock env) of Inl _ \<Rightarrow> Inl No_Clock | Inr t \<Rightarrow> Inr t) (\<lambda>created_at.
         Inr (name, container_config_of request proxy_addr dns_addr network_name binds created_at)))))))"

record container_create_result =
  cx_id :: string
  cx_name :: string

text \<open>\<open>rollback_error\<close>: the error says whether the removal failed too.\<close>

definition rollback_error ::
  "(bool \<Rightarrow> docker_error) \<Rightarrow> create_env \<Rightarrow> string \<Rightarrow> (docker_error, 'a) result \<times> docker_call list" where
  "rollback_error mk env cid = (Inl (mk (\<not> ce_removed env)), [Remove_Container cid True])"

definition create_container ::
  "docker_manager \<Rightarrow> create_env \<Rightarrow> container_create_request \<Rightarrow> string option \<Rightarrow> string \<Rightarrow> identity_state
     \<Rightarrow> (docker_error, container_create_result) result \<times> docker_call list \<times> identity_state" where
  "create_container mgr env request proxy_addr dns_addr st =
     (case prepare_container mgr env request proxy_addr dns_addr of
        Inl e \<Rightarrow> (Inl e, [], st)
      | Inr (name, config) \<Rightarrow>
          (case res_bind (ok_or Docker_Operation (ce_created env))
                  (\<lambda>created. required_text (Some created) ''created container ID'') of
             Inl e \<Rightarrow> (Inl e, [Create_Container name config], st)
           | Inr cid \<Rightarrow>
               if \<not> ce_started env
               then (case rollback_error Start_Failed env cid of
                       (r, calls) \<Rightarrow> (r, [Create_Container name config, Start_Container cid] @ calls, st))
               else
                 (case record_container (ce_inspect env cid) st of
                    (Inl _, st') \<Rightarrow>
                      (case rollback_error Register_Failed env cid of
                         (r, calls) \<Rightarrow>
                           (r, [Create_Container name config, Start_Container cid] @ calls, st'))
                  | (Inr _, st') \<Rightarrow>
                      (Inr \<lparr>cx_id = cid, cx_name = name\<rparr>,
                       [Create_Container name config, Start_Container cid], st'))))"

section \<open>containers.rs\<close>

definition DEFAULT_STOP_TIMEOUT_SECS :: int where "DEFAULT_STOP_TIMEOUT_SECS = 10"

definition inspect_managed_container ::
  "inspect_answer \<Rightarrow> (docker_error, container_details option) result" where
  "inspect_managed_container answer =
     (case answer of
        Inspect_Missing \<Rightarrow> Inr None
      | Inspect_Failed \<Rightarrow> Inl Docker_Operation
      | Inspected details \<Rightarrow>
          if \<not> has_managed_label (de_labels details) then Inl Not_Managed
          else res_bind (managed_network_label (de_labels details)) (\<lambda>_. Inr (Some details)))"

text \<open>\<open>stopped\<close> and \<open>removed\<close> are Docker's answers; the result is the name and whether anything was done.\<close>

definition stop_container ::
  "docker_manager \<Rightarrow> (string \<Rightarrow> inspect_answer) \<Rightarrow> bool \<Rightarrow> string \<Rightarrow> int option \<Rightarrow> identity_state
     \<Rightarrow> (docker_error, string \<times> bool) result \<times> docker_call list \<times> identity_state" where
  "stop_container mgr inspect stopped name timeout st =
     (case res_bind (docker_client mgr) (\<lambda>_.
           res_bind (inspect_managed_container (inspect name)) (\<lambda>found.
           res_bind (ok_or Container_Missing found) (\<lambda>details.
           res_bind (container_name (de_name details)) (\<lambda>canonical_name.
           res_bind (ok_or (Missing_Text ''managed container ID'') (de_id details)) (\<lambda>cid.
             Inr (canonical_name, cid, or_default False (de_running details))))))) of
        Inl e \<Rightarrow> (Inl e, [], st)
      | Inr (canonical_name, cid, running) \<Rightarrow>
          if \<not> running then (Inr (canonical_name, False), [], identity_remove cid canonical_name st)
          else
            (let t = or_default DEFAULT_STOP_TIMEOUT_SECS timeout
             in if \<not> valid_stop_timeout t then (Inl Bad_Stop_Timeout, [], st)
                else if \<not> stopped then (Inl Docker_Operation, [Stop_Container cid t], st)
                else (Inr (canonical_name, True), [Stop_Container cid t],
                      identity_remove cid canonical_name st)))"

definition docker_remove_container ::
  "docker_manager \<Rightarrow> (string \<Rightarrow> inspect_answer) \<Rightarrow> bool \<Rightarrow> string \<Rightarrow> bool \<Rightarrow> identity_state
     \<Rightarrow> (docker_error, string \<times> bool) result \<times> docker_call list \<times> identity_state" where
  "docker_remove_container mgr inspect removed name force st =
     (case res_bind (docker_client mgr) (\<lambda>_. inspect_managed_container (inspect name)) of
        Inl e \<Rightarrow> (Inl e, [], st)
      | Inr None \<Rightarrow> (Inr (name, False), [], st)
      | Inr (Some details) \<Rightarrow>
          (case res_bind (container_name (de_name details)) (\<lambda>canonical_name.
                res_bind (ok_or (Missing_Text ''managed container ID'') (de_id details)) (\<lambda>cid.
                  Inr (canonical_name, cid))) of
             Inl e \<Rightarrow> (Inl e, [], st)
           | Inr (canonical_name, cid) \<Rightarrow>
               if \<not> removed then (Inl Docker_Operation, [Remove_Container cid force], st)
               else (Inr (canonical_name, True), [Remove_Container cid force],
                     identity_remove cid canonical_name st)))"

definition redact_entry :: "string \<Rightarrow> string" where
  "redact_entry entry =
     (case split_once CHR ''='' entry of
        None \<Rightarrow> ''<redacted>''
      | Some (key, _) \<Rightarrow> key @ ''=<redacted>'')"

definition redact_environment :: "string list \<Rightarrow> string list" where
  "redact_environment entries = map redact_entry entries"

text \<open>The further fields of an inspection; the state is Docker's, in lower case.\<close>

record inspect_fields =
  if_state :: "string option"
  if_binds :: "string list option"
  if_env :: "string list option"
  if_image :: "string option"
  if_created :: "string option"

record container_inspect_result =
  ir_id :: string
  ir_name :: string
  ir_image :: string
  ir_state :: string
  ir_network :: string
  ir_ip_address :: string
  ir_mounts :: "string list"
  ir_env :: "string list"
  ir_created_at :: string

definition inspect_container ::
  "docker_manager \<Rightarrow> (string \<Rightarrow> inspect_answer) \<Rightarrow> inspect_fields \<Rightarrow> string
     \<Rightarrow> (docker_error, container_inspect_result) result" where
  "inspect_container mgr inspect further name =
     res_bind (docker_client mgr) (\<lambda>_.
     res_bind (inspect_managed_container (inspect name)) (\<lambda>found.
     res_bind (ok_or Container_Missing found) (\<lambda>details.
     res_bind (ok_or (Missing_Text ''managed container state'') (if_state further)) (\<lambda>state.
     res_bind (managed_network_label (de_labels details)) (\<lambda>network.
     res_bind (ok_or (Not_Attached network) (Option.bind (de_networks details) (\<lambda>ns. map_of ns network)))
       (\<lambda>endpoint.
     res_bind (container_name (de_name details)) (\<lambda>canonical_name.
     res_bind (required_text (de_id details) ''managed container ID'') (\<lambda>cid.
     res_bind (required_text (if_image further) ''managed container image'') (\<lambda>img.
     res_bind (required_text (if_created further) ''managed container creation time'') (\<lambda>created_at.
       Inr \<lparr>ir_id = cid, ir_name = canonical_name, ir_image = img, ir_state = state, ir_network = network,
            ir_ip_address = or_default [] (ep_ip_address endpoint),
            ir_mounts = or_default [] (if_binds further),
            ir_env = redact_environment (or_default [] (if_env further)),
            ir_created_at = created_at\<rparr>))))))))))"

record container_info =
  ci_id :: string
  ci_name :: string
  ci_image :: string
  ci_state :: string
  ci_network :: string
  ci_created_at :: string

text \<open>The further fields of a summary are arguments.\<close>

definition container_to_info ::
  "container_summary \<Rightarrow> string option \<Rightarrow> string option \<Rightarrow> int option \<Rightarrow> (docker_error, container_info) result"
  where
  "container_to_info container image_name state_name created =
     res_bind (managed_network_label (sm_labels container)) (\<lambda>network.
     res_bind (ok_or No_Network_Settings (sm_networks container)) (\<lambda>networks.
     if map_of networks network = None then Inl (Not_Attached network)
     else
       res_bind (required_text (sm_id container) ''managed container ID'') (\<lambda>cid.
       res_bind (container_name (case sm_names container of Some (n # _) \<Rightarrow> Some n | _ \<Rightarrow> None)) (\<lambda>name.
       res_bind (required_text image_name ''managed container image'') (\<lambda>img.
       res_bind (required_text state_name ''managed container state'') (\<lambda>state.
       res_bind (ok_or (Missing_Text ''managed container creation time'') created) (\<lambda>seconds.
       res_bind (case format_unix_timestamp seconds of Inl _ \<Rightarrow> Inl No_Clock | Inr t \<Rightarrow> Inr t) (\<lambda>created_at.
         Inr \<lparr>ci_id = cid, ci_name = name, ci_image = img, ci_state = state, ci_network = network,
              ci_created_at = created_at\<rparr>))))))))"

definition list_containers ::
  "docker_manager \<Rightarrow> (container_summary \<times> string option \<times> string option \<times> int option) list option
     \<Rightarrow> (docker_error, container_info list) result" where
  "list_containers mgr containers =
     res_bind (docker_client mgr) (\<lambda>_.
     res_bind (ok_or Docker_Operation containers) (\<lambda>cs.
       fold_res (\<lambda>(c, img, state, created) acc.
         res_bind (container_to_info c img state created) (\<lambda>info. Inr (acc @ [info]))) cs []))"

section \<open>image.rs\<close>

datatype reference_error = Reference_Empty | Reference_Whitespace | Reference_Tag string

fun has_whitespace_utf8 :: "string \<Rightarrow> bool" where
  "has_whitespace_utf8 [] = False"
| "has_whitespace_utf8 (c # cs) = (white_space_len (c # cs) \<noteq> 0 \<or> has_whitespace_utf8 cs)"

text \<open>The last colon is after the last slash when there is no slash behind it.\<close>

definition split_image_reference :: "string \<Rightarrow> (reference_error, string \<times> string) result" where
  "split_image_reference raw =
     (let img = trim_utf8 raw
      in if img = [] then Inl Reference_Empty
         else if has_whitespace_utf8 img then Inl Reference_Whitespace
         else if CHR ''@'' \<in> set img then Inr (img, [])
         else
           (case rsplit_once CHR '':'' img of
              Some (name, tag) \<Rightarrow>
                if CHR ''/'' \<in> set tag then Inr (img, ''latest'')
                else if name = [] \<or> tag = [] then Inl (Reference_Tag img)
                else Inr (name, tag)
            | None \<Rightarrow> Inr (img, ''latest'')))"

text \<open>
  A pull: whether the image was there, the progress messages (a failed or stalled one ends the pull) until
  the stream or the total time ends, and the check afterwards. The result says whether the image is new.
\<close>

datatype image_answer = Image_Present | Image_Missing | Image_Failed

datatype pull_item = Pull_Progress | Pull_Failed

definition pull_image ::
  "docker_manager \<Rightarrow> image_answer \<Rightarrow> pull_item list \<Rightarrow> bool \<Rightarrow> image_answer \<Rightarrow> string
     \<Rightarrow> (docker_error, string \<times> bool) result" where
  "pull_image mgr before stream timed_out after reference =
     res_bind (docker_client mgr) (\<lambda>_.
     res_bind (case split_image_reference reference of Inl _ \<Rightarrow> Inl Bad_Reference | Inr r \<Rightarrow> Inr r) (\<lambda>_.
     res_bind (case before of
                 Image_Present \<Rightarrow> Inr True | Image_Missing \<Rightarrow> Inr False | Image_Failed \<Rightarrow> Inl Docker_Operation)
       (\<lambda>already_present.
     if Pull_Failed \<in> set stream then Inl Docker_Operation
     else if timed_out then Inl Pull_Timeout
     else if after \<noteq> Image_Present then Inl Docker_Operation
     else Inr (reference, \<not> already_present))))"

section \<open>Confinement\<close>

text \<open>
  What every configuration handed to Docker satisfies: a user that is not root, limits on memory, CPU and
  processes, a read-only root without privileges, one network, which is managed and runs on the daemon's
  bridge, name resolution by the daemon, the labels of a managed container, mounts that leave the
  protected paths alone (the helpers are mounted on request only), and proxy variables of the daemon's own.
\<close>

definition network_managed :: "docker_manager \<Rightarrow> create_env \<Rightarrow> string \<Rightarrow> bool" where
  "network_managed mgr env network =
     (prefix NETWORK_PREFIX network
      \<and> (case ce_inspect_network env network of
           None \<Rightarrow> False
         | Some details \<Rightarrow>
             nd_driver details = Some ''bridge''
             \<and> Option.bind (nd_options details) (\<lambda>opts. map_of opts ''com.docker.network.bridge.name'')
                 = Some (dm_bridge mgr)))"

definition host_confined :: "string \<Rightarrow> string \<Rightarrow> host_config \<Rightarrow> bool" where
  "host_confined dns_addr network hc =
     (hc_readonly_rootfs hc \<and> \<not> hc_privileged hc \<and> ''ALL'' \<in> set (hc_cap_drop hc)
      \<and> ''no-new-privileges:true'' \<in> set (hc_security_opt hc)
      \<and> MIN_MEMORY_LIMIT \<le> hc_memory hc
      \<and> MIN_CPU_SHARES \<le> hc_cpu_shares hc \<and> hc_cpu_shares hc \<le> MAX_CPU_SHARES
      \<and> hc_pids_limit hc = DEFAULT_PID_LIMIT
      \<and> hc_network_mode hc = network \<and> hc_dns hc = [dns_addr])"

definition binds_confined :: "docker_manager \<Rightarrow> create_env \<Rightarrow> container_create_request \<Rightarrow> string list \<Rightarrow> bool" where
  "binds_confined mgr env request binds =
     list_all (\<lambda>b. helper_mounts_requested request \<and> b \<in> set (helper_binds mgr)
         \<or> mount_safe (ce_canonicalize env) (dm_denied mgr) b) binds"

definition env_confined :: "string option \<Rightarrow> string list \<Rightarrow> bool" where
  "env_confined proxy_addr entries =
     list_all (\<lambda>e. env_key e \<in> set RESERVED_KEYS \<longrightarrow>
       (case proxy_addr of None \<Rightarrow> False | Some addr \<Rightarrow> e \<in> set (container_environment (Some addr) None)))
       entries"

definition confined_config ::
  "docker_manager \<Rightarrow> create_env \<Rightarrow> container_create_request \<Rightarrow> string option \<Rightarrow> string \<Rightarrow> container_config \<Rightarrow> bool"
  where
  "confined_config mgr env request proxy_addr dns_addr config =
     (valid_container_user (cc_user config)
      \<and> map_of (cc_labels config) MANAGED_BY_LABEL = Some MANAGED_BY_VALUE
      \<and> (case cc_endpoints config of
           [network] \<Rightarrow>
             network_managed mgr env network
             \<and> map_of (cc_labels config) NETWORK_LABEL = Some network
             \<and> host_confined dns_addr network (cc_host_config config)
         | _ \<Rightarrow> False)
      \<and> binds_confined mgr env request (hc_binds (cc_host_config config))
      \<and> env_confined proxy_addr (cc_env config))"

lemma check_network_managed:
  assumes "check_network mgr (ce_inspect_network env) network = Inr ()"
  shows "network_managed mgr env network"
  using assms
  by (auto simp: check_network_def network_managed_def validate_managed_network_def result_simps
      split: if_splits)

lemma validate_create_request_limits:
  assumes "validate_create_request request = Inr ()"
  shows "valid_container_user (managed_container_user (cq_user request))"
    and "valid_memory_limit (or_default DEFAULT_MEMORY_LIMIT (cq_memory_limit request))"
    and "valid_cpu_shares (or_default DEFAULT_CPU_SHARES (cq_cpu_shares request))"
  using assms
  by (auto simp: validate_create_request_def managed_container_user_def validate_user_def
      validate_resources_def result_simps split: if_splits)

lemma managed_host_config_confined:
  assumes "valid_memory_limit memory" and "valid_cpu_shares shares"
  shows "host_confined dns_addr network (managed_host_config binds memory shares dns_addr network)"
  using assms by (simp add: host_confined_def managed_host_config_def valid_memory_limit_def valid_cpu_shares_def)

lemma container_binds_confined:
  assumes "container_binds mgr env request = Inr binds"
  shows "binds_confined mgr env request binds"
  using assms validate_bind_mounts_safe
  by (auto simp: container_binds_def binds_confined_def result_simps list_all_iff
      split: if_splits option.splits)

lemma container_environment_confined: "env_confined proxy_addr (container_environment proxy_addr extra)"
  using container_environment_reserved
  by (fastforce simp: env_confined_def list_all_iff split: option.splits)

lemma prepare_container_confined:
  assumes "prepare_container mgr env request proxy_addr dns_addr = Inr (name, config)"
  shows "confined_config mgr env request proxy_addr dns_addr config"
proof -
  define network where "network = or_default ''outcall-default'' (cq_network request)"
  from assms obtain binds created_at where valid: "validate_create_request request = Inr ()"
    and net: "check_network mgr (ce_inspect_network env) network = Inr ()"
    and binds: "container_binds mgr env request = Inr binds"
    and config: "config = container_config_of request proxy_addr dns_addr network binds created_at"
    by (auto simp: prepare_container_def Let_def result_simps network_def)
  show ?thesis
    using validate_create_request_limits [OF valid] check_network_managed [OF net]
      container_binds_confined [OF binds] container_environment_confined [of proxy_addr "cq_env request"]
      managed_host_config_confined
    by (simp add: confined_config_def config container_config_of_def managed_host_config_def
        MANAGED_BY_LABEL_def NETWORK_LABEL_def)
qed

text \<open>What a creation asks of Docker, and when.\<close>

lemma create_container_calls:
  assumes "create_container mgr env request proxy_addr dns_addr st = (r, calls, st')"
  shows "calls = [] \<and> st' = st \<and> \<not> is_ok r
    \<or> (\<exists>name config. prepare_container mgr env request proxy_addr dns_addr = Inr (name, config)
        \<and> (calls = [Create_Container name config] \<and> st' = st \<and> \<not> is_ok r
             \<and> (\<forall>cid. ce_created env = Some cid \<longrightarrow> trim_start_utf8 cid = [])
           \<or> (\<exists>cid. ce_created env = Some cid
               \<and> (\<not> is_ok r \<and> st' = st \<and>
                    calls = [Create_Container name config, Start_Container cid, Remove_Container cid True]
                 \<or> r = Inr \<lparr>cx_id = cid, cx_name = name\<rparr> \<and> ce_started env
                    \<and> record_container (ce_inspect env cid) st = (Inr (), st')
                    \<and> calls = [Create_Container name config, Start_Container cid]))))"
proof -
  have rec: "record_container a st = (Inl e, s) \<Longrightarrow> s = st" for a e s
    by (auto simp: record_container_def split: sum.splits option.splits prod.splits)
  show ?thesis
    using assms
    by (auto simp: create_container_def rollback_error_def result_simps required_text_def
        dest: rec split: sum.splits prod.splits if_splits)
qed


text \<open>
  C9: Every configuration a creation hands to Docker is well formed: the container runs as a user that is
  not root, within the limits, without capabilities or privileges and on a read-only root; it is attached
  to exactly one network, which carries the managed prefix and is a bridge network on the daemon's bridge,
  and it resolves names at the daemon; no mount covers the agent socket, the shim or resolv.conf, or
  contains a denied host path under any of its names; the proxy variables are the daemon's. It is the first
  call, made at most once.
\<close>

theorem created_containers_confined:
  assumes "create_container mgr env request proxy_addr dns_addr st = (r, calls, st')"
    and "calls \<noteq> []"
  shows "\<exists>name config. hd calls = Create_Container name config
    \<and> confined_config mgr env request proxy_addr dns_addr config
    \<and> (\<forall>call\<in>set (tl calls). \<forall>n c. call \<noteq> Create_Container n c)"
  using create_container_calls [OF assms(1)] assms(2) prepare_container_confined by auto

definition example_request :: container_create_request where
  "example_request =
     \<lparr>cq_image = ''agent:1'', cq_network = None, cq_name = Some ''worker'', cq_user = Some ''1000:1000'',
      cq_memory_limit = None, cq_cpu_shares = None, cq_env = Some [''HTTP_PROXY=http://evil'', ''A=1''],
      cq_cmd = None, cq_entrypoint = None, cq_working_dir = Some ''/work'',
      cq_volumes = Some [''/srv/data:/data:ro'', ''cache:/run/cache''], cq_helper_mounts = Some True,
      cq_interactive = None, cq_tty = None\<rparr>"

definition example_env :: create_env where
  "example_env =
     \<lparr>ce_canonicalize = (\<lambda>p. if p = ''/var/run/docker.sock'' then Some [''run'', ''docker.sock''] else None),
      ce_metadata = (\<lambda>p. Some \<lparr>pm_type = (if p = ''/opt/shim'' then Path_File else Path_Socket), pm_mode = 493\<rparr>),
      ce_inspect_network = (\<lambda>_. Some \<lparr>nd_driver = Some ''bridge'',
        nd_options = Some [(''com.docker.network.bridge.name'', ''outcall0'')]\<rparr>),
      ce_random = None, ce_clock = Some 0, ce_created = Some ''c1'', ce_started = True,
      ce_inspect = (\<lambda>cid. Inspected \<lparr>de_id = Some cid, de_name = Some ''/worker'',
        de_labels = Some [(''managed-by'', ''outcalld''), (''outcall.network'', ''outcall-default'')],
        de_networks = Some [(''outcall-default'', \<lparr>ep_ip_address = Some ''10.0.0.2'',
          ep_global_ipv6_address = None\<rparr>)], de_running = Some True\<rparr>),
      ce_removed = True\<rparr>"

abbreviation example_manager :: docker_manager where
  "example_manager \<equiv> docker_manager_new True ''/run/outcall/agent.sock'' ''/opt/shim'' ''outcall0'' ''/run/oc/host.sock''"

abbreviation example_creation ::
  "(docker_error, container_create_result) result \<times> docker_call list \<times> identity_state" where
  "example_creation \<equiv> create_container example_manager example_env example_request (Some ''10.0.0.1:8080'')
     ''10.0.0.1'' identity_new"


lemma example_request_valid: "validate_create_request example_request = Inr ()"
proof -
  have "valid_container_name ''worker''" by code_simp
  moreover have "valid_container_user ''1000:1000''"
    by (simp add: valid_container_user_def parse_u32_def parse_uint_def digits_value_def digit_value_def is_ascii_digit_def)
  ultimately show ?thesis
    by (simp add: validate_create_request_def example_request_def validate_image_def validate_container_name_def
      validate_user_def validate_resources_def validate_environment_def validate_env_entry_def
      validate_process_args_def validate_working_dir_def validate_mounts_def
      MAX_IMAGE_REFERENCE_BYTES_def MAX_ENV_ENTRIES_def MAX_ENV_ENTRY_BYTES_def MAX_PROCESS_ARGS_def
      MAX_PROCESS_ARG_TOTAL_BYTES_def MAX_MOUNTS_def MAX_MOUNT_BYTES_def MAX_WORKING_DIR_BYTES_def
      is_ascii_whitespace_def is_ascii_alphanumeric_def is_ascii_alphabetic_def is_ascii_upper_def
      is_ascii_lower_def valid_memory_limit_def valid_cpu_shares_def DEFAULT_MEMORY_LIMIT_def
      DEFAULT_CPU_SHARES_def MIN_MEMORY_LIMIT_def MIN_CPU_SHARES_def MAX_CPU_SHARES_def
      components_def is_absolute_def part_component_def)
qed

lemma example_binds: "is_ok (container_binds example_manager example_env example_request)"
  by code_simp

lemma example_network: "check_network example_manager (ce_inspect_network example_env) ''outcall-default'' = Inr ()"
  by code_simp

lemma example_available: "docker_client example_manager = Inr ()"
  by (simp add: docker_client_def docker_manager_new_def)

lemma example_named [simp]: "cq_name example_request = Some ''worker''" "cq_network example_request = None"
  by (simp_all add: example_request_def)

lemma example_clock: "is_ok (now_iso8601 (ce_clock example_env))"
  by (simp add: now_iso8601_def format_unix_timestamp_def example_env_def Let_def split: prod.splits)

lemma example_prepared:
  "is_ok (prepare_container example_manager example_env example_request (Some ''10.0.0.1:8080'') ''10.0.0.1'')"
proof -
  obtain binds t where "container_binds example_manager example_env example_request = Inr binds"
    "now_iso8601 (ce_clock example_env) = Inr t"
    using example_binds example_clock unfolding is_ok_iff by blast
  then show ?thesis
    using example_network example_request_valid
    by (simp add: prepare_container_def map_err_def example_available example_named)
qed

theorem created_containers_confined_witness:
  "fst (snd example_creation) \<noteq> []
   \<and> (\<exists>name config. hd (fst (snd example_creation)) = Create_Container name config
        \<and> confined_config example_manager example_env example_request (Some ''10.0.0.1:8080'') ''10.0.0.1'' config)"
proof -
  have calls: "fst (snd example_creation) \<noteq> []"
    using example_prepared
    by (auto simp: create_container_def rollback_error_def split: sum.splits prod.splits)
  obtain r cs st' where eq: "example_creation = (r, cs, st')" by (metis prod_cases3)
  from created_containers_confined [OF eq] calls eq show ?thesis by auto
qed


end
