(* ===== verification/Network_Manager.thy ===== *)
theory Network_Manager
  imports Docker_Containers Net_Cidr "HOL-Library.List_Lexorder" "HOL-Library.Char_ord"
begin

text \<open>
  The network manager (outcalld/src/network/mod.rs, metadata.rs, name.rs): creation, inspection, listing
  and removal of the Docker networks that share the daemon's bridge. Docker's answers are the fields of
  an environment; the calls that change something at Docker are the call list of the result. The text of an
  \<open>ipnet\<close> network is a field of the manager.
\<close>

section \<open>Networks as Docker reports them (metadata.rs)\<close>

record network_endpoint =
  nx_name :: "string option"
  nx_ipv4_address :: "string option"

record docker_network =
  dn_id :: "string option"
  dn_name :: "string option"
  dn_driver :: "string option"
  dn_options :: "(string \<times> string) list option"
  dn_ipam :: "(string option \<times> string option) list option option"
  dn_containers :: "network_endpoint list option"

datatype 'n network_error =
    Cidr_Error "'n cidr_error"
  | Name_Error network_name_error
  | Managed_Error container_error
  | Gateway_Without_Subnet
  | Network_Docker_Unavailable
  | Bridge_Status_Failed
  | Bridge_Not_Up
  | Network_Operation_Failed
  | Default_Subnet_In_Use string
  | Conflict_Without_Network string
  | No_Created_Id string
  | Missing_After_Create string
  | Rolled_Back "'n network_error" bool
  | Network_No_Name
  | Network_Name_Mismatch string string
  | Network_No_Id string
  | Network_No_Subnet
  | Network_No_Gateway
  | Network_Wrong_Subnet string string
  | Network_Wrong_Gateway string string
  | Network_Id_Changed string
  | Subnet_Not_Allocated 'n
  | Endpoint_No_Name
  | Endpoint_No_Address
  | Endpoint_Bad_Address string
  | Containers_Connected string "string list"

definition first_config :: "docker_network \<Rightarrow> (string option \<times> string option) option" where
  "first_config network =
     (case dn_ipam network of Some (Some (config # _)) \<Rightarrow> Some config | _ \<Rightarrow> None)"

definition network_first_subnet :: "docker_network \<Rightarrow> string option" where
  "network_first_subnet network = Option.bind (first_config network) fst"

definition first_gateway :: "docker_network \<Rightarrow> string option" where
  "first_gateway network = Option.bind (first_config network) snd"

record network_container =
  nc_name :: string
  nc_ipv4_address :: string

definition connected_container ::
  "'n ipnet_ops \<Rightarrow> network_endpoint \<Rightarrow> ('n network_error, network_container) result" where
  "connected_container ops endpoint =
     res_bind (case nx_name endpoint of
                 Some name \<Rightarrow> if trim_start_utf8 name = [] then Inl Endpoint_No_Name else Inr name
               | None \<Rightarrow> Inl Endpoint_No_Name) (\<lambda>name.
     res_bind (ok_or Endpoint_No_Address (nx_ipv4_address endpoint)) (\<lambda>address.
     res_bind (ok_or (Endpoint_Bad_Address address) (net4_parse ops address)) (\<lambda>net.
       Inr \<lparr>nc_name = name, nc_ipv4_address = show_ipv4 (net4_addr ops net)\<rparr>)))"

definition connected_containers ::
  "'n ipnet_ops \<Rightarrow> docker_network \<Rightarrow> ('n network_error, network_container list) result" where
  "connected_containers ops network =
     (case dn_containers network of
        None \<Rightarrow> Inr []
      | Some endpoints \<Rightarrow>
          res_bind (fold_res (\<lambda>e acc. res_bind (connected_container ops e) (\<lambda>c. Inr (acc @ [c]))) endpoints [])
            (\<lambda>containers. Inr (sort_key nc_name containers)))"

definition required_id :: "docker_network \<Rightarrow> string \<Rightarrow> ('n network_error, string) result" where
  "required_id network name =
     (case dn_id network of
        Some nid \<Rightarrow> if nid = [] then Inl (Network_No_Id name) else Inr nid
      | None \<Rightarrow> Inl (Network_No_Id name))"

definition validate_configuration ::
  "docker_network \<Rightarrow> string \<Rightarrow> string \<Rightarrow> ('n network_error, unit) result" where
  "validate_configuration network expected_subnet expected_gateway =
     res_bind (ok_or Network_No_Subnet (network_first_subnet network)) (\<lambda>actual_subnet.
     res_bind (ok_or Network_No_Gateway (first_gateway network)) (\<lambda>actual_gateway.
     if actual_subnet \<noteq> expected_subnet then Inl (Network_Wrong_Subnet actual_subnet expected_subnet)
     else if actual_gateway \<noteq> expected_gateway then Inl (Network_Wrong_Gateway actual_gateway expected_gateway)
     else Inr ()))"

definition validate_identity ::
  "docker_network \<Rightarrow> string \<Rightarrow> string \<Rightarrow> ('n network_error, unit) result" where
  "validate_identity network expected_name bridge_name =
     res_bind (case dn_name network of
                 Some n \<Rightarrow> if n = [] then Inl Network_No_Name else Inr n
               | None \<Rightarrow> Inl Network_No_Name) (\<lambda>actual_name.
     if actual_name \<noteq> expected_name then Inl (Network_Name_Mismatch expected_name actual_name)
     else
       res_bind (required_id network expected_name) (\<lambda>_.
         map_err Managed_Error (validate_managed_network expected_name (dn_driver network)
           (Option.bind (dn_options network) (\<lambda>opts. map_of opts ''com.docker.network.bridge.name''))
           bridge_name)))"

record network_status =
  ns_exists :: bool
  ns_id :: "string option"
  ns_name :: string
  ns_subnet :: "string option"
  ns_gateway :: "string option"
  ns_containers :: "network_container list"

definition to_status ::
  "'n ipnet_ops \<Rightarrow> string \<Rightarrow> docker_network \<Rightarrow> ('n network_error, network_status) result" where
  "to_status ops name network =
     res_bind (required_id network name) (\<lambda>nid.
     res_bind (connected_containers ops network) (\<lambda>containers.
       Inr \<lparr>ns_exists = True, ns_id = Some nid, ns_name = name, ns_subnet = network_first_subnet network,
            ns_gateway = first_gateway network, ns_containers = containers\<rparr>))"

record network_create_result =
  nr_id :: string
  nr_name :: string
  nr_created :: bool
  nr_subnet :: "string option"

definition existing_result ::
  "docker_network \<Rightarrow> string \<Rightarrow> string \<Rightarrow> ('n network_error, network_create_result) result" where
  "existing_result network name bridge_name =
     res_bind (validate_identity network name bridge_name) (\<lambda>_.
     res_bind (required_id network name) (\<lambda>nid.
       Inr \<lparr>nr_id = nid, nr_name = name, nr_created = False, nr_subnet = network_first_subnet network\<rparr>))"

definition validate_created ::
  "docker_network \<Rightarrow> string \<Rightarrow> string \<Rightarrow> string \<Rightarrow> string \<Rightarrow> string \<Rightarrow> ('n network_error, string) result" where
  "validate_created network created_id name bridge_name subnet gateway =
     res_bind (validate_identity network name bridge_name) (\<lambda>_.
     res_bind (validate_configuration network subnet gateway) (\<lambda>_.
     res_bind (required_id network name) (\<lambda>inspected_id.
     if created_id \<noteq> inspected_id then Inl (Network_Id_Changed name) else Inr inspected_id)))"

section \<open>The manager (mod.rs)\<close>

record 'n network_manager =
  nm_available :: bool
  nm_bridge :: string
  nm_block :: 'n
  nm_ops :: "'n ipnet_ops"
  nm_show :: "'n \<Rightarrow> string"

definition network_manager_new ::
  "bool \<Rightarrow> string \<Rightarrow> string \<Rightarrow> 'n ipnet_ops \<Rightarrow> ('n \<Rightarrow> string) \<Rightarrow> ('n network_error, 'n network_manager) result"
  where
  "network_manager_new available bridge cidr ops show_net =
     res_bind (map_err Cidr_Error (allocation_block_parse ops cidr)) (\<lambda>block.
       Inr \<lparr>nm_available = available, nm_bridge = bridge, nm_block = block, nm_ops = ops, nm_show = show_net\<rparr>)"

record network_create_request =
  nq_name :: "string option"
  nq_subnet :: "string option"
  nq_gateway :: "string option"

datatype network_answer = Network_Found docker_network | Network_Missing | Network_Failed

datatype create_answer = Network_Created string | Network_Conflict | Network_Create_Failed

datatype remove_answer = Network_Removed | Remove_Missing | Remove_Failed

record network_env =
  ne_bridge_up :: "bool option"
  ne_inspect :: "string \<Rightarrow> network_answer"
  ne_listing :: "(string, docker_ipam list) result"
  ne_create :: create_answer
  ne_inspect_after :: "string \<Rightarrow> network_answer"
  ne_remove :: remove_answer

text \<open>The options of a creation: name, bridge option, subnet and gateway; the driver is \<open>bridge\<close>.\<close>

datatype network_call =
    Create_Network string string string string
  | Remove_Network string

definition try_inspect :: "network_answer \<Rightarrow> ('n network_error, docker_network option) result" where
  "try_inspect answer =
     (case answer of
        Network_Found network \<Rightarrow> Inr (Some network)
      | Network_Missing \<Rightarrow> Inr None
      | Network_Failed \<Rightarrow> Inl Network_Operation_Failed)"

definition network_docker :: "'n network_manager \<Rightarrow> ('n network_error, unit) result" where
  "network_docker mgr = ensure (nm_available mgr) Network_Docker_Unavailable"

definition validate_network_request :: "network_create_request \<Rightarrow> ('n network_error, unit) result" where
  "validate_network_request request =
     ensure (\<not> (nq_gateway request \<noteq> None \<and> nq_subnet request = None)) Gateway_Without_Subnet"

definition validate_existing_configuration ::
  "'n network_manager \<Rightarrow> docker_network \<Rightarrow> string \<Rightarrow> network_create_request \<Rightarrow> ('n network_error, unit) result"
  where
  "validate_existing_configuration mgr network name request =
     (case nq_subnet request of
        Some s \<Rightarrow>
          res_bind (map_err Cidr_Error (parse_agent_subnet (nm_ops mgr) s)) (\<lambda>subnet.
          res_bind (map_err Cidr_Error (resolve_gateway (nm_ops mgr) subnet (nq_gateway request))) (\<lambda>gateway.
            validate_configuration network (nm_show mgr subnet) gateway))
      | None \<Rightarrow>
          if name = DEFAULT_NETWORK_NAME
          then (case first_subnet (nm_ops mgr) (nm_block mgr) of
                  (subnet, gateway) \<Rightarrow> validate_configuration network subnet gateway)
          else
            res_bind (ok_or Network_No_Subnet (network_first_subnet network)) (\<lambda>subnet_text.
            res_bind (map_err Cidr_Error (parse_agent_subnet (nm_ops mgr) subnet_text)) (\<lambda>subnet.
            if \<not> contains_allocated_subnet (nm_ops mgr) (nm_block mgr) subnet
            then Inl (Subnet_Not_Allocated subnet)
            else
              res_bind (map_err Cidr_Error (resolve_gateway (nm_ops mgr) subnet None)) (\<lambda>expected_gateway.
                validate_configuration network (nm_show mgr subnet) expected_gateway))))"

definition rollback_created_network ::
  "remove_answer \<Rightarrow> 'n network_error \<Rightarrow> 'n network_error" where
  "rollback_created_network answer e = Rolled_Back e (answer = Remove_Failed)"

text \<open>The subnet of a new network: requested, the first of the block for the default network, or allocated.\<close>

definition choose_subnet ::
  "'n network_manager \<Rightarrow> network_env \<Rightarrow> string \<Rightarrow> network_create_request
     \<Rightarrow> ('n network_error, string \<times> string) result" where
  "choose_subnet mgr env name request =
     (let ops = nm_ops mgr
      in case nq_subnet request of
           Some s \<Rightarrow>
             res_bind (map_err Cidr_Error (parse_agent_subnet ops s)) (\<lambda>subnet.
             res_bind (map_err Cidr_Error (check_subnet_collision ops (ne_listing env) subnet)) (\<lambda>_.
             res_bind (map_err Cidr_Error (resolve_gateway ops subnet (nq_gateway request))) (\<lambda>gateway.
               Inr (nm_show mgr subnet, gateway))))
         | None \<Rightarrow>
             if name = DEFAULT_NETWORK_NAME
             then (case first_subnet ops (nm_block mgr) of
                     (subnet, gateway) \<Rightarrow>
                       res_bind (map_err Cidr_Error (parse_agent_subnet ops subnet)) (\<lambda>requested.
                       res_bind (map_err Cidr_Error (is_subnet_in_use ops (ne_listing env) requested)) (\<lambda>used.
                       if used then Inl (Default_Subnet_In_Use subnet) else Inr (subnet, gateway))))
             else
               res_bind (map_err Cidr_Error (allocate_subnet ops (nm_block mgr) (ne_listing env))) (\<lambda>(net, gw).
                 Inr (show_ipv4 net @ ''/24'', show_ipv4 gw)))"

text \<open>From the call of Docker on: the result and the further calls.\<close>

definition create_at_docker ::
  "'n network_manager \<Rightarrow> network_env \<Rightarrow> string \<Rightarrow> string \<Rightarrow> string
     \<Rightarrow> ('n network_error, network_create_result) result \<times> network_call list" where
  "create_at_docker mgr env name subnet gateway =
     (case ne_create env of
        Network_Create_Failed \<Rightarrow> (Inl Network_Operation_Failed, [])
      | Network_Conflict \<Rightarrow>
          (res_bind (try_inspect (ne_inspect_after env name)) (\<lambda>found.
           res_bind (ok_or (Conflict_Without_Network name) found) (\<lambda>existing.
           res_bind (validate_configuration existing subnet gateway) (\<lambda>_.
             existing_result existing name (nm_bridge mgr)))), [])
      | Network_Created nid \<Rightarrow>
          if trim_start_utf8 nid = [] then (Inl (No_Created_Id name), [])
          else
            (case res_bind (try_inspect (ne_inspect_after env nid)) (\<lambda>found.
                  res_bind (ok_or (Missing_After_Create name) found) (\<lambda>created.
                    validate_created created nid name (nm_bridge mgr) subnet gateway)) of
               Inl e \<Rightarrow> (Inl (rollback_created_network (ne_remove env) e), [Remove_Network nid])
             | Inr inspected_id \<Rightarrow>
                 (Inr \<lparr>nr_id = inspected_id, nr_name = name, nr_created = True, nr_subnet = Some subnet\<rparr>, [])))"

definition create_network ::
  "'n network_manager \<Rightarrow> network_env \<Rightarrow> network_create_request
     \<Rightarrow> ('n network_error, network_create_result) result \<times> network_call list" where
  "create_network mgr env request =
     (case res_bind (validate_network_request request) (\<lambda>_.
           res_bind (network_docker mgr) (\<lambda>_.
           res_bind (ok_or Bridge_Status_Failed (ne_bridge_up env)) (\<lambda>up.
           res_bind (ensure up Bridge_Not_Up) (\<lambda>_.
           res_bind (map_err Name_Error (full_name (nq_name request))) (\<lambda>name.
           res_bind (try_inspect (ne_inspect env name)) (\<lambda>found. Inr (name, found))))))) of
        Inl e \<Rightarrow> (Inl e, [])
      | Inr (name, Some existing) \<Rightarrow>
          (res_bind (validate_existing_configuration mgr existing name request) (\<lambda>_.
             existing_result existing name (nm_bridge mgr)), [])
      | Inr (name, None) \<Rightarrow>
          (case choose_subnet mgr env name request of
             Inl e \<Rightarrow> (Inl e, [])
           | Inr (subnet, gateway) \<Rightarrow>
               (case create_at_docker mgr env name subnet gateway of
                  (r, calls) \<Rightarrow> (r, Create_Network name (nm_bridge mgr) subnet gateway # calls))))"

definition inspect_network ::
  "'n network_manager \<Rightarrow> network_env \<Rightarrow> string option \<Rightarrow> ('n network_error, network_status) result" where
  "inspect_network mgr env name =
     res_bind (network_docker mgr) (\<lambda>_.
     res_bind (map_err Name_Error (full_name name)) (\<lambda>full.
     res_bind (try_inspect (ne_inspect env full)) (\<lambda>found.
     case found of
       Some network \<Rightarrow>
         res_bind (validate_identity network full (nm_bridge mgr)) (\<lambda>_. to_status (nm_ops mgr) full network)
     | None \<Rightarrow> Inr \<lparr>ns_exists = False, ns_id = None, ns_name = full, ns_subnet = None, ns_gateway = None,
                      ns_containers = []\<rparr>)))"

text \<open>\<open>names\<close> are the names in Docker's list; networks of others are passed over.\<close>

definition list_network_step ::
  "'n network_manager \<Rightarrow> network_env \<Rightarrow> string option \<Rightarrow> network_status list
     \<Rightarrow> ('n network_error, network_status list) result" where
  "list_network_step mgr env listed out =
     (let name = or_default [] listed
      in if \<not> prefix NETWORK_PREFIX name then Inr out
         else
           res_bind (try_inspect (ne_inspect env name)) (\<lambda>found.
           case found of
             None \<Rightarrow> Inr out
           | Some detail \<Rightarrow>
               (case validate_identity detail name (nm_bridge mgr) :: ('n network_error, unit) result of
                  Inl _ \<Rightarrow> Inr out
                | Inr _ \<Rightarrow> res_bind (to_status (nm_ops mgr) name detail) (\<lambda>status. Inr (out @ [status])))))"

definition list_networks ::
  "'n network_manager \<Rightarrow> network_env \<Rightarrow> string option list option
     \<Rightarrow> ('n network_error, network_status list) result" where
  "list_networks mgr env names =
     res_bind (network_docker mgr) (\<lambda>_.
     res_bind (ok_or Network_Operation_Failed names) (\<lambda>listed.
     res_bind (fold_res (list_network_step mgr env) listed []) (\<lambda>out. Inr (sort_key ns_name out))))"

definition destroy_network ::
  "'n network_manager \<Rightarrow> network_env \<Rightarrow> string option
     \<Rightarrow> ('n network_error, string \<times> bool) result \<times> network_call list" where
  "destroy_network mgr env name =
     (case res_bind (network_docker mgr) (\<lambda>_.
           res_bind (map_err Name_Error (full_name name)) (\<lambda>full.
           res_bind (try_inspect (ne_inspect env full)) (\<lambda>found.
           case found of
             None \<Rightarrow> Inr (full, False)
           | Some existing \<Rightarrow>
               res_bind (validate_identity existing full (nm_bridge mgr)) (\<lambda>_.
               res_bind (connected_containers (nm_ops mgr) existing) (\<lambda>connected.
               if connected \<noteq> [] then Inl (Containers_Connected full (map nc_name connected))
               else Inr (full, True)))))) of
        Inl e \<Rightarrow> (Inl e, [])
      | Inr (full, False) \<Rightarrow> (Inr (full, False), [])
      | Inr (full, True) \<Rightarrow>
          (if ne_remove env = Network_Removed then Inr (full, True) else Inl Network_Operation_Failed,
           [Remove_Network full]))"

section \<open>What a created network is\<close>

text \<open>Printing a parsed network and parsing the text gives the network, as \<open>ipnet\<close> documents.\<close>

definition prints_back :: "'n ipnet_ops \<Rightarrow> ('n \<Rightarrow> string) \<Rightarrow> bool" where
  "prints_back ops show_net \<longleftrightarrow>
     (\<forall>t n. net4_parse ops t = Some n \<longrightarrow> net4_parse ops (show_net n) = Some n)"

lemma full_name_prefix: "full_name name = Inr full \<Longrightarrow> prefix NETWORK_PREFIX full"
  by (auto simp: full_name_def NETWORK_PREFIX_def DEFAULT_NETWORK_NAME_def split: option.splits if_splits)

lemma is_subnet_in_use_Inr:
  "is_subnet_in_use ops listing n = Inr b \<longleftrightarrow>
     (\<exists>used. collect_used_subnets ops listing = Inr used \<and> b = list_ex (networks_overlap ops n) used)"
  by (auto simp: is_subnet_in_use_def result_simps)

text \<open>Every way to choose a subnet ends with a free agent subnet and a gateway that fits it.\<close>

lemma choose_subnet_cases:
  assumes "choose_subnet mgr env name request = Inr (subnet, gateway)"
  obtains (explicit) s n where "parse_agent_subnet (nm_ops mgr) s = Inr n" "subnet = nm_show mgr n"
      "is_subnet_in_use (nm_ops mgr) (ne_listing env) n = Inr False"
      "resolve_gateway (nm_ops mgr) n (nq_gateway request) = Inr gateway"
  | (first) n where "(subnet, gateway) = first_subnet (nm_ops mgr) (nm_block mgr)"
      "parse_agent_subnet (nm_ops mgr) subnet = Inr n"
      "is_subnet_in_use (nm_ops mgr) (ne_listing env) n = Inr False"
  | (allocated) a g where "allocate_subnet (nm_ops mgr) (nm_block mgr) (ne_listing env) = Inr (a, g)"
      "subnet = show_ipv4 a @ ''/24''" "gateway = show_ipv4 g"
proof (cases "nq_subnet request")
  case (Some s)
  with assms show ?thesis
    using explicit by (auto simp: choose_subnet_def Let_def check_subnet_collision_def result_simps split: if_splits)
next
  case None
  show ?thesis
  proof (cases "name = DEFAULT_NETWORK_NAME")
    case True
    with None assms show ?thesis
      using first by (auto simp: choose_subnet_def Let_def result_simps split: if_splits prod.splits)
  next
    case False
    with None assms show ?thesis
      using allocated by (auto simp: choose_subnet_def Let_def result_simps split: prod.splits)
  qed
qed

context ipnet
begin

lemma parse_show_agent:
  assumes "prints_back ops show_net" and "parse_agent_subnet ops s = Inr n"
  shows "parse_agent_subnet ops (show_net n) = Inr n"
  using assms by (auto simp: prints_back_def parse_agent_subnet_Inr)

lemma agent_24_network:
  assumes "parse_agent_subnet ops (show_ipv4 a @ ''/24'') = Inr n"
  shows "net4_network ops n = a"
proof -
  obtain m where "net4_parse ops (show_ipv4 a @ ''/24'') = Some m" "net4_addr ops m = a"
    by (rule parse_show_24)
  with assms show ?thesis by (auto simp: parse_agent_subnet_Inr)
qed

lemma agent_24_gateway:
  assumes "parse_agent_subnet ops (show_ipv4 a @ ''/24'') = Inr n"
  shows "resolve_gateway ops n None = Inr (show_ipv4 (a + 1))"
  using assms default_gateway [of n] agent_24_network [OF assms] by (auto simp: parse_agent_subnet_Inr)

lemma in_use_disjoint:
  assumes "is_subnet_in_use ops listing n = Inr False"
  shows "\<exists>used. collect_used_subnets ops listing = Inr used
    \<and> (\<forall>u\<in>set used. \<forall>a. \<not> (net4_contains ops n a \<and> net4_contains ops u a))"
  using assms unfolding is_subnet_in_use_Inr list_ex_iff overlap_iff by blast

end

lemma choose_subnet_sound:
  assumes "ipnet (nm_ops mgr)" and "prints_back (nm_ops mgr) (nm_show mgr)"
    and "allocation_block_parse (nm_ops mgr) cidr = Inr (nm_block mgr)"
    and "choose_subnet mgr env name request = Inr (subnet, gateway)"
  shows "\<exists>n g. parse_agent_subnet (nm_ops mgr) subnet = Inr n
    \<and> resolve_gateway (nm_ops mgr) n g = Inr gateway
    \<and> (\<exists>used. collect_used_subnets (nm_ops mgr) (ne_listing env) = Inr used
        \<and> (\<forall>u\<in>set used. \<forall>a. \<not> (net4_contains (nm_ops mgr) n a \<and> net4_contains (nm_ops mgr) u a)))"
  using assms(4)
proof (cases rule: choose_subnet_cases)
  case (explicit s n)
  then show ?thesis
    using ipnet.parse_show_agent [OF assms(1,2)] ipnet.in_use_disjoint [OF assms(1)] by blast
next
  case (first n)
  from first(1) have "subnet = show_ipv4 (net4_network (nm_ops mgr) (nm_block mgr)) @ ''/24''"
    "gateway = show_ipv4 (net4_network (nm_ops mgr) (nm_block mgr) + 1)"
    by (simp_all add: first_subnet_def Let_def)
  with first(2,3) show ?thesis
    using ipnet.agent_24_gateway [OF assms(1)] ipnet.in_use_disjoint [OF assms(1)] by blast
next
  case (allocated a g)
  from allocated(1) obtain used where used: "collect_used_subnets (nm_ops mgr) (ne_listing env) = Inr used"
    "allocate_loop (nm_ops mgr) (nm_block mgr) used (iter_24 (nm_ops mgr) (nm_block mgr)) = Inr (a, g)"
    by (auto simp: allocate_subnet_def result_simps)
  have "g = a + 1" and "\<exists>n. parse_agent_subnet (nm_ops mgr) (show_ipv4 a @ ''/24'') = Inr n
      \<and> (\<forall>u \<in> set used. \<not> networks_overlap (nm_ops mgr) n u)"
    using ipnet.allocate_loop_cases [OF assms(1,3) subset_refl, of used] used(2)
    by (auto simp: iter_24_def Let_def)
  then show ?thesis
    using allocated(2,3) used(1) ipnet.agent_24_gateway [OF assms(1)]
    unfolding ipnet.overlap_iff [OF assms(1)] by blast
qed

lemma validate_created_Inr:
  assumes "(validate_created network created_id name bridge subnet gateway :: ('n network_error, string) result) = Inr nid"
  shows "created_id = nid \<and> dn_id network = Some nid \<and> dn_name network = Some name
    \<and> dn_driver network = Some ''bridge''
    \<and> Option.bind (dn_options network) (\<lambda>opts. map_of opts ''com.docker.network.bridge.name'') = Some bridge
    \<and> network_first_subnet network = Some subnet \<and> first_gateway network = Some gateway"
  using assms
  by (auto simp: validate_created_def validate_identity_def validate_configuration_def required_id_def
      validate_managed_network_def result_simps split: option.splits if_splits)

lemma create_network_created:
  fixes mgr :: "'a network_manager"
  assumes "create_network mgr env request = (Inr res, calls)" and "nr_created res"
  obtains subnet gateway network where
    "calls = [Create_Network (nr_name res) (nm_bridge mgr) subnet gateway]"
    "full_name (nq_name request) = Inr (nr_name res)" "nr_subnet res = Some subnet"
    "choose_subnet mgr env (nr_name res) request = Inr (subnet, gateway)"
    "ne_create env = Network_Created (nr_id res)" "ne_inspect_after env (nr_id res) = Network_Found network"
    "dn_id network = Some (nr_id res)" "dn_name network = Some (nr_name res)"
    "dn_driver network = Some ''bridge''"
    "Option.bind (dn_options network) (\<lambda>opts. map_of opts ''com.docker.network.bridge.name'') = Some (nm_bridge mgr)"
    "network_first_subnet network = Some subnet" "first_gateway network = Some gateway"
proof -
  from assms obtain name subnet gateway c where name: "full_name (nq_name request) = Inr name"
    and choose: "choose_subnet mgr env name request = Inr (subnet, gateway)"
    and docker: "create_at_docker mgr env name subnet gateway = (Inr res, c)"
    and calls: "calls = Create_Network name (nm_bridge mgr) subnet gateway # c"
    by (auto simp: create_network_def existing_result_def result_simps
        split: sum.splits prod.splits option.splits)
  from docker assms(2) obtain nid network where n: "ne_create env = Network_Created nid"
    "try_inspect (ne_inspect_after env nid) = (Inr (Some network) :: ('a network_error, docker_network option) result)"
    and v: "(validate_created network nid name (nm_bridge mgr) subnet gateway :: ('a network_error, string) result)
      = Inr (nr_id res)"
    and res: "res = \<lparr>nr_id = nr_id res, nr_name = name, nr_created = True, nr_subnet = Some subnet\<rparr>" "c = []"
    by (auto simp: create_at_docker_def existing_result_def result_simps
        split: create_answer.splits sum.splits if_splits)
  from n(2) have "ne_inspect_after env nid = Network_Found network"
    by (auto simp: try_inspect_def split: network_answer.splits)
  moreover have "name = nr_name res" "nr_subnet res = Some subnet" using res(1) by (metis network_create_result.simps)+
  ultimately show ?thesis
    using that [of subnet gateway network] name choose calls n(1) res(2) validate_created_Inr [OF v] by simp
qed

text \<open>
  C24: A network the manager reports as created is the one Docker was asked for, with one call: under a
  managed name, as a bridge network on the daemon's bridge, with a private subnet that shares no address
  with any network in use at Docker and a gateway that is a host address of the subnet; and Docker's own
  report on the new identifier shows this name, driver, bridge, subnet and gateway.
\<close>

theorem created_network_checked:
  assumes "ipnet ops" and "prints_back ops show_net"
    and "network_manager_new available bridge cidr ops show_net = Inr mgr"
    and "create_network mgr env request = (Inr res, calls)" and "nr_created res"
  shows "\<exists>subnet gateway network n g used.
     calls = [Create_Network (nr_name res) bridge subnet gateway] \<and> prefix NETWORK_PREFIX (nr_name res)
     \<and> parse_agent_subnet ops subnet = Inr n
     \<and> (\<forall>a. net4_contains ops n a \<longrightarrow> private_range a \<noteq> None)
     \<and> collect_used_subnets ops (ne_listing env) = Inr used
     \<and> (\<forall>u\<in>set used. \<forall>a. \<not> (net4_contains ops n a \<and> net4_contains ops u a))
     \<and> gateway = show_ipv4 g \<and> net4_contains ops n g \<and> g \<notin> {net4_network ops n, net4_broadcast ops n}
     \<and> ne_create env = Network_Created (nr_id res) \<and> ne_inspect_after env (nr_id res) = Network_Found network
     \<and> dn_id network = Some (nr_id res) \<and> dn_name network = Some (nr_name res)
     \<and> dn_driver network = Some ''bridge''
     \<and> Option.bind (dn_options network) (\<lambda>opts. map_of opts ''com.docker.network.bridge.name'') = Some bridge
     \<and> network_first_subnet network = Some subnet \<and> first_gateway network = Some gateway"
proof -
  from assms(3) have mgr: "nm_ops mgr = ops" "nm_show mgr = show_net" "nm_bridge mgr = bridge"
    "allocation_block_parse ops cidr = Inr (nm_block mgr)"
    by (auto simp: network_manager_new_def result_simps)
  from assms(4,5) obtain subnet gateway network where
    calls: "calls = [Create_Network (nr_name res) (nm_bridge mgr) subnet gateway]"
    and name: "full_name (nq_name request) = Inr (nr_name res)"
    and choose: "choose_subnet mgr env (nr_name res) request = Inr (subnet, gateway)"
    and docker: "ne_create env = Network_Created (nr_id res)"
      "ne_inspect_after env (nr_id res) = Network_Found network"
      "dn_id network = Some (nr_id res)" "dn_name network = Some (nr_name res)"
      "dn_driver network = Some ''bridge''"
      "Option.bind (dn_options network) (\<lambda>opts. map_of opts ''com.docker.network.bridge.name'')
        = Some (nm_bridge mgr)"
      "network_first_subnet network = Some subnet" "first_gateway network = Some gateway"
    by (rule create_network_created)
  from choose_subnet_sound [of mgr cidr env "nr_name res" request subnet gateway] assms(1,2) mgr choose
  obtain n g used where n: "parse_agent_subnet ops subnet = Inr n" "resolve_gateway ops n g = Inr gateway"
    and used: "collect_used_subnets ops (ne_listing env) = Inr used"
      "\<forall>u\<in>set used. \<forall>a. \<not> (net4_contains ops n a \<and> net4_contains ops u a)"
    by auto
  from n(2) obtain h where h: "gateway = show_ipv4 h" "net4_contains ops n h"
    "h \<notin> {net4_network ops n, net4_broadcast ops n}"
    by (auto simp: resolve_gateway_Inr)
  have "private_range a \<noteq> None" if "net4_contains ops n a" for a
    using n(1) ipnet.private_network [OF assms(1) _ that] ipnet.parse_agent_subnet_Inr [OF assms(1)] by blast
  with calls full_name_prefix [OF name] n(1) used h docker mgr(3) show ?thesis by blast
qed

text \<open>A removal is asked for by name, and only for a managed network to which nothing is connected.\<close>

lemma fold_collect_length:
  "fold_res (\<lambda>x acc. res_bind (f x) (\<lambda>y. Inr (acc @ [y]))) xs acc = Inr ys \<Longrightarrow> length ys = length acc + length xs"
  by (induction xs arbitrary: acc) (fastforce simp: result_simps)+

lemma connected_containers_empty:
  assumes "connected_containers ops network = Inr []"
  shows "dn_containers network = None \<or> dn_containers network = Some []"
proof (cases "dn_containers network")
  case (Some endpoints)
  with assms obtain cs where
    cs: "fold_res (\<lambda>e acc. res_bind (connected_container ops e) (\<lambda>c. Inr (acc @ [c]))) endpoints [] = Inr cs"
    and "sort_key nc_name cs = []"
    by (auto simp: connected_containers_def result_simps)
  then have "length cs = 0" by (metis length_sort list.size(3))
  with fold_collect_length [OF cs] Some show ?thesis by simp
qed simp

lemma destroyed_network_unused:
  fixes mgr :: "'a network_manager"
  assumes "destroy_network mgr env name = (r, calls)" and "calls \<noteq> []"
  shows "\<exists>full network. calls = [Remove_Network full] \<and> full_name name = Inr full
    \<and> ne_inspect env full = Network_Found network
    \<and> (validate_identity network full (nm_bridge mgr) :: ('a network_error, unit) result) = Inr ()
    \<and> (dn_containers network = None \<or> dn_containers network = Some [])"
proof -
  from assms obtain full network where "calls = [Remove_Network full]" "full_name name = Inr full"
    "try_inspect (ne_inspect env full) = (Inr (Some network) :: ('a network_error, docker_network option) result)"
    "(validate_identity network full (nm_bridge mgr) :: ('a network_error, unit) result) = Inr ()"
    "connected_containers (nm_ops mgr) network = Inr []"
    by (auto simp: destroy_network_def result_simps split: sum.splits prod.splits option.splits bool.splits
        if_splits)
  then show ?thesis
    using connected_containers_empty by (auto simp: try_inspect_def split: network_answer.splits)
qed

text \<open>The default network of a block, with nothing in use.\<close>

definition plain_show :: "ipv4_net \<Rightarrow> string" where
  "plain_show n = show_ipv4 (plain_addr n) @ ''/'' @ show_nat (plain_prefix_len n)"

lemma plain_prints_back: "prints_back plain_ipnet plain_show"
proof -
  have "plain_parse (plain_show n) = Some n" if "plain_parse t = Some n" for t n
  proof -
    from that have "plain_prefix_len n \<le> 32" "n = Ipv4_Net (plain_addr n) (plain_prefix_len n)"
      by (auto simp: plain_parse_def parse_uint_def Let_def split: option.splits prod.splits if_splits)
    then show ?thesis using plain_parse_show by (metis plain_show_def)
  qed
  then show ?thesis by (simp add: prints_back_def plain_ipnet_def)
qed

definition example_network_env :: network_env where
  "example_network_env =
     \<lparr>ne_bridge_up = Some True, ne_inspect = (\<lambda>_. Network_Missing), ne_listing = Inr [],
      ne_create = Network_Created ''n1'',
      ne_inspect_after = (\<lambda>nid. Network_Found \<lparr>dn_id = Some nid, dn_name = Some ''outcall-default'',
        dn_driver = Some ''bridge'', dn_options = Some [(''com.docker.network.bridge.name'', ''outcall0'')],
        dn_ipam = Some (Some [(Some (show_ipv4 170524672 @ ''/24''), Some (show_ipv4 170524673))]),
        dn_containers = None\<rparr>),
      ne_remove = Network_Removed\<rparr>"

definition example_network_manager :: "ipv4_net network_manager" where
  "example_network_manager =
     \<lparr>nm_available = True, nm_bridge = ''outcall0'', nm_block = Ipv4_Net 170524672 23,
      nm_ops = plain_ipnet, nm_show = plain_show\<rparr>"

lemma example_network_manager_new:
  "network_manager_new True ''outcall0'' ''10.42.0.0/23'' plain_ipnet plain_show = Inr example_network_manager"
proof -
  have "allocation_block_parse plain_ipnet ''10.42.0.0/23'' = Inr (Ipv4_Net 170524672 23)"
    by (simp add: plain_eval allocation_block_parse_def parse_ipv4_network_def require_private_network_def)
  then show ?thesis by (simp add: network_manager_new_def map_err_def example_network_manager_def)
qed

lemma example_network_created:
  "create_network example_network_manager example_network_env \<lparr>nq_name = None, nq_subnet = None, nq_gateway = None\<rparr>
   = (Inr \<lparr>nr_id = ''n1'', nr_name = ''outcall-default'', nr_created = True,
          nr_subnet = Some (show_ipv4 170524672 @ ''/24'')\<rparr>,
      [Create_Network ''outcall-default'' ''outcall0'' (show_ipv4 170524672 @ ''/24'') (show_ipv4 170524673)])"
proof -
  have subnet: "parse_agent_subnet plain_ipnet (show_ipv4 170524672 @ ''/24'') = Inr (Ipv4_Net 170524672 24)"
    unfolding plain_net.parse_agent_subnet_Inr
    by (simp add: plain_ipnet_def plain_parse_show_24
        plain_network_def plain_broadcast_def require_private_network_def private_range_def octet_def)
  have first: "first_subnet plain_ipnet (Ipv4_Net 170524672 23) = (show_ipv4 170524672 @ ''/24'', show_ipv4 170524673)"
    by (simp add: first_subnet_def plain_ipnet_def plain_network_def)
  have blank: "trim_start_utf8 ''n1'' = ''n1''" by code_simp
  show ?thesis
    using subnet first blank
    by (simp add: create_network_def choose_subnet_def create_at_docker_def example_network_env_def
        example_network_manager_def validate_network_request_def network_docker_def full_name_def map_err_def
        DEFAULT_NETWORK_NAME_def try_inspect_def is_subnet_in_use_def collect_used_subnets_def
        validate_created_def validate_identity_def validate_configuration_def validate_managed_network_def
        NETWORK_PREFIX_def required_id_def network_first_subnet_def first_gateway_def first_config_def)
qed

theorem created_network_checked_witness:
  "\<exists>n g. parse_agent_subnet plain_ipnet (show_ipv4 170524672 @ ''/24'') = Inr n
     \<and> net4_contains plain_ipnet n g \<and> show_ipv4 170524673 = show_ipv4 g"
  using created_network_checked [OF plain_net.ipnet_axioms plain_prints_back example_network_manager_new
      example_network_created] by auto

end
