(* ===== verification/Operator_Api.thy ===== *)
theory Operator_Api
  imports Bridge_Manager Network_Manager
begin

text \<open>
  The operator's API (outcalld/src/api: access.rs, bridge\_rules.rs, containers.rs, network.rs, services.rs):
  who may call it, and the handlers that change the bridge, the networks and the containers. The lifecycle
  lock serialises these handlers, so a handler is a function of the state of the host.
\<close>

section \<open>access.rs\<close>

record host_peer_cred =
  hp_uid :: u32
  hp_gid :: u32
  hp_pid :: "u32 option"

definition connect_info :: "(u32 \<times> u32 \<times> u32 option) option \<Rightarrow> host_peer_cred" where
  "connect_info peer_cred =
     (case peer_cred of
        Some (uid, gid, pid) \<Rightarrow> \<lparr>hp_uid = uid, hp_gid = gid, hp_pid = pid\<rparr>
      | None \<Rightarrow> \<lparr>hp_uid = - 1, hp_gid = - 1, hp_pid = None\<rparr>)"

definition require_operator_uid :: "u32 \<Rightarrow> u32 \<Rightarrow> host_peer_cred \<Rightarrow> bool" where
  "require_operator_uid daemon_uid operator_uid peer \<longleftrightarrow>
     hp_uid peer = 0 \<or> hp_uid peer = daemon_uid \<or> hp_uid peer = operator_uid"

section \<open>The handlers that change the host\<close>

type_synonym container_listing = "(container_summary \<times> string option \<times> string option \<times> int option) list option"

record 'n operator_config =
  oc_bridge :: bridge_manager
  oc_docker :: docker_manager
  oc_network :: "'n network_manager"
  oc_proxy_running :: bool
  oc_proxy_address :: string
  oc_dns_address :: string

datatype 'n operator_error =
    Teardown_Unverified
  | Containers_Exist "string list"
  | Networks_Exist "string list"
  | Bridge_Failed link_error
  | Docker_Manager_Unavailable
  | Container_Failed docker_error
  | Network_Handler_Failed "'n network_error"

definition bridge_up :: "'s host_ops \<Rightarrow> 'n operator_config \<Rightarrow> 's \<Rightarrow> ('n operator_error, unit) result \<times> 's" where
  "bridge_up ops cfg s = (case bridge_init ops (oc_bridge cfg) s of (r, t) \<Rightarrow> (map_err Bridge_Failed r, t))"

definition bridge_down ::
  "'s host_ops \<Rightarrow> 'n operator_config \<Rightarrow> container_listing \<Rightarrow> network_env \<Rightarrow> string option list option \<Rightarrow> 's
     \<Rightarrow> ('n operator_error, unit) result \<times> 's" where
  "bridge_down ops cfg containers env names s =
     (case list_containers (oc_docker cfg) containers of
        Inl _ \<Rightarrow> (Inl Teardown_Unverified, s)
      | Inr listed \<Rightarrow>
          if listed \<noteq> [] then (Inl (Containers_Exist (map ci_name listed)), s)
          else
            (case list_networks (oc_network cfg) env names of
               Inl _ \<Rightarrow> (Inl Teardown_Unverified, s)
             | Inr networks \<Rightarrow>
                 if networks \<noteq> [] then (Inl (Networks_Exist (map ns_name networks)), s)
                 else (case bridge_teardown ops (oc_bridge cfg) s of (r, t) \<Rightarrow> (map_err Bridge_Failed r, t))))"

definition container_create_handler ::
  "'s host_ops \<Rightarrow> 'n operator_config \<Rightarrow> create_env \<Rightarrow> container_create_request \<Rightarrow> identity_state \<Rightarrow> 's
     \<Rightarrow> ('n operator_error, container_create_result) result \<times> docker_call list \<times> identity_state \<times> 's" where
  "container_create_handler ops cfg env request identities s =
     (if \<not> dm_available (oc_docker cfg) then (Inl Docker_Manager_Unavailable, [], identities, s)
      else
        (case require_enforceable ops s of
           (Inl e, t) \<Rightarrow> (Inl (Bridge_Failed e), [], identities, t)
         | (Inr _, t) \<Rightarrow>
             (case create_container (oc_docker cfg) env request
                     (if oc_proxy_running cfg then Some (oc_proxy_address cfg) else None) (oc_dns_address cfg)
                     identities of
                (r, calls, identities') \<Rightarrow> (map_err Container_Failed r, calls, identities', t))))"

text \<open>The network manager asks for the status of the bridge only for a valid request and with Docker there.\<close>

definition network_create_handler ::
  "'s host_ops \<Rightarrow> 'n operator_config \<Rightarrow> network_env \<Rightarrow> network_create_request \<Rightarrow> 's
     \<Rightarrow> ('n operator_error, network_create_result) result \<times> network_call list \<times> 's" where
  "network_create_handler ops cfg env request s =
     (let (up, t) =
        (if is_ok (validate_network_request request :: ('n network_error, unit) result)
            \<and> is_ok (network_docker (oc_network cfg))
         then (case bridge_status_of ops (oc_bridge cfg) s of
                 (Inr status, t) \<Rightarrow> (Some (bs_up status), t) | (Inl _, t) \<Rightarrow> (None, t))
         else (None, s));
        (r, calls) = create_network (oc_network cfg) (env\<lparr>ne_bridge_up := up\<rparr>) request
      in (map_err Network_Handler_Failed r, calls, t))"

text \<open>The other handlers of containers.rs only look whether Docker is there.\<close>

definition with_docker ::
  "'n operator_config \<Rightarrow> (docker_error, 'a) result \<Rightarrow> ('n operator_error, 'a) result" where
  "with_docker cfg r =
     (if \<not> dm_available (oc_docker cfg) then Inl Docker_Manager_Unavailable else map_err Container_Failed r)"

definition container_list_handler ::
  "'n operator_config \<Rightarrow> container_listing \<Rightarrow> ('n operator_error, container_info list) result" where
  "container_list_handler cfg containers = with_docker cfg (list_containers (oc_docker cfg) containers)"

definition container_inspect_handler ::
  "'n operator_config \<Rightarrow> (string \<Rightarrow> inspect_answer) \<Rightarrow> inspect_fields \<Rightarrow> string
     \<Rightarrow> ('n operator_error, container_inspect_result) result" where
  "container_inspect_handler cfg inspect further name =
     with_docker cfg (inspect_container (oc_docker cfg) inspect further name)"

definition container_stop_handler ::
  "'n operator_config \<Rightarrow> (string \<Rightarrow> inspect_answer) \<Rightarrow> bool \<Rightarrow> string \<Rightarrow> int option \<Rightarrow> identity_state
     \<Rightarrow> ('n operator_error, string \<times> bool) result \<times> docker_call list \<times> identity_state" where
  "container_stop_handler cfg inspect stopped name timeout identities =
     (case stop_container (oc_docker cfg) inspect stopped name timeout identities of
        (r, calls, identities') \<Rightarrow>
          if \<not> dm_available (oc_docker cfg) then (Inl Docker_Manager_Unavailable, [], identities)
          else (with_docker cfg r, calls, identities'))"

definition container_remove_handler ::
  "'n operator_config \<Rightarrow> (string \<Rightarrow> inspect_answer) \<Rightarrow> bool \<Rightarrow> string \<Rightarrow> bool option \<Rightarrow> identity_state
     \<Rightarrow> ('n operator_error, string \<times> bool) result \<times> docker_call list \<times> identity_state" where
  "container_remove_handler cfg inspect removed name force identities =
     (case docker_remove_container (oc_docker cfg) inspect removed name (or_default False force) identities of
        (r, calls, identities') \<Rightarrow>
          if \<not> dm_available (oc_docker cfg) then (Inl Docker_Manager_Unavailable, [], identities)
          else (with_docker cfg r, calls, identities'))"

definition image_pull_handler ::
  "'n operator_config \<Rightarrow> image_answer \<Rightarrow> pull_item list \<Rightarrow> bool \<Rightarrow> image_answer \<Rightarrow> string
     \<Rightarrow> ('n operator_error, string \<times> bool) result" where
  "image_pull_handler cfg before stream timed_out after reference =
     with_docker cfg (pull_image (oc_docker cfg) before stream timed_out after reference)"

definition network_destroy_handler ::
  "'n operator_config \<Rightarrow> network_env \<Rightarrow> string option
     \<Rightarrow> ('n operator_error, string \<times> bool) result \<times> network_call list" where
  "network_destroy_handler cfg env name =
     (case destroy_network (oc_network cfg) env name of (r, calls) \<Rightarrow> (map_err Network_Handler_Failed r, calls))"

section \<open>Sequences of operations\<close>

text \<open>
  What the operator and the daemon do to the bridge: the handlers above, and the reset to the base policy by
  the dynamic rules and at the end of the daemon. What Docker answers is part of the operation.
\<close>

datatype operator_op =
    Bridge_Up
  | Bridge_Down container_listing network_env "string option list option"
  | Policy_Reset
  | Container_Create create_env container_create_request identity_state
  | Network_Create network_env network_create_request

fun operator_do :: "'s host_ops \<Rightarrow> 'n operator_config \<Rightarrow> operator_op \<Rightarrow> 's \<Rightarrow> bool \<times> 's" where
  "operator_do ops cfg Bridge_Up s = map_prod is_ok id (bridge_up ops cfg s)"
| "operator_do ops cfg (Bridge_Down containers env names) s = map_prod is_ok id (bridge_down ops cfg containers env names s)"
| "operator_do ops cfg Policy_Reset s = map_prod is_ok id (policy_call (reset_policy (ho_nft ops) (oc_bridge cfg)) s)"
| "operator_do ops cfg (Container_Create env request identities) s =
     (case container_create_handler ops cfg env request identities s of (r, _, _, t) \<Rightarrow> (is_ok r, t))"
| "operator_do ops cfg (Network_Create env request) s =
     (case network_create_handler ops cfg env request s of (r, _, t) \<Rightarrow> (is_ok r, t))"

text \<open>
  Runs in which the bridge is brought up only with success or with the policy already loaded; every other
  operation may fail at any call.
\<close>

inductive operator_run ::
  "'s host_ops \<Rightarrow> 'n operator_config \<Rightarrow> ('s \<Rightarrow> bool) \<Rightarrow> 's \<Rightarrow> (operator_op \<times> bool) list \<Rightarrow> 's \<Rightarrow> bool"
  for ops cfg policy s where
  Start: "operator_run ops cfg policy s [] s"
| Step: "operator_run ops cfg policy s trace t \<Longrightarrow> operator_do ops cfg act t = (ok, u) \<Longrightarrow>
    (act = Bridge_Up \<Longrightarrow> ok \<or> policy t) \<Longrightarrow> operator_run ops cfg policy s (trace @ [(act, ok)]) u"

context host_kernel
begin

lemma require_enforceable_frame:
  assumes "require_enforceable ops s = (r, t)"
  shows "index_of m t = index_of m s \<and> policy t = policy s"
proof -
  obtain a u where a: "ho_read ops BRIDGE_NF_IPV4 s = (a, u)" by fastforce
  obtain b v where b: "ho_read ops BRIDGE_NF_IPV6 u = (b, v)" by fastforce
  from assms read_frame [OF a] read_frame [OF b] show ?thesis by (auto simp: require_enforceable_def a b)
qed

lemma status_frame:
  assumes "bridge_status_of ops mgr s = (r, t)"
  shows "index_of m t = index_of m s \<and> policy t = policy s"
proof -
  have list: "index_of m v = index_of m u \<and> policy v = policy u"
    if "policy_call (table_active (ho_nft ops)) u = (q, v)" for u q v
    using policy_call_eq [OF that] by (auto simp: table_active_def list_frame split: prod.splits)
  have rest: "index_of m t = index_of m u \<and> policy t = policy u"
    if "host_bind (policy_call (table_active (ho_nft ops))) (\<lambda>active. Pair (Inr (mk active))) u = (r, t)" for u mk
    using that by (rule host_bind_keeps [where K = "\<lambda>t. index_of m t = index_of m u \<and> policy t = policy u"])
      (auto dest: list)
  from assms [unfolded bridge_status_of_def] show ?thesis
    by (rule host_bind_keeps [where K = "\<lambda>t. index_of m t = index_of m s \<and> policy t = policy s"])
      (auto simp: find_frame dest: rest)
qed

lemma operator_do_guarded:
  assumes "operator_do ops cfg act s = (ok, t)" and "act = Bridge_Up \<Longrightarrow> ok \<or> policy s"
    and "guarded (oc_bridge cfg) s"
  shows "guarded (oc_bridge cfg) t"
proof (cases act)
  case Bridge_Up
  with assms(1) obtain r where i: "bridge_init ops (oc_bridge cfg) s = (r, t)" and ok: "ok \<longleftrightarrow> is_ok r"
    by (auto simp: bridge_up_def map_err_def split: prod.splits sum.splits)
  show ?thesis
    using assms(2) [OF Bridge_Up] init_policy [OF i] i ok
    by (auto simp: guarded_def is_ok_iff dest: init_ok)
next
  case (Bridge_Down containers env names)
  with assms(1) have "t = s \<or> (\<exists>r. bridge_teardown ops (oc_bridge cfg) s = (r, t))"
    by (auto simp: bridge_down_def split: prod.splits sum.splits if_splits)
  with assms(3) teardown_order show ?thesis by blast
next
  case Policy_Reset
  with assms(1) obtain r where "policy_call (reset_policy (ho_nft ops) (oc_bridge cfg)) s = (r, t)"
    by (cases "policy_call (reset_policy (ho_nft ops) (oc_bridge cfg)) s") auto
  from reset_policy_effect [OF this] assms(3) show ?thesis by (auto simp: guarded_def)
next
  case (Container_Create env request identities)
  with assms(1) have "t = s \<or> (\<exists>r. require_enforceable ops s = (r, t))"
    by (auto simp: container_create_handler_def split: prod.splits sum.splits if_splits)
  with assms(3) require_enforceable_frame show ?thesis by (auto simp: guarded_def)
next
  case (Network_Create env request)
  with assms(1) have "t = s \<or> (\<exists>r. bridge_status_of ops (oc_bridge cfg) s = (r, t))"
    by (auto simp: network_create_handler_def Let_def split: prod.splits sum.splits if_splits)
  with assms(3) status_frame show ?thesis by (auto simp: guarded_def)
qed

lemma operator_run_guarded:
  assumes "operator_run ops cfg policy s trace t" and "guarded (oc_bridge cfg) s"
  shows "guarded (oc_bridge cfg) t"
  using assms(1) by induction (auto intro: operator_do_guarded assms(2))

end

text \<open>
  C8: whatever the operator does and whatever fails, there is never a bridge without the policy, as long as
  bringing the bridge up does not fail on a host without the policy. Taking it down touches the host only
  when Docker lists no managed container and no managed network; when it reports success both the interface
  and the policy are gone, and it gives up the policy only after the interface.
\<close>

theorem bridge_stays_guarded:
  assumes "host_kernel ops index_of policy" and "operator_run ops cfg policy s trace t"
    and "policy s \<or> index_of (br_name (oc_bridge cfg)) s = None"
  shows "(policy t \<or> index_of (br_name (oc_bridge cfg)) t = None)
    \<and> (bridge_down ops cfg containers env names t = (r, u) \<longrightarrow>
        (u = t \<or> list_containers (oc_docker cfg) containers = Inr []
           \<and> list_networks (oc_network cfg) env names = Inr [])
        \<and> (policy t \<and> \<not> policy u \<longrightarrow> index_of (br_name (oc_bridge cfg)) u = None)
        \<and> (r = Inr () \<longrightarrow> index_of (br_name (oc_bridge cfg)) u = None \<and> \<not> policy u))"
proof (intro conjI impI)
  show "policy t \<or> index_of (br_name (oc_bridge cfg)) t = None"
    using host_kernel.operator_run_guarded [OF assms(1,2)] assms(3)
    by (simp add: host_kernel.guarded_def [OF assms(1)])
next
  assume down: "bridge_down ops cfg containers env names t = (r, u)"
  then have cases: "u = t \<and> r \<noteq> Inr () \<or> list_containers (oc_docker cfg) containers = Inr []
      \<and> list_networks (oc_network cfg) env names = Inr []
      \<and> (\<exists>q. bridge_teardown ops (oc_bridge cfg) t = (q, u) \<and> (r = Inr () \<longrightarrow> q = Inr ()))"
    by (auto simp: bridge_down_def map_err_def split: prod.splits sum.splits if_splits)
  then show "u = t \<or> list_containers (oc_docker cfg) containers = Inr []
      \<and> list_networks (oc_network cfg) env names = Inr []" by blast
  note order = host_kernel.teardown_order [OF assms(1)]
  show "policy t \<and> \<not> policy u \<Longrightarrow> index_of (br_name (oc_bridge cfg)) u = None"
    using cases order by blast
  show "r = Inr () \<Longrightarrow> index_of (br_name (oc_bridge cfg)) u = None" using cases order by blast
  show "r = Inr () \<Longrightarrow> \<not> policy u" using cases order by blast
qed

section \<open>An example\<close>

definition example_operator :: "ipv4_net operator_config" where
  "example_operator =
     \<lparr>oc_bridge = demo_bridge, oc_docker = example_manager, oc_network = example_network_manager,
      oc_proxy_running = True, oc_proxy_address = ''10.0.0.1:8080'', oc_dns_address = ''10.0.0.1''\<rparr>"

text \<open>A host without the bridge, and the same host with it; the argument are the faults of nft.\<close>

definition fresh_host :: "nft_fault list \<Rightarrow> sim_host" where
  "fresh_host faults =
     \<lparr>sh_links = [(''lo'', 1, Kind_Other)], sh_settings = [(BRIDGE_NF_IPV4, ''1''), (BRIDGE_NF_IPV6, ''0'')],
      sh_nft = \<lparr>k_table = False, k_rules = [], k_faults = faults\<rparr>, sh_faults = []\<rparr>"

definition linked_host :: "bool \<Rightarrow> nft_fault list \<Rightarrow> sim_host" where
  "linked_host table faults =
     \<lparr>sh_links = [(''outcall0'', 2, Kind_Bridge), (''lo'', 1, Kind_Other)],
      sh_settings = [(BRIDGE_NF_IPV4, ''1''), (BRIDGE_NF_IPV6, ''1'')],
      sh_nft = \<lparr>k_table = table, k_rules = [], k_faults = faults\<rparr>, sh_faults = []\<rparr>"

lemmas host_eval = fresh_host_def linked_host_def sim_host_ops_def sim_netlink_def sim_link_def demo_bridge_def
  host_bind_def netlink_def policy_call_def

lemma example_settings:
  "trim_utf8 ''0'' = ''0''" "trim_utf8 ''1'' = ''1''" "BRIDGE_NF_IPV4 \<noteq> BRIDGE_NF_IPV6"
  by code_simp+

lemma example_find:
  "find_bridge_index sim_host_ops demo_bridge (fresh_host faults) = (Inr None, fresh_host faults)"
  "find_bridge_index sim_host_ops demo_bridge (linked_host table faults) = (Inr (Some 2), linked_host table faults)"
  by (simp_all add: find_bridge_index_def host_eval is_bridge_def)

lemma example_init:
  "bridge_init sim_host_ops demo_bridge (fresh_host faults) =
     policy_call (apply_base (on_nft delete_nft) ''outcall0'' (br_host_services demo_bridge)) (linked_host False faults)"
proof -
  have "ensure_link sim_host_ops demo_bridge (fresh_host faults)
      = (Inr 2, (linked_host False faults)\<lparr>sh_settings := [(BRIDGE_NF_IPV4, ''1''), (BRIDGE_NF_IPV6, ''0'')]\<rparr>)"
    by (simp add: ensure_link_def attach_link_def host_bind_def example_find)
      (simp add: host_eval find_bridge_index_def is_bridge_def)
  then show ?thesis
    by (simp add: bridge_init_def host_bind_def ensure_gateway_address_def netfilter_enable_def enable_setting_def)
      (simp add: host_eval example_settings example_settings(3) [symmetric])
qed

lemma example_apply:
  "apply_base (on_nft delete_nft) ''outcall0'' services (linked_host False faults) =
     (case faults of
        [] \<Rightarrow> (Inr (), linked_host True [])
      | [Fine, Refuse] \<Rightarrow> (Inl (Nft_Exited ''Operation not permitted''), linked_host False [])
      | _ \<Rightarrow> apply_base (on_nft delete_nft) ''outcall0'' services (linked_host False faults))"
proof -
  have m: "table_missing ''No such file or directory''" "trim ''Operation not permitted'' = ''Operation not permitted''"
    by code_simp+
  have "\<not> prefix delete_table_line (render_base n services)" for n
    by (simp add: render_base_def delete_table_line_def Let_def)
  then show ?thesis
    using m by (auto simp: apply_base_def table_active_def run_policy_def on_nft_def delete_nft_def sim_nft_def
      linked_host_def sim_apply_def insert_args_def render_transaction_def Let_def split: list.split nft_fault.split)
qed

lemma example_bridge_up:
  "bridge_up sim_host_ops example_operator (fresh_host []) = (Inr (), linked_host True [])"
  "bridge_up sim_host_ops example_operator (fresh_host [Fine, Refuse])
     = (Inl (Bridge_Failed (Policy_Failed (Nft_Exited ''Operation not permitted''))), linked_host False [])"
  using example_apply [of "br_host_services demo_bridge" "[]"]
    example_apply [of "br_host_services demo_bridge" "[Fine, Refuse]"]
  by (simp_all add: bridge_up_def example_operator_def example_init policy_call_def map_err_def)

theorem bridge_stays_guarded_witness:
  "operator_run sim_host_ops example_operator sim_policy (fresh_host []) [(Bridge_Up, True)] (linked_host True [])
   \<and> sim_policy (linked_host True [])"
proof -
  have run: "operator_run sim_host_ops example_operator sim_policy (fresh_host []) ([] @ [(Bridge_Up, True)])
      (linked_host True [])"
    by (rule operator_run.Step [OF operator_run.Start]) (simp_all add: example_bridge_up)
  have "sim_index ''outcall0'' (fresh_host []) = None" "sim_index ''outcall0'' (linked_host True []) \<noteq> None"
    by (simp_all add: sim_index_def fresh_host_def linked_host_def)
  with bridge_stays_guarded [OF sim_kernel.host_kernel_axioms run] run show ?thesis
    by (auto simp: example_operator_def demo_bridge_def)
qed

lemma example_status:
  "bridge_status_of sim_host_ops demo_bridge (linked_host False [])
   = (Inr \<lparr>bs_name = ''outcall0'', bs_up = True, bs_index = Some 2, bs_nftables_active = False\<rparr>, linked_host False [])"
proof -
  have "table_missing ''No such file or directory''" by code_simp
  then have "table_active (ho_nft sim_host_ops) (linked_host False []) = (Inr False, linked_host False [])"
    by (simp add: table_active_def sim_host_ops_def on_nft_def delete_nft_def sim_nft_def sim_list_apply linked_host_def)
  then show ?thesis
    by (simp add: bridge_status_of_def host_bind_def example_find policy_call_def) (simp add: demo_bridge_def)
qed

lemma example_enforceable: "require_enforceable sim_host_ops (linked_host False []) = (Inr (), linked_host False [])"
  by (simp add: require_enforceable_def sim_host_ops_def linked_host_def settings_enforceable_def read_setting_def
      example_settings example_settings(3) [symmetric])

text \<open>
  When nft refuses the policy, the bridge stays up without it; a network is created on it and a container is
  handed to Docker all the same, since neither handler asks whether the policy is active.
\<close>

lemma failed_bridge_up_admits_containers:
  "\<exists>e host. bridge_up sim_host_ops example_operator (fresh_host [Fine, Refuse]) = (Inl e, host)
     \<and> \<not> sim_policy host \<and> sim_index ''outcall0'' host = Some 2
     \<and> fst (network_create_handler sim_host_ops example_operator example_network_env
         \<lparr>nq_name = None, nq_subnet = None, nq_gateway = None\<rparr> host)
       = Inr \<lparr>nr_id = ''n1'', nr_name = ''outcall-default'', nr_created = True,
           nr_subnet = Some (show_ipv4 170524672 @ ''/24'')\<rparr>
     \<and> fst (snd (container_create_handler sim_host_ops example_operator example_env example_request identity_new host)) \<noteq> []"
proof (intro exI conjI)
  show "bridge_up sim_host_ops example_operator (fresh_host [Fine, Refuse])
      = (Inl (Bridge_Failed (Policy_Failed (Nft_Exited ''Operation not permitted''))), linked_host False [])"
    by (rule example_bridge_up)
  show "\<not> sim_policy (linked_host False [])" "sim_index ''outcall0'' (linked_host False []) = Some 2"
    by (simp_all add: sim_policy_def sim_index_def linked_host_def)
  have "example_network_env\<lparr>ne_bridge_up := Some True\<rparr> = example_network_env" by (simp add: example_network_env_def)
  then show "fst (network_create_handler sim_host_ops example_operator example_network_env
         \<lparr>nq_name = None, nq_subnet = None, nq_gateway = None\<rparr> (linked_host False []))
       = Inr \<lparr>nr_id = ''n1'', nr_name = ''outcall-default'', nr_created = True,
           nr_subnet = Some (show_ipv4 170524672 @ ''/24'')\<rparr>"
    by (simp add: network_create_handler_def example_operator_def validate_network_request_def network_docker_def
        example_status example_network_created example_network_manager_def [THEN arg_cong, of nm_available] map_err_def)
  have "dm_available example_manager" using example_available by (auto simp: docker_client_def result_simps)
  then show "fst (snd (container_create_handler sim_host_ops example_operator example_env example_request identity_new
      (linked_host False []))) \<noteq> []"
    using example_prepared
    by (auto simp: container_create_handler_def example_operator_def example_enforceable create_container_def
        rollback_error_def split: sum.splits prod.splits)
qed

end
