(* ===== verification/Proxy_Tls.thy ===== *)
theory Proxy_Tls
  imports State_File Agent_Context
begin

text \<open>
  The TLS ClientHello parser of the proxy (outcalld/src/proxy/tls.rs): the length of the first record
  and the server name the client asks for. Its two loops are partial functions, so that returning at
  all is a theorem and not a convention. \<open>url::Host::parse\<close> is a parameter: whether a text parses as
  a domain.
\<close>

section \<open>tls.rs\<close>

definition MAX_TLS_RECORD_PAYLOAD :: nat where
  "MAX_TLS_RECORD_PAYLOAD = 16 * 1024"

datatype client_hello_error = Invalid_Hello | Hello_Too_Large

definition be16 :: "string \<Rightarrow> nat" where
  "be16 bytes = byte (bytes ! 0) * 256 + byte (bytes ! 1)"

definition record_payload_length :: "string \<Rightarrow> (client_hello_error, nat) result" where
  "record_payload_length header =
     (if byte (header ! 0) \<noteq> 0x16 \<or> byte (header ! 1) \<noteq> 0x03 then Inl Invalid_Hello
      else
        let l = be16 [header ! 3, header ! 4]
        in if \<not> (4 \<le> l \<and> l \<le> MAX_TLS_RECORD_PAYLOAD)
           then Inl (if MAX_TLS_RECORD_PAYLOAD < l then Hello_Too_Large else Invalid_Hello)
           else Inr l)"

record cursor =
  cu_bytes :: string
  cu_position :: nat
  cu_end :: nat

definition cursor_new :: "string \<Rightarrow> nat \<Rightarrow> nat \<Rightarrow> cursor" where
  "cursor_new bytes position e = \<lparr>cu_bytes = bytes, cu_position = position, cu_end = e\<rparr>"

definition checked_add :: "nat \<Rightarrow> nat \<Rightarrow> (client_hello_error, nat) result" where
  "checked_add a b = (if a + b < 2 ^ 64 then Inr (a + b) else Inl Invalid_Hello)"

definition read_u8 :: "cursor \<Rightarrow> (client_hello_error, nat \<times> cursor) result" where
  "read_u8 cur =
     (if cu_position cur < length (cu_bytes cur) \<and> cu_position cur < cu_end cur
      then Inr (byte (cu_bytes cur ! cu_position cur), cur\<lparr>cu_position := cu_position cur + 1\<rparr>)
      else Inl Invalid_Hello)"

definition read_bytes :: "nat \<Rightarrow> cursor \<Rightarrow> (client_hello_error, string \<times> cursor) result" where
  "read_bytes n cur =
     res_bind (checked_add (cu_position cur) n) (\<lambda>next_position.
       if cu_end cur < next_position \<or> length (cu_bytes cur) < next_position then Inl Invalid_Hello
       else Inr (take n (drop (cu_position cur) (cu_bytes cur)), cur\<lparr>cu_position := next_position\<rparr>))"

definition read_u16 :: "cursor \<Rightarrow> (client_hello_error, nat \<times> cursor) result" where
  "read_u16 cur = res_bind (read_bytes 2 cur) (\<lambda>(bytes, cur). Inr (be16 bytes, cur))"

definition skip :: "nat \<Rightarrow> cursor \<Rightarrow> (client_hello_error, cursor) result" where
  "skip n cur = res_bind (read_bytes n cur) (\<lambda>(_, cur). Inr cur)"

text \<open>A name of the server name list, checked and normalised.\<close>

definition server_name :: "(string \<Rightarrow> bool) \<Rightarrow> string \<Rightarrow> (client_hello_error, string) result" where
  "server_name is_domain name =
     (if \<not> valid_utf8 name \<or> name = [] \<or> \<not> list_all (\<lambda>c. byte c < 128) name \<or> CHR ''*'' \<in> set name
         \<or> has_control name
      then Inl Invalid_Hello
      else
        let normalized = map to_ascii_lower (trim_end_matches CHR ''.'' name)
        in if normalized = [] \<or> \<not> is_domain normalized then Inl Invalid_Hello else Inr normalized)"

partial_function (option) server_name_loop ::
  "(string \<Rightarrow> bool) \<Rightarrow> nat \<Rightarrow> cursor \<Rightarrow> (client_hello_error, string) result option" where
  "server_name_loop is_domain e cur =
     (if cu_position cur < e
      then (case read_u8 cur of
              Inl x \<Rightarrow> Some (Inl x)
            | Inr (name_type, cur) \<Rightarrow>
                (case res_bind (read_u16 cur) (\<lambda>(n, cur). read_bytes n cur) of
                   Inl x \<Rightarrow> Some (Inl x)
                 | Inr (name, cur) \<Rightarrow>
                     if name_type \<noteq> 0 then server_name_loop is_domain e cur
                     else Some (server_name is_domain name)))
      else Some (Inl Invalid_Hello))"

definition parse_server_name_extension ::
  "(string \<Rightarrow> bool) \<Rightarrow> string \<Rightarrow> nat \<Rightarrow> nat \<Rightarrow> (client_hello_error, string) result option" where
  "parse_server_name_extension is_domain record_bytes start e =
     (case read_u16 (cursor_new record_bytes start e) of
        Inl x \<Rightarrow> Some (Inl x)
      | Inr (list_length, cur) \<Rightarrow>
          if checked_add (cu_position cur) list_length \<noteq> Inr e then Some (Inl Invalid_Hello)
          else server_name_loop is_domain e cur)"

partial_function (option) extensions_loop ::
  "(string \<Rightarrow> bool) \<Rightarrow> string \<Rightarrow> nat \<Rightarrow> cursor
     \<Rightarrow> (client_hello_error, string option) result option" where
  "extensions_loop is_domain record_bytes e cur =
     (if cu_position cur < e
      then (case res_bind (read_u16 cur) (\<lambda>(extension_type, cur).
                 res_bind (read_u16 cur) (\<lambda>(extension_length, cur).
                 res_bind (checked_add (cu_position cur) extension_length) (\<lambda>extension_end.
                   Inr (extension_type, extension_end, cur)))) of
              Inl x \<Rightarrow> Some (Inl x)
            | Inr (extension_type, extension_end, cur) \<Rightarrow>
                if e < extension_end then Some (Inl Invalid_Hello)
                else if extension_type = 0
                then map_option (\<lambda>r. res_bind r (\<lambda>name. Inr (Some name)))
                       (parse_server_name_extension is_domain record_bytes (cu_position cur)
                         extension_end)
                else extensions_loop is_domain record_bytes e (cur\<lparr>cu_position := extension_end\<rparr>))
      else Some (Inr None))"

text \<open>The fixed part of the hello, up to the compression methods.\<close>

definition skip_hello_fields :: "cursor \<Rightarrow> (client_hello_error, cursor) result" where
  "skip_hello_fields cur =
     res_bind (skip 2 cur) (\<lambda>cur.
     res_bind (skip 32 cur) (\<lambda>cur.
     res_bind (read_u8 cur) (\<lambda>(session_id_length, cur).
     res_bind (skip session_id_length cur) (\<lambda>cur.
     res_bind (read_u16 cur) (\<lambda>(cipher_suites_length, cur).
     if cipher_suites_length = 0 \<or> \<not> 2 dvd cipher_suites_length then Inl Invalid_Hello
     else
       res_bind (skip cipher_suites_length cur) (\<lambda>cur.
       res_bind (read_u8 cur) (\<lambda>(compression_methods_length, cur).
       if compression_methods_length = 0 then Inl Invalid_Hello
       else skip compression_methods_length cur)))))))"

text \<open>The bounds of the hello within its record.\<close>

definition hello_bounds :: "string \<Rightarrow> (client_hello_error, nat) result" where
  "hello_bounds record_bytes =
     (if length record_bytes < 5 then Inl Invalid_Hello
      else
        res_bind (record_payload_length (take 5 record_bytes)) (\<lambda>payload_length.
        if length record_bytes \<noteq> payload_length + 5 \<or> byte (record_bytes ! 5) \<noteq> 0x01
        then Inl Invalid_Hello
        else
          let handshake_length = byte (record_bytes ! 6) * 2 ^ 16 + byte (record_bytes ! 7) * 2 ^ 8
                + byte (record_bytes ! 8)
          in res_bind (checked_add 9 handshake_length) (\<lambda>hello_end.
             if length record_bytes < hello_end then Inl Invalid_Hello else Inr hello_end)))"

definition extract_sni ::
  "(string \<Rightarrow> bool) \<Rightarrow> string \<Rightarrow> (client_hello_error, string option) result option" where
  "extract_sni is_domain record_bytes =
     (case res_bind (hello_bounds record_bytes) (\<lambda>hello_end.
           res_bind (skip_hello_fields (cursor_new record_bytes 9 hello_end)) (\<lambda>cur.
             Inr (hello_end, cur))) of
        Inl x \<Rightarrow> Some (Inl x)
      | Inr (hello_end, cur) \<Rightarrow>
          if cu_position cur = hello_end then Some (Inr None)
          else
            (case res_bind (read_u16 cur) (\<lambda>(extensions_length, cur).
                  res_bind (checked_add (cu_position cur) extensions_length) (\<lambda>extensions_end.
                    Inr (extensions_end, cur))) of
               Inl x \<Rightarrow> Some (Inl x)
             | Inr (extensions_end, cur) \<Rightarrow>
                 if extensions_end \<noteq> hello_end then Some (Inl Invalid_Hello)
                 else extensions_loop is_domain record_bytes extensions_end cur))"

section \<open>The loops end\<close>

lemma read_u8_Inr:
  "read_u8 cur = Inr (b, cur') \<longleftrightarrow> cu_position cur < length (cu_bytes cur) \<and> cu_position cur < cu_end cur
     \<and> b = byte (cu_bytes cur ! cu_position cur) \<and> cur' = cur\<lparr>cu_position := cu_position cur + 1\<rparr>"
  by (auto simp: read_u8_def)

lemma read_bytes_Inr:
  "read_bytes n cur = Inr (bs, cur') \<longleftrightarrow> cu_position cur + n < 2 ^ 64 \<and> cu_position cur + n \<le> cu_end cur
     \<and> cu_position cur + n \<le> length (cu_bytes cur) \<and> bs = take n (drop (cu_position cur) (cu_bytes cur))
     \<and> cur' = cur\<lparr>cu_position := cu_position cur + n\<rparr>"
  by (auto simp: read_bytes_def checked_add_def result_simps split: if_splits)

lemma read_u16_Inr:
  "read_u16 cur = Inr (v, cur') \<longleftrightarrow> (\<exists>bs. read_bytes 2 cur = Inr (bs, cur') \<and> v = be16 bs)"
  by (auto simp: read_u16_def result_simps)

lemmas cursor_reads = read_u8_Inr read_u16_Inr read_bytes_Inr

lemma server_name_loop_returns: "\<exists>r. server_name_loop is_domain e cur = Some r"
proof (induction "e - cu_position cur" arbitrary: cur rule: less_induct)
  case less
  have step: "\<exists>r. server_name_loop is_domain e cur' = Some r"
    if "cu_position cur < e" and "read_u8 cur = Inr (b, c1)" and "read_u16 c1 = Inr (n, c2)"
      and "read_bytes n c2 = Inr (bs, cur')" for b c1 n c2 bs cur'
    using that by (intro less) (auto simp: cursor_reads)
  show ?case
    by (subst server_name_loop.simps) (auto simp: res_bind_def intro: step split: sum.splits)
qed

lemma parse_server_name_extension_returns:
  "\<exists>r. parse_server_name_extension is_domain record_bytes start e = Some r"
  using server_name_loop_returns
  by (auto simp: parse_server_name_extension_def split: sum.splits)

lemma extensions_loop_returns: "\<exists>r. extensions_loop is_domain record_bytes e cur = Some r"
proof (induction "e - cu_position cur" arbitrary: cur rule: less_induct)
  case less
  have step: "\<exists>r. extensions_loop is_domain record_bytes e (c2\<lparr>cu_position := x\<rparr>) = Some r"
    if "cu_position cur < e" and "read_u16 cur = Inr (ty, c1)" and "read_u16 c1 = Inr (n, c2)"
      and "checked_add (cu_position c2) n = Inr x" for ty c1 n c2 x
    using that by (intro less) (auto simp: cursor_reads checked_add_def split: if_splits)
  show ?case
    using parse_server_name_extension_returns
    by (subst extensions_loop.simps) (auto simp: res_bind_def intro: step split: sum.splits)
qed

lemma extract_sni_returns: "\<exists>r. extract_sni is_domain record_bytes = Some r"
  using extensions_loop_returns by (auto simp: extract_sni_def split: sum.splits)

text \<open>A name that is returned went through \<open>server_name\<close>.\<close>

definition checked_name :: "(string \<Rightarrow> bool) \<Rightarrow> string \<Rightarrow> bool" where
  "checked_name is_domain name \<longleftrightarrow> (\<exists>raw. server_name is_domain raw = Inr name)"

lemma checked_nameI: "server_name is_domain raw = Inr name \<Longrightarrow> checked_name is_domain name"
  by (auto simp: checked_name_def)

lemma server_name_loop_checked:
  "server_name_loop is_domain e cur = Some (Inr name) \<Longrightarrow> checked_name is_domain name"
proof (induction "e - cu_position cur" arbitrary: cur rule: less_induct)
  case less
  have step: "checked_name is_domain name"
    if "cu_position cur < e" and "read_u8 cur = Inr (b, c1)" and "read_u16 c1 = Inr (n, c2)"
      and "read_bytes n c2 = Inr (bs, cur')" and "server_name_loop is_domain e cur' = Some (Inr name)"
    for b c1 n c2 bs cur'
    using that by (intro less) (auto simp: cursor_reads)
  from less.prems show ?case
    by (subst (asm) server_name_loop.simps)
      (auto simp: res_bind_def split: sum.splits if_splits; blast intro: step checked_nameI)
qed

lemma parse_server_name_checked:
  "parse_server_name_extension is_domain record_bytes start e = Some (Inr name) \<Longrightarrow>
     checked_name is_domain name"
  using server_name_loop_checked
  by (auto simp: parse_server_name_extension_def split: sum.splits if_splits)

lemma extensions_loop_checked:
  "extensions_loop is_domain record_bytes e cur = Some (Inr (Some name)) \<Longrightarrow>
     checked_name is_domain name"
proof (induction "e - cu_position cur" arbitrary: cur rule: less_induct)
  case less
  have step: "checked_name is_domain name"
    if "cu_position cur < e" and "read_u16 cur = Inr (ty, c1)" and "read_u16 c1 = Inr (n, c2)"
      and "checked_add (cu_position c2) n = Inr x"
      and "extensions_loop is_domain record_bytes e (c2\<lparr>cu_position := x\<rparr>) = Some (Inr (Some name))"
    for ty c1 n c2 x
    using that by (intro less) (auto simp: cursor_reads checked_add_def split: if_splits)
  from less.prems show ?case
    by (subst (asm) extensions_loop.simps)
      (auto simp: result_simps intro: step parse_server_name_checked split: sum.splits if_splits)
qed

lemma extract_sni_checked:
  "extract_sni is_domain record_bytes = Some (Inr (Some name)) \<Longrightarrow>
     checked_name is_domain name"
  using extensions_loop_checked by (auto simp: extract_sni_def split: sum.splits if_splits)

lemma to_ascii_lower_byte: "byte c < 128 \<Longrightarrow> byte (to_ascii_lower c) < 128"
  by (auto simp: to_ascii_lower_def is_ascii_upper_def)

lemma checked_name_normal:
  assumes "checked_name is_domain name"
  shows "is_domain name \<and> name \<noteq> [] \<and> last name \<noteq> CHR ''.''
    \<and> list_all (\<lambda>c. byte c < 128 \<and> \<not> is_ascii_upper c) name"
proof -
  obtain raw where "server_name is_domain raw = Inr name" using assms by (auto simp: checked_name_def)
  then have name: "name = map to_ascii_lower (trim_end_matches CHR ''.'' raw)" "name \<noteq> []" "is_domain name"
    and ascii: "list_all (\<lambda>c. byte c < 128) raw"
    by (auto simp: server_name_def Let_def split: if_splits)
  have trimmed: "trim_end_matches CHR ''.'' raw \<noteq> []" using name by auto
  then have "last (trim_end_matches CHR ''.'' raw) \<noteq> CHR ''.''"
    using hd_dropWhile [of "\<lambda>x. x = CHR ''.''" "rev raw"]
    by (simp add: trim_end_matches_def last_rev)
  moreover have "set (trim_end_matches CHR ''.'' raw) \<subseteq> set raw"
    unfolding trim_end_matches_def using set_dropWhileD by fastforce
  ultimately show ?thesis
    using name ascii trimmed to_ascii_lower_byte to_ascii_lower_not_upper
    by (auto simp: list_all_iff last_map to_ascii_lower_dot)
qed

section \<open>A client's hello\<close>

text \<open>
  The encoding of a ClientHello in one record: version, random, session id, cipher suites, compression
  methods, and extensions, one of which may be the list of server names.
\<close>

definition be16_bytes :: "nat \<Rightarrow> string" where
  "be16_bytes n = [char_of (n div 256), char_of (n mod 256)]"

definition tls_extension :: "nat \<times> string \<Rightarrow> string" where
  "tls_extension x = be16_bytes (fst x) @ be16_bytes (length (snd x)) @ snd x"

definition host_name_list :: "string \<Rightarrow> string" where
  "host_name_list name = be16_bytes (length name + 3) @ CHR 0x00 # be16_bytes (length name) @ name"

record hello =
  he_version :: string
  he_random :: string
  he_session :: string
  he_suites :: string
  he_compression :: string

definition wf_hello :: "hello \<Rightarrow> bool" where
  "wf_hello h \<longleftrightarrow> length (he_version h) = 2 \<and> length (he_random h) = 32 \<and> length (he_session h) < 256
     \<and> 0 < length (he_suites h) \<and> 2 dvd length (he_suites h) \<and> length (he_suites h) < 2 ^ 16
     \<and> 0 < length (he_compression h) \<and> length (he_compression h) < 256"

definition hello_fields :: "hello \<Rightarrow> string" where
  "hello_fields h = he_version h @ he_random h @ char_of (length (he_session h)) # he_session h
     @ be16_bytes (length (he_suites h)) @ he_suites h
     @ char_of (length (he_compression h)) # he_compression h"

definition hello_record :: "char \<Rightarrow> hello \<Rightarrow> string \<Rightarrow> string" where
  "hello_record minor h extensions =
     (let body = hello_fields h @ be16_bytes (length extensions) @ extensions
      in [CHR 0x16, CHR 0x03, minor] @ be16_bytes (length body + 4)
         @ [CHR 0x01, char_of (length body div 2 ^ 16)] @ be16_bytes (length body mod 2 ^ 16) @ body)"

definition wf_extension :: "nat \<times> string \<Rightarrow> bool" where
  "wf_extension x \<longleftrightarrow> fst x < 2 ^ 16 \<and> fst x \<noteq> 0 \<and> length (snd x) < 2 ^ 16"

text \<open>The bytes a cursor has still to read.\<close>

definition remaining :: "cursor \<Rightarrow> string \<Rightarrow> bool" where
  "remaining cur x \<longleftrightarrow> length (cu_bytes cur) < 2 ^ 32
     \<and> (\<exists>pre post. cu_bytes cur = pre @ x @ post \<and> cu_position cur = length pre
          \<and> cu_end cur = length pre + length x)"

definition advance :: "nat \<Rightarrow> cursor \<Rightarrow> cursor" where
  "advance n cur = cur\<lparr>cu_position := cu_position cur + n\<rparr>"

lemma advance_simps [simp]:
  "cu_bytes (advance n cur) = cu_bytes cur" "cu_end (advance n cur) = cu_end cur"
  "cu_position (advance n cur) = cu_position cur + n"
  "advance m (advance n cur) = advance (n + m) cur"
  by (simp_all add: advance_def add.assoc)

lemma remaining_length:
  "remaining cur x \<Longrightarrow> cu_position cur + length x = cu_end cur \<and> cu_end cur < 2 ^ 32"
  by (auto simp: remaining_def)

lemma remaining_advance:
  assumes "remaining cur (x @ y)" and "n = length x" shows "remaining (advance n cur) y"
proof -
  obtain pre post where "length (cu_bytes cur) < 2 ^ 32" "cu_bytes cur = pre @ (x @ y) @ post"
    "cu_position cur = length pre" "cu_end cur = length pre + length (x @ y)"
    using assms(1) by (auto simp: remaining_def)
  then show ?thesis
    unfolding remaining_def assms(2) by (intro conjI exI [of _ "pre @ x"] exI [of _ post]) simp_all
qed

lemma remaining_read:
  assumes "remaining cur (x @ y)" and "n = length x"
  shows "read_bytes n cur = Inr (x, advance n cur)"
  using assms by (auto simp: remaining_def read_bytes_Inr advance_def)

lemma remaining_skip:
  "remaining cur (x @ y) \<Longrightarrow> length x = n \<Longrightarrow>
     skip n cur = Inr (advance n cur) \<and> remaining (advance n cur) y"
  using remaining_advance [of cur x y n] by (simp add: skip_def remaining_read)

lemma remaining_u8:
  assumes "remaining cur (c # y)"
  shows "read_u8 cur = Inr (byte c, advance 1 cur) \<and> remaining (advance 1 cur) y"
proof
  show "remaining (advance 1 cur) y" using remaining_advance [of cur "[c]" y 1] assms by simp
  from assms show "read_u8 cur = Inr (byte c, advance 1 cur)"
    by (auto simp: remaining_def read_u8_Inr advance_def)
qed

lemma be16_round: "n < 2 ^ 16 \<Longrightarrow> be16 (be16_bytes n) = n"
  by (simp add: be16_def be16_bytes_def)

lemma length_be16_bytes [simp]: "length (be16_bytes n) = 2"
  by (simp add: be16_bytes_def)

lemma remaining_u16:
  "remaining cur (be16_bytes n @ y) \<Longrightarrow> n < 2 ^ 16 \<Longrightarrow>
     read_u16 cur = Inr (n, advance 2 cur) \<and> remaining (advance 2 cur) y"
  using remaining_read [of cur "be16_bytes n" y 2] remaining_advance [of cur "be16_bytes n" y 2]
  by (simp add: read_u16_def be16_round)

text \<open>A part of what remains, behind a cursor of its own.\<close>

lemma remaining_part:
  assumes "remaining cur (x @ y)"
  shows "remaining (cursor_new (cu_bytes cur) (cu_position cur) (cu_position cur + length x)) x"
  using assms by (auto simp: remaining_def cursor_new_def)

lemma skip_hello_fields_reads:
  assumes "remaining cur (hello_fields h @ y)" and "wf_hello h"
  shows "skip_hello_fields cur = Inr (advance (length (hello_fields h)) cur)
    \<and> remaining (advance (length (hello_fields h)) cur) y"
proof -
  note wf = assms(2) [unfolded wf_hello_def]
  let ?c = "he_compression h" and ?s = "he_suites h" and ?i = "he_session h"
  have "remaining cur (he_version h @ he_random h @ char_of (length ?i) # ?i
     @ be16_bytes (length ?s) @ ?s @ char_of (length ?c) # ?c @ y)"
    using assms(1) by (simp add: hello_fields_def)
  from remaining_skip [OF this, of 2] have 1: "skip 2 cur = Inr (advance 2 cur)"
    "remaining (advance 2 cur) (he_random h @ char_of (length ?i) # ?i @ be16_bytes (length ?s) @ ?s
       @ char_of (length ?c) # ?c @ y)" using wf by simp_all
  from remaining_skip [OF 1(2), of 32] have 2: "skip 32 (advance 2 cur) = Inr (advance 34 cur)"
    "remaining (advance 34 cur) (char_of (length ?i) # ?i @ be16_bytes (length ?s) @ ?s
       @ char_of (length ?c) # ?c @ y)" using wf by simp_all
  from remaining_u8 [OF 2(2)] have 3: "read_u8 (advance 34 cur) = Inr (length ?i, advance 35 cur)"
    "remaining (advance 35 cur) (?i @ be16_bytes (length ?s) @ ?s @ char_of (length ?c) # ?c @ y)"
    using wf by simp_all
  let ?n = "35 + length ?i"
  from remaining_skip [OF 3(2) refl] have 4: "skip (length ?i) (advance 35 cur) = Inr (advance ?n cur)"
    "remaining (advance ?n cur) (be16_bytes (length ?s) @ ?s @ char_of (length ?c) # ?c @ y)"
    by simp_all
  from remaining_u16 [OF 4(2)] have 5: "read_u16 (advance ?n cur) = Inr (length ?s, advance (?n + 2) cur)"
    "remaining (advance (?n + 2) cur) (?s @ char_of (length ?c) # ?c @ y)" using wf by simp_all
  let ?m = "?n + 2 + length ?s"
  from remaining_skip [OF 5(2) refl]
  have 6: "skip (length ?s) (advance (?n + 2) cur) = Inr (advance ?m cur)"
    "remaining (advance ?m cur) (char_of (length ?c) # ?c @ y)" by simp_all
  from remaining_u8 [OF 6(2)] have 7: "read_u8 (advance ?m cur) = Inr (length ?c, advance (?m + 1) cur)"
    "remaining (advance (?m + 1) cur) (?c @ y)" using wf by simp_all
  have len: "length (hello_fields h) = ?m + 1 + length ?c"
    using wf by (simp add: hello_fields_def)
  from remaining_skip [OF 7(2) refl] show ?thesis
    unfolding len skip_hello_fields_def using wf
    by (simp add: 1(1) 2(1) 3(1) 4(1) 5(1) [simplified] 6(1) [simplified] 7(1) [simplified])
qed

lemma server_name_list_reads:
  assumes "remaining cur (host_name_list name)" and "length name < 2 ^ 16 - 3"
  shows "parse_server_name_extension is_domain (cu_bytes cur) (cu_position cur) (cu_end cur)
    = Some (server_name is_domain name)"
proof -
  have cur: "cursor_new (cu_bytes cur) (cu_position cur) (cu_end cur) = cur"
    by (simp add: cursor_new_def)
  have "remaining cur (be16_bytes (length name + 3) @ CHR 0x00 # be16_bytes (length name) @ name)"
    using assms(1) by (simp add: host_name_list_def)
  from remaining_u16 [OF this] have 1: "read_u16 cur = Inr (length name + 3, advance 2 cur)"
    "remaining (advance 2 cur) (CHR 0x00 # be16_bytes (length name) @ name)" using assms(2) by simp_all
  have e: "checked_add (cu_position (advance 2 cur)) (length name + 3) = Inr (cu_end cur)"
    "cu_position (advance 2 cur) < cu_end cur"
    using remaining_length [OF 1(2)] by (simp_all add: checked_add_def)
  from remaining_u8 [OF 1(2)] have 2: "read_u8 (advance 2 cur) = Inr (0, advance 3 cur)"
    "remaining (advance 3 cur) (be16_bytes (length name) @ name @ [])" by simp_all
  from remaining_u16 [OF 2(2)] have 3: "read_u16 (advance 3 cur) = Inr (length name, advance 5 cur)"
    "remaining (advance 5 cur) (name @ [])" using assms(2) by simp_all
  have "server_name_loop is_domain (cu_end cur) (advance 2 cur) = Some (server_name is_domain name)"
    using e(2) remaining_read [OF 3(2) refl]
    by (subst server_name_loop.simps) (simp add: 2(1) 3(1))
  then show ?thesis
    unfolding parse_server_name_extension_def cur using e(1) 1(1) by simp
qed

text \<open>One round of the extension loop, at an extension with a length that fits.\<close>

lemma extensions_loop_step:
  assumes "remaining cur (tls_extension (ty, body) @ y)" and "ty < 2 ^ 16" and "length body < 2 ^ 16"
  shows "extensions_loop is_domain (cu_bytes cur) (cu_end cur) cur =
     (if ty = 0
      then map_option (\<lambda>r. res_bind r (\<lambda>name. Inr (Some name)))
             (parse_server_name_extension is_domain (cu_bytes cur) (cu_position cur + 4)
               (cu_position cur + 4 + length body))
      else extensions_loop is_domain (cu_bytes cur) (cu_end cur) (advance (4 + length body) cur))
    \<and> remaining (advance (4 + length body) cur) y \<and> remaining (advance 4 cur) (body @ y)"
proof -
  have "remaining cur (be16_bytes ty @ be16_bytes (length body) @ body @ y)"
    using assms(1) by (simp add: tls_extension_def)
  from remaining_u16 [OF this assms(2)] have 1: "read_u16 cur = Inr (ty, advance 2 cur)"
    "remaining (advance 2 cur) (be16_bytes (length body) @ body @ y)" by simp_all
  from remaining_u16 [OF 1(2) assms(3)] have 2: "read_u16 (advance 2 cur) = Inr (length body, advance 4 cur)"
    "remaining (advance 4 cur) (body @ y)" by simp_all
  note len = remaining_length [OF 2(2)]
  have 3: "checked_add (cu_position cur + 4) (length body) = Inr (cu_position cur + 4 + length body)"
    using len by (simp add: checked_add_def)
  have upd: "(advance 4 cur)\<lparr>cu_position := cu_position cur + 4 + length body\<rparr> = advance (4 + length body) cur"
    by (simp add: advance_def add.assoc)
  have "remaining (advance (4 + length body) cur) y"
    using remaining_advance [OF 2(2) refl] by simp
  then show ?thesis
    using len 2(2) by (subst extensions_loop.simps) (simp add: 1(1) 2(1) 3 upd)
qed

lemma extensions_loop_reads:
  assumes "\<forall>x \<in> set before. wf_extension x" and "cu_end cur = e" and "cu_bytes cur = bs"
  shows "remaining cur (concat (map tls_extension before) @ y) \<Longrightarrow>
    extensions_loop is_domain bs e cur
      = extensions_loop is_domain bs e (advance (length (concat (map tls_extension before))) cur)
    \<and> remaining (advance (length (concat (map tls_extension before))) cur) y"
  using assms
proof (induction before arbitrary: cur)
  case Nil
  then show ?case by (simp add: advance_def)
next
  case (Cons x xs)
  obtain ty body where x: "x = (ty, body)" by force
  have wf: "ty < 2 ^ 16" "ty \<noteq> 0" "length body < 2 ^ 16"
    using Cons.prems by (simp_all add: x wf_extension_def)
  have len: "length (tls_extension (ty, body)) = 4 + length body" by (simp add: tls_extension_def)
  have "remaining cur (tls_extension (ty, body) @ (concat (map tls_extension xs) @ y))"
    using Cons.prems by (simp add: x)
  note step = extensions_loop_step [OF this wf(1,3), of is_domain]
  from Cons.IH [of "advance (4 + length body) cur"] step Cons.prems(2-) wf(2) show ?case
    by (simp add: x len add.assoc)
qed

lemma hello_record_bounds:
  assumes "length (hello_record minor h extensions) \<le> MAX_TLS_RECORD_PAYLOAD + 5"
  shows "hello_bounds (hello_record minor h extensions) = Inr (length (hello_record minor h extensions))
    \<and> remaining (cursor_new (hello_record minor h extensions) 9 (length (hello_record minor h extensions)))
        (hello_fields h @ be16_bytes (length extensions) @ extensions)"
proof -
  define body where "body = hello_fields h @ be16_bytes (length extensions) @ extensions"
  have rec: "hello_record minor h extensions = [CHR 0x16, CHR 0x03, minor, char_of ((length body + 4) div 256),
      char_of ((length body + 4) mod 256), CHR 0x01, char_of (length body div 2 ^ 16),
      char_of (length body mod 2 ^ 16 div 256), char_of (length body mod 2 ^ 16 mod 256)] @ body"
    by (simp add: hello_record_def body_def be16_bytes_def)
  have len: "length (hello_record minor h extensions) = length body + 9" by (simp add: rec)
  have small: "length body + 4 \<le> 16384" using assms by (simp add: len MAX_TLS_RECORD_PAYLOAD_def)
  have "hello_bounds (hello_record minor h extensions) = Inr (length body + 9)"
    using small by (simp add: hello_bounds_def rec record_payload_length_def be16_def
        MAX_TLS_RECORD_PAYLOAD_def checked_add_def result_simps)
  moreover have "remaining (cursor_new (hello_record minor h extensions) 9 (length body + 9)) body"
    using small unfolding remaining_def rec cursor_new_def
    by (intro conjI exI [of _ "[CHR 0x16, CHR 0x03, minor, char_of ((length body + 4) div 256),
      char_of ((length body + 4) mod 256), CHR 0x01, char_of (length body div 2 ^ 16),
      char_of (length body mod 2 ^ 16 div 256), char_of (length body mod 2 ^ 16 mod 256)]"] exI [of _ "[]"]) simp_all
  ultimately show ?thesis unfolding len body_def by simp
qed

lemma hello_extensions_read:
  assumes "wf_hello h" and "length (hello_record minor h extensions) \<le> MAX_TLS_RECORD_PAYLOAD + 5"
  obtains cur where "cu_bytes cur = hello_record minor h extensions"
    "cu_end cur = length (hello_record minor h extensions)" "remaining cur extensions"
    "extract_sni is_domain (hello_record minor h extensions)
      = extensions_loop is_domain (cu_bytes cur) (cu_end cur) cur"
proof -
  let ?r = "hello_record minor h extensions"
  let ?c = "cursor_new ?r 9 (length ?r)" and ?f = "length (hello_fields h)"
  note start = hello_record_bounds [OF assms(2)]
  note fields = skip_hello_fields_reads [OF conjunct2 [OF start] assms(1)]
  have small: "length extensions < 2 ^ 16"
    using assms(2) by (simp add: hello_record_def MAX_TLS_RECORD_PAYLOAD_def)
  note len = remaining_u16 [OF conjunct2 [OF fields] small]
  have pos: "cu_position (advance ?f ?c) \<noteq> length ?r"
    using remaining_length [OF conjunct2 [OF fields]] by (simp add: cursor_new_def)
  let ?e = "advance (?f + 2) ?c"
  have rem: "remaining ?e extensions" using len by simp
  have e: "cu_bytes ?e = ?r" "cu_end ?e = length ?r" by (simp_all add: cursor_new_def)
  have "checked_add (cu_position ?e) (length extensions) = Inr (length ?r)"
    using remaining_length [OF rem] by (simp add: checked_add_def cursor_new_def)
  then have "extract_sni is_domain ?r = extensions_loop is_domain (cu_bytes ?e) (cu_end ?e) ?e"
    using start fields len pos unfolding e by (simp add: extract_sni_def add.commute)
  with rem e that show ?thesis by blast
qed

lemma sni_found:
  assumes "wf_hello h" and "\<forall>x \<in> set before. wf_extension x" and "length name < 2 ^ 16 - 5"
    and "length (hello_record minor h (concat (map tls_extension before)
        @ tls_extension (0, host_name_list name) @ after)) \<le> MAX_TLS_RECORD_PAYLOAD + 5"
  shows "extract_sni is_domain (hello_record minor h (concat (map tls_extension before)
        @ tls_extension (0, host_name_list name) @ after))
      = Some (res_bind (server_name is_domain name) (\<lambda>n. Inr (Some n)))"
proof -
  let ?x = "concat (map tls_extension before)" and ?s = "host_name_list name"
  let ?r = "hello_record minor h (?x @ tls_extension (0, ?s) @ after)"
  note small = assms(4)
  obtain cur where cur: "remaining cur (?x @ tls_extension (0, ?s) @ after)"
    "extract_sni is_domain ?r = extensions_loop is_domain (cu_bytes cur) (cu_end cur) cur"
    using hello_extensions_read [OF assms(1) small] by metis
  let ?c = "advance (length ?x) cur"
  note at = extensions_loop_reads [OF assms(2) refl refl cur(1), of is_domain]
  have len: "length ?s = length name + 5" by (simp add: host_name_list_def)
  have fits: "length ?s < 2 ^ 16" "length name < 2 ^ 16 - 3" using assms(3) by (simp_all add: len)
  note step = extensions_loop_step [OF conjunct2 [OF at] _ fits(1), of is_domain]
  have "remaining (cursor_new (cu_bytes cur) (cu_position ?c + 4) (cu_position ?c + 4 + length ?s)) ?s"
    using step remaining_part [of "advance 4 ?c" ?s after] by (simp add: add.assoc)
  from server_name_list_reads [OF this fits(2), of is_domain]
  have "parse_server_name_extension is_domain (cu_bytes cur) (cu_position ?c + 4)
      (cu_position ?c + 4 + length ?s) = Some (server_name is_domain name)"
    by (simp add: cursor_new_def)
  then show ?thesis
    using cur(2) at step by simp
qed

lemma sni_absent:
  assumes "wf_hello h" and "\<forall>x \<in> set before. wf_extension x"
    and "length (hello_record minor h (concat (map tls_extension before))) \<le> MAX_TLS_RECORD_PAYLOAD + 5"
  shows "extract_sni is_domain (hello_record minor h (concat (map tls_extension before))) = Some (Inr None)"
proof -
  let ?x = "concat (map tls_extension before)"
  note small = assms(3)
  obtain cur where cur: "remaining cur (?x @ [])" "extract_sni is_domain (hello_record minor h ?x)
      = extensions_loop is_domain (cu_bytes cur) (cu_end cur) cur"
    using hello_extensions_read [OF assms(1) small] by (metis append_Nil2)
  note at = extensions_loop_reads [OF assms(2) refl refl cur(1), of is_domain]
  have "cu_position (advance (length ?x) cur) = cu_end cur"
    using remaining_length [OF conjunct2 [OF at]] by simp
  then have "extensions_loop is_domain (cu_bytes cur) (cu_end cur) (advance (length ?x) cur) = Some (Inr None)"
    by (subst extensions_loop.simps) simp
  with cur(2) at show ?thesis by simp
qed

section \<open>Properties\<close>

text \<open>
  C27: The ClientHello parser always returns. For every sequence of bytes both loops end, and the result
  is an error, no name, or a name that is accepted as a domain, is not empty, is ASCII without capital
  letters and does not end in a dot.
\<close>

theorem sni_parser_total:
  "\<exists>r. extract_sni is_domain record_bytes = Some r
     \<and> (\<forall>name. r = Inr (Some name) \<longrightarrow> is_domain name \<and> name \<noteq> [] \<and> last name \<noteq> CHR ''.''
          \<and> list_all (\<lambda>c. byte c < 128 \<and> \<not> is_ascii_upper c) name)"
  using extract_sni_returns [of is_domain record_bytes] extract_sni_checked checked_name_normal
  by metis

text \<open>
  C26: The parser reads what clients send. From a ClientHello in one record, whatever its version, random
  bytes, session id, cipher suites, compression methods and other extensions, it extracts exactly the
  checked and normalised host name of the server name extension, before or after other extensions, and
  nothing when there is no such extension.
\<close>

theorem sni_roundtrip:
  assumes "wf_hello h" and "\<forall>x \<in> set before. wf_extension x" and "length name < 2 ^ 16 - 5"
  shows "(length (hello_record minor h (concat (map tls_extension before)
        @ tls_extension (0, host_name_list name) @ after)) \<le> MAX_TLS_RECORD_PAYLOAD + 5 \<longrightarrow>
      extract_sni is_domain (hello_record minor h (concat (map tls_extension before)
        @ tls_extension (0, host_name_list name) @ after))
      = Some (res_bind (server_name is_domain name) (\<lambda>n. Inr (Some n))))
    \<and> (length (hello_record minor h (concat (map tls_extension before))) \<le> MAX_TLS_RECORD_PAYLOAD + 5 \<longrightarrow>
      extract_sni is_domain (hello_record minor h (concat (map tls_extension before))) = Some (Inr None))"
  using sni_found [OF assms] sni_absent [OF assms(1,2)] by blast

section \<open>Examples\<close>

definition demo_hello :: hello where
  "demo_hello = \<lparr>he_version = [CHR 0x03, CHR 0x03], he_random = replicate 32 CHR 0x00, he_session = [],
     he_suites = [CHR 0x13, CHR 0x01], he_compression = [CHR 0x00]\<rparr>"

definition demo_hello_record :: string where
  "demo_hello_record = hello_record CHR 0x01 demo_hello
     (concat (map tls_extension [(10, ''ab'')]) @ tls_extension (0, host_name_list ''A.io.'') @ [])"

lemma demo_server_name: "server_name (\<lambda>_. True) ''A.io.'' = Inr ''a.io''"
  by code_simp

lemma demo_hello_wf: "wf_hello demo_hello" "\<forall>x \<in> set [(10, ''ab'')]. wf_extension x"
  "length demo_hello_record \<le> MAX_TLS_RECORD_PAYLOAD + 5"
  by (simp_all add: wf_hello_def demo_hello_def wf_extension_def demo_hello_record_def hello_record_def
      hello_fields_def tls_extension_def host_name_list_def MAX_TLS_RECORD_PAYLOAD_def)

lemma demo_sni: "extract_sni (\<lambda>_. True) demo_hello_record = Some (Inr (Some ''a.io''))"
  using sni_found [OF demo_hello_wf(1,2), of "''A.io.''" "CHR 0x01" "[]" "\<lambda>_. True"] demo_hello_wf(3)
    demo_server_name unfolding demo_hello_record_def by simp

theorem sni_parser_total_witness:
  "extract_sni (\<lambda>_. True) demo_hello_record = Some (Inr (Some ''a.io''))
   \<and> last ''a.io'' \<noteq> CHR ''.'' \<and> list_all (\<lambda>c. byte c < 128 \<and> \<not> is_ascii_upper c) ''a.io''"
  using sni_parser_total [of "\<lambda>_. True" demo_hello_record] demo_sni by simp

theorem sni_roundtrip_witness:
  "extract_sni (\<lambda>_. True) demo_hello_record = Some (Inr (Some ''a.io''))"
  using sni_roundtrip [OF demo_hello_wf(1,2), of "''A.io.''" "CHR 0x01" "[]" "\<lambda>_. True"] demo_hello_wf(3)
    demo_server_name unfolding demo_hello_record_def by simp

end
