(* ===== verification/Http_Proxy.thy ===== *)
theory Http_Proxy
  imports Rule_Engine Proxy_Http Proxy_Tls
begin

text \<open>
  The HTTP proxy (outcalld/src/proxy/mod.rs, connect.rs, forward.rs, upstream.rs, context.rs, io.rs). A
  connection is handled in one go: what the client and the network do while it is handled is the
  environment \<open>proxy_env\<close>, and what the proxy does towards client and upstream is the list of events
  the handlers return, in order. Log output is left out.
\<close>

section \<open>Constants\<close>

definition MAX_CONNECTIONS :: nat where
  "MAX_CONNECTIONS = 1024"

definition MAX_HEADER_BYTES :: nat where
  "MAX_HEADER_BYTES = 8192"

definition MAX_HTTP_BODY_BYTES :: nat where
  "MAX_HTTP_BODY_BYTES = 16 * 1024 * 1024"

definition DEFAULT_CONNECT_BLOCKED_PORTS :: "u16 list" where
  "DEFAULT_CONNECT_BLOCKED_PORTS =
     [20, 21, 22, 23, 25, 53, 110, 119, 143, 389, 445, 465, 587, 636, 993, 995, 1433, 1521, 3306,
      3389, 5432, 5672, 5900, 6379, 9200, 9300, 11211, 27017]"

section \<open>Events and environment\<close>

type_synonym socket_addr = "ip_addr \<times> u16"

datatype proxy_event =
    Reply nat string string
  | Block_Reply string
  | Health_Reply
  | Established
  | Count_Blocked
  | Dial socket_addr
  | To_Upstream socket_addr string
  | To_Client string

datatype host_lookup = Lookup_Addresses "ip_addr list" | Lookup_Failed | Lookup_Timed_Out

datatype dial = Dial_Connected | Dial_Failed | Dial_Hangs

text \<open>
  One round of a copy loop: bytes read and written, the end of the input, an error of either side, or
  the idle deadline.
\<close>

datatype transfer_step = Moved string | Finished | Broken | Stalled

datatype direction = From_Client | From_Upstream

text \<open>A read of the request head; when the list ends the deadline for the head has passed.\<close>

datatype head_read = Head_Bytes string | Head_Closed

record proxy_env =
  en_head :: "head_read list"
  en_lookup :: "string \<Rightarrow> host_lookup"
  en_dial :: "socket_addr \<Rightarrow> dial"
  en_client_open :: bool
  en_hello :: string
  en_hello_written :: bool
  en_relay :: "(direction \<times> transfer_step) list"
  en_head_written :: bool
  en_prefix_written :: bool
  en_body :: "transfer_step list"
  en_finished :: bool
  en_response :: "transfer_step list"

section \<open>context.rs\<close>

text \<open>The method of a request is a token, so \<open>to_uppercase\<close> is that of ASCII.\<close>

definition proxy_http_context ::
  "string \<Rightarrow> string \<Rightarrow> string \<Rightarrow> (string \<times> string) list \<Rightarrow> u16 \<Rightarrow> nat \<Rightarrow> string option \<Rightarrow> eval_context" where
  "proxy_http_context http_verb host path headers port body_size agent_name =
     default_eval_context\<lparr>
       ev_http := Some \<lparr>http_method = map to_ascii_upper http_verb, http_path = path,
         http_host = host, http_headers = headers, http_body_size = of_nat body_size\<rparr>,
       ev_network := Some \<lparr>net_hostname = Some host,
         net_ip = (case parse_ip host of None \<Rightarrow> [] | Some ip \<Rightarrow> show_ip ip),
         net_port = port, net_protocol = ''tcp''\<rparr>,
       ev_agent := map_option (\<lambda>name. \<lparr>ag_name = name\<rparr>) agent_name\<rparr>"

section \<open>upstream.rs\<close>

datatype upstream_error = Restricted_Address | Upstream_Resolution | Upstream_Timeout | Upstream_Connection

definition MAX_UPSTREAM_ADDRESSES :: nat where
  "MAX_UPSTREAM_ADDRESSES = 64"

definition select_address :: "bool \<Rightarrow> socket_addr \<Rightarrow> socket_addr list \<Rightarrow> socket_addr list" where
  "select_address allow_private_ips address allowed =
     (if \<not> allow_private_ips \<and> is_restricted (fst address) then allowed
      else if address \<in> set allowed then allowed
      else allowed @ [address])"

definition resolve_upstream ::
  "(string \<Rightarrow> host_lookup) \<Rightarrow> string \<Rightarrow> u16 \<Rightarrow> bool \<Rightarrow> (upstream_error, socket_addr list) result" where
  "resolve_upstream lookup host port allow_private_ips =
     res_bind
       (case parse_ip host of
          Some address \<Rightarrow> Inr [(address, port)]
        | None \<Rightarrow>
            (case lookup host of
               Lookup_Addresses as \<Rightarrow> Inr (map (\<lambda>a. (a, port)) (take MAX_UPSTREAM_ADDRESSES as))
             | Lookup_Failed \<Rightarrow> Inl Upstream_Resolution
             | Lookup_Timed_Out \<Rightarrow> Inl Upstream_Timeout)) (\<lambda>candidates.
       if candidates = [] then Inl Upstream_Resolution
       else
         let allowed = fold (select_address allow_private_ips) candidates []
         in if allowed = [] then Inl Restricted_Address else Inr allowed)"

fun connect_upstream ::
  "(socket_addr \<Rightarrow> dial) \<Rightarrow> socket_addr list \<Rightarrow> (upstream_error, socket_addr) result \<times> proxy_event list" where
  "connect_upstream dial [] = (Inl Upstream_Connection, [])"
| "connect_upstream dial (address # rest) =
     (case dial address of
        Dial_Connected \<Rightarrow> (Inr address, [Dial address])
      | Dial_Failed \<Rightarrow> (case connect_upstream dial rest of (r, dials) \<Rightarrow> (r, Dial address # dials))
      | Dial_Hangs \<Rightarrow> (Inl Upstream_Timeout, [Dial address]))"

fun error_response :: "upstream_error \<Rightarrow> proxy_event" where
  "error_response Restricted_Address =
     Reply 403 ''Forbidden'' ''Upstream resolved to a restricted address''"
| "error_response Upstream_Timeout = Reply 504 ''Gateway Timeout'' ''Upstream operation timed out''"
| "error_response Upstream_Resolution = Reply 502 ''Bad Gateway'' ''Upstream connection failed''"
| "error_response Upstream_Connection = Reply 502 ''Bad Gateway'' ''Upstream connection failed''"

section \<open>io.rs\<close>

datatype header_read_error = Header_Too_Large | Header_Io

datatype transfer_error = Idle_Timeout | Transfer_Io

definition bounded_header_end :: "string \<Rightarrow> nat \<Rightarrow> (header_read_error, nat option) result" where
  "bounded_header_end buf limit =
     (case find_header_end buf of
        Some position \<Rightarrow> if position \<le> limit then Inr (Some position) else Inl Header_Too_Large
      | None \<Rightarrow> if limit \<le> length buf then Inl Header_Too_Large else Inr None)"

text \<open>The result is \<open>None\<close> when the deadline passes first.\<close>

fun read_through_headers ::
  "head_read list \<Rightarrow> string \<Rightarrow> nat \<Rightarrow> (header_read_error, nat \<times> string) result option" where
  "read_through_headers [] buf limit = None"
| "read_through_headers (Head_Closed # reads) buf limit = Some (Inl Header_Io)"
| "read_through_headers (Head_Bytes chunk # reads) buf limit =
     (if chunk = [] then Some (Inl Header_Io)
      else
        let buf = buf @ chunk
        in case bounded_header_end buf limit of
             Inl e \<Rightarrow> Some (Inl e)
           | Inr (Some position) \<Rightarrow> Some (Inr (position, buf))
           | Inr None \<Rightarrow> read_through_headers reads buf limit)"

text \<open>\<open>stream\<close> is what the client sends before the deadline or before it closes.\<close>

definition read_client_hello_record :: "string \<Rightarrow> string option" where
  "read_client_hello_record stream =
     (if length stream < 5 then None
      else
        (case record_payload_length (take 5 stream) of
           Inl _ \<Rightarrow> None
         | Inr payload_length \<Rightarrow>
             if length stream < 5 + payload_length then None
             else Some (take (5 + payload_length) stream)))"

text \<open>
  The limit is that of \<open>AsyncReadExt::take\<close>: after so many bytes the input has ended. The result is
  the number of bytes copied, and the chunks written on the way.
\<close>

fun copy_with_idle_timeout ::
  "nat option \<Rightarrow> transfer_step list \<Rightarrow> nat \<Rightarrow> (transfer_error, nat) result \<times> string list" where
  "copy_with_idle_timeout limit [] copied =
     ((if limit = Some 0 then Inr copied else Inl Idle_Timeout), [])"
| "copy_with_idle_timeout limit (step # steps) copied =
     (if limit = Some 0 then ((if step = Broken then Inl Transfer_Io else Inr copied), [])
      else
        (case step of
           Finished \<Rightarrow> (Inr copied, [])
         | Broken \<Rightarrow> (Inl Transfer_Io, [])
         | Stalled \<Rightarrow> (Inl Idle_Timeout, [])
         | Moved bytes \<Rightarrow>
             let chunk = (case limit of None \<Rightarrow> bytes | Some n \<Rightarrow> take n bytes)
             in if 2 ^ 64 \<le> copied + length chunk then (Inl Transfer_Io, [chunk])
                else
                  (case copy_with_idle_timeout (map_option (\<lambda>n. n - length chunk) limit) steps
                          (copied + length chunk) of
                     (r, chunks) \<Rightarrow> (r, chunk # chunks))))"

text \<open>Both directions of a tunnel; a direction that has ended does nothing more.\<close>

fun relay_with_idle_timeout ::
  "socket_addr \<Rightarrow> (direction \<times> transfer_step) list \<Rightarrow> bool \<Rightarrow> bool \<Rightarrow> proxy_event list" where
  "relay_with_idle_timeout upstream [] left right = []"
| "relay_with_idle_timeout upstream ((d, step) # steps) left right =
     (if (case d of From_Client \<Rightarrow> left | From_Upstream \<Rightarrow> right)
      then relay_with_idle_timeout upstream steps left right
      else
        (case step of
           Moved bytes \<Rightarrow>
             (case d of From_Client \<Rightarrow> To_Upstream upstream bytes | From_Upstream \<Rightarrow> To_Client bytes)
             # relay_with_idle_timeout upstream steps left right
         | Finished \<Rightarrow>
             (let left' = (left \<or> d = From_Client); right' = (right \<or> d = From_Upstream)
              in if left' \<and> right' then []
                 else relay_with_idle_timeout upstream steps left' right')
         | Broken \<Rightarrow> []
         | Stalled \<Rightarrow> []))"

section \<open>connect.rs\<close>

definition allows_private :: "rule_evaluation \<Rightarrow> bool" where
  "allows_private evaluation =
     (case rv_egress evaluation of Some egress \<Rightarrow> eg_allow_private_ips egress | None \<Rightarrow> False)"

definition block_reason :: "evaluate_result \<Rightarrow> string" where
  "block_reason r = (case er_matched_rule r of Some rule \<Rightarrow> rule | None \<Rightarrow> ''default policy'')"

text \<open>The tunnel, once the target is resolved and the client has been told that it stands.\<close>

definition connect_tunnel ::
  "('x, 'p) cel_ops \<Rightarrow> 'p rule_set \<Rightarrow> proxy_ext \<Rightarrow> proxy_env \<Rightarrow> string \<Rightarrow> u16 \<Rightarrow> socket_addr list
    \<Rightarrow> string option \<Rightarrow> proxy_event list" where
  "connect_tunnel ops rules ext env host port addresses agent_name =
     (case read_client_hello_record (en_hello env) of
        None \<Rightarrow> [Count_Blocked]
      | Some client_hello \<Rightarrow>
          (case extract_sni (px_host_is_domain ext) client_hello of
             Some (Inr sni) \<Rightarrow>
               (let eval_host = (case sni of Some name \<Rightarrow> name | None \<Rightarrow> host)
                in if eval_host \<noteq> host \<and> er_decision (evaluate_snapshot ops rules
                        (proxy_http_context ''CONNECT'' eval_host ''/'' [] port 0 agent_name)) = Block
                   then [Count_Blocked]
                   else
                     (case connect_upstream (en_dial env) addresses of
                        (Inl _, dials) \<Rightarrow> dials @ [Count_Blocked]
                      | (Inr upstream, dials) \<Rightarrow>
                          dials @ (if \<not> en_hello_written env then []
                            else To_Upstream upstream client_hello
                              # relay_with_idle_timeout upstream (en_relay env) False False)))
           | _ \<Rightarrow> [Count_Blocked]))"

definition connect_handle ::
  "('x, 'p) cel_ops \<Rightarrow> 'p rule_set \<Rightarrow> proxy_ext \<Rightarrow> proxy_env \<Rightarrow> parsed_request \<Rightarrow> string
    \<Rightarrow> string option \<Rightarrow> proxy_event list" where
  "connect_handle ops rules ext env request body_prefix agent_name =
     (case parse_connect_target ext (pq_uri request) of
        Inl _ \<Rightarrow> [Reply 400 ''Bad Request'' ''Invalid CONNECT target'']
      | Inr target \<Rightarrow>
          (let host = tg_host target; port = tg_port target
           in if \<not> is_ok (require_matching_host ext (pq_headers request) host port 443)
                 \<or> \<not> is_ok (request_body_length (pq_headers request) 0) \<or> body_prefix \<noteq> []
              then [Reply 400 ''Bad Request'' ''Invalid CONNECT headers or body framing'']
              else if port \<in> set DEFAULT_CONNECT_BLOCKED_PORTS
              then [Count_Blocked, Reply 403 ''Forbidden'' ''CONNECT port is not allowed'']
              else
                (let prelim = evaluate_snapshot_with_egress ops rules
                       (proxy_http_context ''CONNECT'' host ''/'' [] port 0 agent_name)
                 in if er_decision (rv_result prelim) = Block
                    then [Count_Blocked, Block_Reply (block_reason (rv_result prelim))]
                    else
                      (case resolve_upstream (en_lookup env) host port (allows_private prelim) of
                         Inl e \<Rightarrow> [Count_Blocked, error_response e]
                       | Inr addresses \<Rightarrow>
                           if \<not> en_client_open env then []
                           else Established
                             # connect_tunnel ops rules ext env host port addresses agent_name))))"

section \<open>forward.rs\<close>

definition HOP_BY_HOP :: "string list" where
  "HOP_BY_HOP = [''connection'', ''proxy-connection'', ''keep-alive'', ''transfer-encoding'', ''te'',
     ''trailer'', ''upgrade'', ''proxy-authorization'', ''proxy-authenticate'']"

definition outbound_headers :: "(string \<times> string) list \<Rightarrow> (string \<times> string) list" where
  "outbound_headers headers =
     filter (\<lambda>(name, _). map to_ascii_lower name \<notin> set HOP_BY_HOP
         \<and> map to_ascii_lower name \<notin> connection_header_tokens headers) headers"

definition outbound_head :: "string \<Rightarrow> string \<Rightarrow> (string \<times> string) list \<Rightarrow> string" where
  "outbound_head http_verb path headers =
     http_verb @ '' '' @ path @ '' HTTP/1.1'' @ crlf
     @ concat (map (\<lambda>(name, v). name @ '': '' @ v @ crlf) (outbound_headers headers))
     @ ''Connection: close'' @ crlf @ crlf"

text \<open>The request and the response, once the upstream connection stands.\<close>

definition forward_exchange ::
  "proxy_env \<Rightarrow> socket_addr \<Rightarrow> string \<Rightarrow> string \<Rightarrow> nat \<Rightarrow> proxy_event list" where
  "forward_exchange env upstream head body_prefix body_length =
     (if \<not> en_head_written env
      then [Reply 502 ''Bad Gateway'' ''Failed to write request to upstream'']
      else
        To_Upstream upstream head
        # (if body_prefix \<noteq> [] \<and> \<not> en_prefix_written env then []
           else
             (if body_prefix \<noteq> [] then [To_Upstream upstream body_prefix] else [])
             @ (let left = body_length - length body_prefix;
                    (copied, chunks) = (if 0 < left then copy_with_idle_timeout (Some left) (en_body env) 0
                                        else (Inr 0, []))
                in map (To_Upstream upstream) chunks
                   @ (if copied = Inr left \<and> en_finished env
                      then map To_Client (snd (copy_with_idle_timeout None (en_response env) 0))
                      else []))))"

definition forward_handle ::
  "('x, 'p) cel_ops \<Rightarrow> 'p rule_engine \<Rightarrow> proxy_ext \<Rightarrow> proxy_env \<Rightarrow> parsed_request \<Rightarrow> string
    \<Rightarrow> string option \<Rightarrow> proxy_event list" where
  "forward_handle ops engine ext env request body_prefix agent_name =
     (case parse_absolute_http_uri ext (pq_uri request) of
        Inl _ \<Rightarrow> [Reply 400 ''Bad Request'' ''Invalid absolute-form URI'']
      | Inr target \<Rightarrow>
          (let host = tg_host target; port = tg_port target; path = tg_path target;
               headers = pq_headers request
           in if \<not> is_ok (require_matching_host ext headers host port 80)
              then [Count_Blocked,
                    Reply 400 ''Bad Request'' ''Host header does not match request URI authority'']
              else
                (case request_body_length headers MAX_HTTP_BODY_BYTES of
                   Inl (Body_Too_Large _) \<Rightarrow>
                     [Reply 413 ''Payload Too Large'' ''HTTP request body is too large'']
                 | Inl _ \<Rightarrow> [Reply 400 ''Bad Request'' ''Unsupported HTTP body framing'']
                 | Inr body_length \<Rightarrow>
                     if body_length < length body_prefix
                     then [Reply 400 ''Bad Request'' ''HTTP request contains trailing data'']
                     else
                       (let evaluation = evaluate_with_egress ops engine
                              (proxy_http_context (pq_method request) host path
                                (policy_headers headers) port body_length agent_name)
                        in if er_decision (rv_result evaluation) = Block
                           then [Count_Blocked, Block_Reply (block_reason (rv_result evaluation))]
                           else
                             (case resolve_upstream (en_lookup env) host port (allows_private evaluation) of
                                Inl e \<Rightarrow> (if e = Restricted_Address then [Count_Blocked] else [])
                                  @ [error_response e]
                              | Inr addresses \<Rightarrow>
                                  (case connect_upstream (en_dial env) addresses of
                                     (Inl e, dials) \<Rightarrow> dials @ [error_response e]
                                   | (Inr upstream, dials) \<Rightarrow>
                                       dials @ forward_exchange env upstream
                                         (outbound_head (pq_method request) path headers)
                                         body_prefix body_length))))))"

section \<open>mod.rs\<close>

text \<open>Docker's answer on the peer's address: a lookup error, no managed container, or its name.\<close>

definition resolve_agent_name ::
  "bool \<Rightarrow> string option option \<Rightarrow> string option option" where
  "resolve_agent_name has_docker container_name =
     (if \<not> has_docker then Some None
      else
        (case container_name of
           Some (Some name) \<Rightarrow> Some (Some (derive_agent_name name))
         | _ \<Rightarrow> None))"

definition handle_connection ::
  "('x, 'p) cel_ops \<Rightarrow> 'p rule_engine \<Rightarrow> proxy_ext \<Rightarrow> proxy_env \<Rightarrow> string option \<Rightarrow> proxy_event list" where
  "handle_connection ops engine ext env agent_name =
     (case read_through_headers (en_head env) [] MAX_HEADER_BYTES of
        None \<Rightarrow> [Reply 408 ''Request Timeout'' ''Request headers timed out'']
      | Some (Inl Header_Too_Large) \<Rightarrow>
          [Reply 431 ''Request Header Fields Too Large'' ''Headers exceed the maximum allowed size'']
      | Some (Inl Header_Io) \<Rightarrow> []
      | Some (Inr (header_end, buf)) \<Rightarrow>
          (case parse_request ext (take header_end buf) of
             Inl _ \<Rightarrow> [Reply 400 ''Bad Request'' ''Malformed HTTP request'']
           | Inr request \<Rightarrow>
               (let body_prefix = drop header_end buf
                in if eq_ignore_ascii_case (pq_method request) ''GET''
                      \<and> pq_uri request = ''/outcall-health''
                   then (if body_prefix \<noteq> []
                         then [Reply 400 ''Bad Request'' ''Unexpected health-check body'']
                         else [Health_Reply])
                   else if eq_ignore_ascii_case (pq_method request) ''CONNECT''
                   then connect_handle ops (snapshot engine) ext env request body_prefix agent_name
                   else forward_handle ops engine ext env request body_prefix agent_name)))"

text \<open>A connection task: the peer must be a managed container before anything is read.\<close>

definition serve_connection ::
  "('x, 'p) cel_ops \<Rightarrow> 'p rule_engine \<Rightarrow> proxy_ext \<Rightarrow> bool \<Rightarrow> string option option \<Rightarrow> proxy_env
    \<Rightarrow> proxy_event list" where
  "serve_connection ops engine ext has_docker container_name env =
     (case resolve_agent_name has_docker container_name of
        Some agent_name \<Rightarrow> handle_connection ops engine ext env agent_name
      | None \<Rightarrow> [Count_Blocked, Reply 403 ''Forbidden'' ''Managed container identity required''])"

section \<open>The server (mod.rs)\<close>

text \<open>
  Counters and flags of the server; \<open>ps_connections\<close> is the number of connection tasks, each of which
  holds a permit of the semaphore. Atomic counters wrap around.
\<close>

record proxy_server =
  ps_active :: u64
  ps_requests :: u64
  ps_blocked :: u64
  ps_running :: bool
  ps_shutdown_slot :: bool
  ps_accept_task :: bool
  ps_connections :: nat

definition server_new :: proxy_server where
  "server_new = \<lparr>ps_active = 0, ps_requests = 0, ps_blocked = 0, ps_running = False,
     ps_shutdown_slot = False, ps_accept_task = False, ps_connections = 0\<rparr>"

text \<open>\<open>None\<close>: the server is running already, or the address cannot be bound.\<close>

definition server_start :: "bool \<Rightarrow> proxy_server \<Rightarrow> proxy_server option" where
  "server_start bound s =
     (if ps_shutdown_slot s \<or> ps_running s then None
      else if \<not> bound then None
      else Some (s\<lparr>ps_shutdown_slot := True, ps_running := True, ps_accept_task := True\<rparr>))"

text \<open>A connection is accepted with a permit, or answered with 503.\<close>

definition server_accept :: "proxy_server \<Rightarrow> proxy_event list \<times> proxy_server" where
  "server_accept s =
     (if MAX_CONNECTIONS \<le> ps_connections s
      then ([Reply 503 ''Service Unavailable'' ''Too many connections''], s)
      else ([], s\<lparr>ps_active := ps_active s + 1, ps_requests := ps_requests s + 1,
                  ps_connections := ps_connections s + 1\<rparr>))"

text \<open>A connection task ends after it has handled its connection.\<close>

definition server_finish :: "proxy_event list \<Rightarrow> proxy_server \<Rightarrow> proxy_server" where
  "server_finish es s =
     s\<lparr>ps_blocked := ps_blocked s + of_nat (length (filter (\<lambda>e. e = Count_Blocked) es)),
       ps_active := ps_active s - 1, ps_connections := ps_connections s - 1\<rparr>"

text \<open>The end of the accept loop: what is left after the grace period is aborted.\<close>

definition server_stopped :: "proxy_server \<Rightarrow> proxy_server" where
  "server_stopped s = s\<lparr>ps_connections := 0, ps_active := 0, ps_running := False\<rparr>"

text \<open>
  \<open>shutdown\<close>: the accept task ends in time, or it is aborted together with its connections before it
  has reset the count.
\<close>

definition server_shutdown :: "bool \<Rightarrow> proxy_server \<Rightarrow> proxy_server" where
  "server_shutdown in_time s =
     (let s = s\<lparr>ps_shutdown_slot := False\<rparr>
      in if \<not> ps_accept_task s then s\<lparr>ps_running := False\<rparr>
         else if in_time then (server_stopped s)\<lparr>ps_accept_task := False\<rparr>
         else s\<lparr>ps_accept_task := False, ps_connections := 0, ps_running := False\<rparr>)"

inductive server_step :: "proxy_server \<Rightarrow> proxy_server \<Rightarrow> bool" where
  step_start: "server_start bound s = Some s' \<Longrightarrow> server_step s s'"
| step_accept: "ps_accept_task s \<Longrightarrow> ps_running s \<Longrightarrow> server_accept s = (es, s') \<Longrightarrow> server_step s s'"
| step_finish: "0 < ps_connections s \<Longrightarrow> server_step s (server_finish es s)"
| step_stopped: "ps_accept_task s \<Longrightarrow> server_step s (server_stopped s)"
| step_shutdown: "server_step s (server_shutdown True s)"

text \<open>
  As long as the accept task is not aborted, the number of active connections the server reports is
  that of its tasks, and never more than the capacity.
\<close>

definition wf_server :: "proxy_server \<Rightarrow> bool" where
  "wf_server s \<longleftrightarrow> ps_connections s \<le> MAX_CONNECTIONS \<and> ps_active s = of_nat (ps_connections s)
     \<and> (ps_connections s = 0 \<or> ps_accept_task s)"

lemma server_step_wf: "server_step s s' \<Longrightarrow> wf_server s \<Longrightarrow> wf_server s'"
  by (induction rule: server_step.induct)
    (auto simp: wf_server_def server_start_def server_accept_def server_finish_def server_stopped_def
      server_shutdown_def Let_def of_nat_diff Suc_le_eq split: if_splits)

lemma server_reachable_wf: "server_step\<^sup>*\<^sup>* server_new s \<Longrightarrow> wf_server s"
  by (induction rule: rtranclp_induct) (simp_all add: wf_server_def server_new_def server_step_wf [unfolded wf_server_def])

section \<open>Upstream contacts\<close>

text \<open>The addresses a handler connects or sends to.\<close>

definition contacts :: "proxy_event list \<Rightarrow> socket_addr set" where
  "contacts es = {a. Dial a \<in> set es \<or> (\<exists>bytes. To_Upstream a bytes \<in> set es)}"

lemma contacts_simps [simp]:
  "contacts [] = {}" "contacts (es @ fs) = contacts es \<union> contacts fs"
  "contacts (Reply n r b # es) = contacts es" "contacts (Block_Reply r # es) = contacts es"
  "contacts (Health_Reply # es) = contacts es" "contacts (Established # es) = contacts es"
  "contacts (Count_Blocked # es) = contacts es" "contacts (To_Client b # es) = contacts es"
  "contacts (Dial a # es) = insert a (contacts es)"
  "contacts (To_Upstream a b # es) = insert a (contacts es)"
  "contacts (error_response e # es) = contacts es"
  by (cases e; auto simp: contacts_def)+

lemma contacts_map [simp]:
  "contacts (map (To_Upstream a) xs) \<subseteq> {a}" "contacts (map To_Client xs) = {}"
  by (auto simp: contacts_def)

lemma contacts_relay: "contacts (relay_with_idle_timeout a steps l r) \<subseteq> {a}"
  by (induction a steps l r rule: relay_with_idle_timeout.induct)
    (auto split: transfer_step.splits direction.splits simp: Let_def)

text \<open>The addresses a host name stands for: itself when it is an address, else what the lookup gives.\<close>

definition host_addresses :: "(string \<Rightarrow> host_lookup) \<Rightarrow> string \<Rightarrow> ip_addr set" where
  "host_addresses lookup host =
     (case parse_ip host of
        Some a \<Rightarrow> {a}
      | None \<Rightarrow> (case lookup host of Lookup_Addresses as \<Rightarrow> set as | _ \<Rightarrow> {}))"

lemma select_addresses:
  "set (fold (select_address allow_private_ips) candidates acc)
     = set acc \<union> {a \<in> set candidates. allow_private_ips \<or> \<not> is_restricted (fst a)}"
  by (induction candidates arbitrary: acc) (auto simp: select_address_def)

lemma resolve_upstream_addresses:
  assumes "resolve_upstream lookup host port allow_private_ips = Inr addresses" and "a \<in> set addresses"
  shows "snd a = port \<and> fst a \<in> host_addresses lookup host
    \<and> (is_restricted (fst a) \<longrightarrow> allow_private_ips)"
  using assms
  by (auto simp: resolve_upstream_def host_addresses_def result_simps Let_def select_addresses select_address_def
      split: option.splits host_lookup.splits if_splits dest!: in_set_takeD)

lemma connect_upstream_contacts:
  "connect_upstream dial addresses = (r, es) \<Longrightarrow>
     contacts es \<subseteq> set addresses \<and> (\<forall>a. r = Inr a \<longrightarrow> a \<in> set addresses)"
  by (induction addresses arbitrary: es) (auto split: dial.splits prod.splits)

lemma forward_exchange_contacts: "contacts (forward_exchange env a head body_prefix body_length) \<subseteq> {a}"
  using contacts_map(1) by (auto simp: forward_exchange_def Let_def split: prod.splits)

section \<open>Authorisation\<close>

text \<open>What the rules say: the deciding rule of a context is an allow rule.\<close>

definition allowed_by :: "('x, 'p) cel_ops \<Rightarrow> 'p rule_set \<Rightarrow> eval_context \<Rightarrow> 'p compiled_rule \<Rightarrow> bool" where
  "allowed_by ops rules ctx r \<longleftrightarrow> deciding_rule ops rules ctx = Some r \<and> cr_action r = Rule_Allow"

definition may_contact :: "'p compiled_rule \<Rightarrow> (string \<Rightarrow> host_lookup) \<Rightarrow> request_target \<Rightarrow> socket_addr \<Rightarrow> bool" where
  "may_contact r lookup target a \<longleftrightarrow>
     snd a = tg_port target \<and> fst a \<in> host_addresses lookup (tg_host target)
     \<and> (is_restricted (fst a) \<longrightarrow> (\<exists>egress. cr_egress r = Some egress \<and> eg_allow_private_ips egress))"

lemma not_blocked: "er_decision r \<noteq> Block \<longleftrightarrow> er_decision r = Allow"
  by (cases "er_decision r") auto

lemma evaluation_allowed:
  assumes "wf_rule_set lext rules"
    and "er_decision (rv_result (evaluate_snapshot_with_egress ops rules ctx)) \<noteq> Block"
  shows "\<exists>r. allowed_by ops rules ctx r
    \<and> (allows_private (evaluate_snapshot_with_egress ops rules ctx)
         \<longleftrightarrow> (\<exists>egress. cr_egress r = Some egress \<and> eg_allow_private_ips egress))"
  using assms(2)
  by (auto simp: evaluate_with_egress_deciding [OF assms(1)] allowed_by_def not_blocked
      allows_private_def split: option.splits)

lemma snapshot_allowed:
  "er_decision (evaluate_snapshot ops rules ctx) \<noteq> Block \<Longrightarrow> \<exists>r. allowed_by ops rules ctx r"
  by (auto simp: evaluate_snapshot_deciding allowed_by_def not_blocked split: option.splits)

text \<open>The ClientHello was read, and the server name in it is the CONNECT host or allowed as well.\<close>

definition sni_authorised ::
  "('x, 'p) cel_ops \<Rightarrow> 'p rule_set \<Rightarrow> proxy_ext \<Rightarrow> proxy_env \<Rightarrow> string \<Rightarrow> u16 \<Rightarrow> string option \<Rightarrow> bool" where
  "sni_authorised ops rules ext env host port agent \<longleftrightarrow>
     (\<exists>client_hello sni. read_client_hello_record (en_hello env) = Some client_hello
        \<and> extract_sni (px_host_is_domain ext) client_hello = Some (Inr sni)
        \<and> (\<forall>name. sni = Some name \<and> name \<noteq> host \<longrightarrow>
             (\<exists>r. allowed_by ops rules (proxy_http_context ''CONNECT'' name ''/'' [] port 0 agent) r)))"

definition connect_authorised ::
  "('x, 'p) cel_ops \<Rightarrow> 'p rule_set \<Rightarrow> proxy_ext \<Rightarrow> proxy_env \<Rightarrow> parsed_request \<Rightarrow> string option
    \<Rightarrow> socket_addr \<Rightarrow> bool" where
  "connect_authorised ops rules ext env request agent a \<longleftrightarrow>
     (\<exists>target r. parse_connect_target ext (pq_uri request) = Inr target
        \<and> require_matching_host ext (pq_headers request) (tg_host target) (tg_port target) 443 = Inr ()
        \<and> tg_port target \<notin> set DEFAULT_CONNECT_BLOCKED_PORTS
        \<and> allowed_by ops rules
            (proxy_http_context ''CONNECT'' (tg_host target) ''/'' [] (tg_port target) 0 agent) r
        \<and> may_contact r (en_lookup env) target a
        \<and> sni_authorised ops rules ext env (tg_host target) (tg_port target) agent)"

definition forward_authorised ::
  "('x, 'p) cel_ops \<Rightarrow> 'p rule_set \<Rightarrow> proxy_ext \<Rightarrow> proxy_env \<Rightarrow> parsed_request \<Rightarrow> string option
    \<Rightarrow> socket_addr \<Rightarrow> bool" where
  "forward_authorised ops rules ext env request agent a \<longleftrightarrow>
     (\<exists>target body_length r. parse_absolute_http_uri ext (pq_uri request) = Inr target
        \<and> require_matching_host ext (pq_headers request) (tg_host target) (tg_port target) 80 = Inr ()
        \<and> request_body_length (pq_headers request) MAX_HTTP_BODY_BYTES = Inr body_length
        \<and> allowed_by ops rules (proxy_http_context (pq_method request) (tg_host target) (tg_path target)
            (policy_headers (pq_headers request)) (tg_port target) body_length agent) r
        \<and> may_contact r (en_lookup env) target a)"

lemma is_ok_unit: "is_ok r \<longleftrightarrow> r = Inr ()"
  by (cases r) (auto simp: is_ok_def)

lemma connect_tunnel_contacts:
  assumes "a \<in> contacts (connect_tunnel ops rules ext env host port addresses agent)"
  shows "a \<in> set addresses \<and> sni_authorised ops rules ext env host port agent"
proof -
  obtain client_hello where hello: "read_client_hello_record (en_hello env) = Some client_hello"
    using assms by (cases "read_client_hello_record (en_hello env)") (simp_all add: connect_tunnel_def)
  obtain sni where sni: "extract_sni (px_host_is_domain ext) client_hello = Some (Inr sni)"
    using assms hello by (auto simp: connect_tunnel_def split: option.splits sum.splits)
  let ?h = "case sni of Some name \<Rightarrow> name | None \<Rightarrow> host"
  have ok: "\<not> (?h \<noteq> host \<and> er_decision (evaluate_snapshot ops rules
      (proxy_http_context ''CONNECT'' ?h ''/'' [] port 0 agent)) = Block)"
    using assms hello sni by (auto simp: connect_tunnel_def Let_def split: if_splits)
  obtain r dials where c: "connect_upstream (en_dial env) addresses = (r, dials)" by (meson surj_pair)
  note dialled = connect_upstream_contacts [OF c]
  have "a \<in> set addresses"
    using assms dialled contacts_relay
    by (cases r) (fastforce simp: connect_tunnel_def Let_def hello sni ok c split: if_splits)+
  moreover have "sni_authorised ops rules ext env host port agent"
    unfolding sni_authorised_def using hello sni ok snapshot_allowed by fastforce
  ultimately show ?thesis by blast
qed

lemma connect_handle_contacts:
  assumes "wf_rule_set lext rules"
    and "a \<in> contacts (connect_handle ops rules ext env request body_prefix agent)"
  shows "connect_authorised ops rules ext env request agent a"
proof (cases "parse_connect_target ext (pq_uri request)")
  case (Inl e)
  with assms(2) show ?thesis by (simp add: connect_handle_def)
next
  case (Inr target)
  let ?host = "tg_host target" and ?port = "tg_port target"
  let ?prelim = "evaluate_snapshot_with_egress ops rules
      (proxy_http_context ''CONNECT'' ?host ''/'' [] ?port 0 agent)"
  have guards: "require_matching_host ext (pq_headers request) ?host ?port 443 = Inr ()"
    "?port \<notin> set DEFAULT_CONNECT_BLOCKED_PORTS" "er_decision (rv_result ?prelim) \<noteq> Block"
    using assms(2) Inr by (auto simp: connect_handle_def Let_def is_ok_unit split: if_splits)
  obtain addresses where res: "resolve_upstream (en_lookup env) ?host ?port (allows_private ?prelim)
      = Inr addresses"
    using assms(2) Inr guards
    by (auto simp: connect_handle_def Let_def split: if_splits sum.splits)
  have "a \<in> contacts (connect_tunnel ops rules ext env ?host ?port addresses agent)"
    using assms(2) Inr guards res by (auto simp: connect_handle_def Let_def split: if_splits)
  then show ?thesis
    using connect_tunnel_contacts resolve_upstream_addresses [OF res]
      evaluation_allowed [OF assms(1) guards(3)] guards(1,2) Inr
    unfolding connect_authorised_def may_contact_def by blast
qed

lemma forward_handle_contacts:
  assumes "wf_rule_set lext (re_rule_set engine)"
    and "a \<in> contacts (forward_handle ops engine ext env request body_prefix agent)"
  shows "forward_authorised ops (re_rule_set engine) ext env request agent a"
proof (cases "parse_absolute_http_uri ext (pq_uri request)")
  case (Inl e)
  with assms(2) show ?thesis by (simp add: forward_handle_def)
next
  case (Inr target)
  let ?host = "tg_host target" and ?port = "tg_port target" and ?headers = "pq_headers request"
  have host: "require_matching_host ext ?headers ?host ?port 80 = Inr ()"
    using assms(2) Inr by (auto simp: forward_handle_def Let_def is_ok_unit split: if_splits)
  obtain n where n: "request_body_length ?headers MAX_HTTP_BODY_BYTES = Inr n"
    using assms(2) Inr host by (cases "request_body_length ?headers MAX_HTTP_BODY_BYTES")
      (auto simp: forward_handle_def Let_def is_ok_unit split: http_request_error.splits)
  let ?ev = "evaluate_snapshot_with_egress ops (re_rule_set engine)
      (proxy_http_context (pq_method request) ?host (tg_path target) (policy_headers ?headers) ?port n agent)"
  have ok: "er_decision (rv_result ?ev) \<noteq> Block"
    using assms(2) Inr host n
    by (auto simp: forward_handle_def Let_def is_ok_unit evaluate_with_egress_def snapshot_def
        split: if_splits)
  obtain addresses where res: "resolve_upstream (en_lookup env) ?host ?port (allows_private ?ev)
      = Inr addresses"
    using assms(2) Inr host n ok
    by (auto simp: forward_handle_def Let_def is_ok_unit evaluate_with_egress_def snapshot_def
        split: if_splits sum.splits)
  obtain r dials where c: "connect_upstream (en_dial env) addresses = (r, dials)" by (meson surj_pair)
  have "a \<in> set addresses"
    using assms(2) Inr host n ok res connect_upstream_contacts [OF c] forward_exchange_contacts
    by (cases r) (fastforce simp: forward_handle_def Let_def is_ok_unit evaluate_with_egress_def
        snapshot_def c split: if_splits)+
  then show ?thesis
    using resolve_upstream_addresses [OF res] evaluation_allowed [OF assms(1) ok] host n Inr
    unfolding forward_authorised_def may_contact_def by blast
qed

section \<open>What is sent upstream\<close>

fun upstream_writes :: "proxy_event list \<Rightarrow> string list" where
  "upstream_writes [] = []"
| "upstream_writes (To_Upstream a bytes # es) = bytes # upstream_writes es"
| "upstream_writes (_ # es) = upstream_writes es"

fun moved :: "transfer_step list \<Rightarrow> string" where
  "moved [] = []"
| "moved (Moved bytes # steps) = bytes @ moved steps"
| "moved (_ # steps) = moved steps"

definition client_steps :: "(direction \<times> transfer_step) list \<Rightarrow> transfer_step list" where
  "client_steps steps = map snd (filter (\<lambda>(d, _). d = From_Client) steps)"

lemma upstream_writes_append [simp]: "upstream_writes (es @ fs) = upstream_writes es @ upstream_writes fs"
  by (induction es rule: upstream_writes.induct) auto

lemma upstream_writes_map [simp]:
  "upstream_writes (map (To_Upstream a) xs) = xs"
  by (induction xs) simp_all

lemma upstream_writes_client [simp]: "upstream_writes (map To_Client xs) = []"
  by (induction xs) simp_all

lemma upstream_writes_error [simp]: "upstream_writes (error_response e # es) = upstream_writes es"
  by (cases e) simp_all

lemma upstream_writes_dials:
  "connect_upstream dial addresses = (r, es) \<Longrightarrow> upstream_writes es = []"
  by (induction addresses arbitrary: es) (auto split: dial.splits prod.splits)

lemma copied_prefix:
  "copy_with_idle_timeout (Some n) steps c = (r, chunks) \<Longrightarrow> prefix (concat chunks) (take n (moved steps))"
proof (induction steps arbitrary: n c r chunks)
  case (Cons step steps)
  show ?case
  proof (cases "n = 0")
    case True
    with Cons.prems show ?thesis by simp
  next
    case False
    show ?thesis
    proof (cases step)
      case (Moved bytes)
      have rest: "n - length (take n bytes) = n - length bytes" by simp
      from Moved Cons.prems False show ?thesis
        using Cons.IH [of "n - length bytes" "c + length (take n bytes)"]
        by (auto simp: Let_def rest simp del: length_take split: if_splits prod.splits)
    qed (use Cons.prems False in auto)
  qed
qed auto

lemma relay_left_closed: "upstream_writes (relay_with_idle_timeout a steps True r) = []"
  by (induction steps arbitrary: r)
    (auto simp: Let_def split: transfer_step.splits direction.splits)

lemma relay_prefix:
  "prefix (concat (upstream_writes (relay_with_idle_timeout a steps False r))) (moved (client_steps steps))"
  by (induction steps arbitrary: r)
    (auto simp: client_steps_def Let_def relay_left_closed split: transfer_step.splits direction.splits)

text \<open>A handler sends nothing, or a head and then no more than the given body.\<close>

definition sends :: "string list \<Rightarrow> string \<Rightarrow> string \<Rightarrow> bool" where
  "sends writes head body \<longleftrightarrow>
     writes = [] \<or> (\<exists>rest. writes = head # rest \<and> prefix (concat rest) body)"

lemma forward_exchange_sends:
  "sends (upstream_writes (forward_exchange env a head body_prefix n)) head
     (body_prefix @ take (n - length body_prefix) (moved (en_body env)))"
proof -
  obtain r chunks where c: "copy_with_idle_timeout (Some (n - length body_prefix)) (en_body env) 0
      = (r, chunks)" by (meson surj_pair)
  show ?thesis
    using copied_prefix [OF c] c by (auto simp: sends_def forward_exchange_def Let_def)
qed

lemma connect_tunnel_sends:
  "\<exists>client_hello. sends (upstream_writes (connect_tunnel ops rules ext env host port addresses agent))
     client_hello (moved (client_steps (en_relay env)))
   \<and> (upstream_writes (connect_tunnel ops rules ext env host port addresses agent) \<noteq> []
      \<longrightarrow> read_client_hello_record (en_hello env) = Some client_hello)"
proof (cases "read_client_hello_record (en_hello env)")
  case None
  then show ?thesis by (simp add: connect_tunnel_def sends_def)
next
  case (Some client_hello)
  obtain r dials where c: "connect_upstream (en_dial env) addresses = (r, dials)" by (meson surj_pair)
  have "sends (upstream_writes (connect_tunnel ops rules ext env host port addresses agent))
      client_hello (moved (client_steps (en_relay env)))"
    using relay_prefix upstream_writes_dials [OF c]
    by (cases r) (auto simp: connect_tunnel_def Let_def Some c sends_def split: option.splits sum.splits)
  with Some show ?thesis by blast
qed

lemma body_length_bound: "request_body_length headers limit = Inr n \<Longrightarrow> n \<le> limit"
  by (auto simp: request_body_length_def result_simps split: if_splits list.splits)

text \<open>A plain request is refused with a reply, or the exchange with the upstream takes place.\<close>

lemma forward_handle_exchange:
  "upstream_writes (forward_handle ops engine ext env request body_prefix agent) = []
   \<or> (\<exists>target n upstream. parse_absolute_http_uri ext (pq_uri request) = Inr target
        \<and> request_body_length (pq_headers request) MAX_HTTP_BODY_BYTES = Inr n \<and> length body_prefix \<le> n
        \<and> upstream_writes (forward_handle ops engine ext env request body_prefix agent)
          = upstream_writes (forward_exchange env upstream
              (outbound_head (pq_method request) (tg_path target) (pq_headers request)) body_prefix n))"
  unfolding forward_handle_def Let_def
  by (auto split: sum.splits http_request_error.splits prod.splits dest!: upstream_writes_dials)

lemma connect_handle_tunnel:
  "upstream_writes (connect_handle ops rules ext env request body_prefix agent) = []
   \<or> (\<exists>host port addresses. upstream_writes (connect_handle ops rules ext env request body_prefix agent)
        = upstream_writes (connect_tunnel ops rules ext env host port addresses agent))"
  unfolding connect_handle_def Let_def by (auto split: sum.splits)

lemma forward_handle_sends:
  "upstream_writes (forward_handle ops engine ext env request body_prefix agent) = []
     \<or> (\<exists>target n. parse_absolute_http_uri ext (pq_uri request) = Inr target
          \<and> request_body_length (pq_headers request) MAX_HTTP_BODY_BYTES = Inr n
          \<and> length body_prefix \<le> n \<and> n \<le> 16777216
          \<and> sends (upstream_writes (forward_handle ops engine ext env request body_prefix agent))
              (outbound_head (pq_method request) (tg_path target) (pq_headers request))
              (body_prefix @ take (n - length body_prefix) (moved (en_body env))))"
proof (rule disjE [OF forward_handle_exchange [of ops engine ext env request body_prefix agent]])
  assume "\<exists>target n upstream. parse_absolute_http_uri ext (pq_uri request) = Inr target
      \<and> request_body_length (pq_headers request) MAX_HTTP_BODY_BYTES = Inr n \<and> length body_prefix \<le> n
      \<and> upstream_writes (forward_handle ops engine ext env request body_prefix agent)
        = upstream_writes (forward_exchange env upstream
            (outbound_head (pq_method request) (tg_path target) (pq_headers request)) body_prefix n)"
  then obtain target n upstream where fw: "parse_absolute_http_uri ext (pq_uri request) = Inr target"
    "request_body_length (pq_headers request) MAX_HTTP_BODY_BYTES = Inr n" "length body_prefix \<le> n"
    "upstream_writes (forward_handle ops engine ext env request body_prefix agent)
      = upstream_writes (forward_exchange env upstream
          (outbound_head (pq_method request) (tg_path target) (pq_headers request)) body_prefix n)"
    by blast
  have "n \<le> 16777216" using body_length_bound [OF fw(2)] by (simp add: MAX_HTTP_BODY_BYTES_def)
  with fw forward_exchange_sends show ?thesis by auto
qed (rule disjI1)

section \<open>Properties\<close>


text \<open>
  C28: The proxy sends exactly what it inspected. A tunnel starts with the ClientHello whose server name
  was evaluated, followed only by bytes of the client. A plain request starts with the rewritten head
  for the evaluated method and path, followed by bytes of the client of at most the declared body
  length, which is at most sixteen megabytes; of the headers none is added, and hop-by-hop headers and
  those named by a Connection header are dropped.
\<close>

theorem proxy_sends_inspected:
  shows "(\<exists>client_hello. sends (upstream_writes (connect_handle ops rules ext env request body_prefix agent))
        client_hello (moved (client_steps (en_relay env)))
      \<and> (upstream_writes (connect_handle ops rules ext env request body_prefix agent) = []
         \<or> read_client_hello_record (en_hello env) = Some client_hello))
    \<and> (upstream_writes (forward_handle ops engine ext env request body_prefix agent) = []
       \<or> (\<exists>target n. parse_absolute_http_uri ext (pq_uri request) = Inr target
            \<and> request_body_length (pq_headers request) MAX_HTTP_BODY_BYTES = Inr n
            \<and> length body_prefix \<le> n \<and> n \<le> 16777216
            \<and> sends (upstream_writes (forward_handle ops engine ext env request body_prefix agent))
                (outbound_head (pq_method request) (tg_path target) (pq_headers request))
                (body_prefix @ take (n - length body_prefix) (moved (en_body env)))))"
proof
  show "\<exists>client_hello. sends (upstream_writes (connect_handle ops rules ext env request body_prefix agent))
      client_hello (moved (client_steps (en_relay env)))
    \<and> (upstream_writes (connect_handle ops rules ext env request body_prefix agent) = []
       \<or> read_client_hello_record (en_hello env) = Some client_hello)"
    using connect_handle_tunnel [of ops rules ext env request body_prefix agent]
      connect_tunnel_sends [of ops rules ext env _ _ _ agent]
    by (metis sends_def)
qed (rule forward_handle_sends)

section \<open>Examples\<close>

definition demo_url :: full_url where
  "demo_url = \<lparr>url_scheme = ''http'', url_username = [], url_password = None,
     url_host_str = Some ''a.io'', url_port_or_known_default = Some 80, url_path = ''/'',
     url_query = None, url_cannot_be_a_base = False, url_host = Some (Host_Domain ''a.io''),
     url_port = Some 80, url_fragment = None\<rparr>"

definition demo_head :: string where
  "demo_head = ''G'' @ crlf @ crlf"

definition demo_proxy_ext :: "(string \<times> string) list \<Rightarrow> proxy_ext" where
  "demo_proxy_ext headers = \<lparr>
     px_httparse = (\<lambda>_ bytes. Head_Complete \<lparr>hp_consumed = length bytes, hp_version = Some 1,
       hp_method = Some ''GET'', hp_path = Some ''http://a.io/'', hp_headers = headers\<rparr>),
     px_url_parse = (\<lambda>_. Some demo_url), px_host_is_domain = (\<lambda>_. True)\<rparr>"

definition demo_proxy_env :: proxy_env where
  "demo_proxy_env = \<lparr>en_head = [Head_Bytes demo_head],
     en_lookup = (\<lambda>_. Lookup_Addresses [V4 16843009]), en_dial = (\<lambda>_. Dial_Connected),
     en_client_open = True, en_hello = [], en_hello_written = True, en_relay = [],
     en_head_written = True, en_prefix_written = True, en_body = [], en_finished = True,
     en_response = []\<rparr>"

definition demo_engine :: "string rule_engine" where
  "demo_engine = \<lparr>re_rules_dir = [''r''], re_rule_set = demo_rule_set\<rparr>"

lemma demo_head_read:
  "read_through_headers (en_head demo_proxy_env) [] MAX_HEADER_BYTES = Some (Inr (5, demo_head))"
  by (simp add: demo_proxy_env_def demo_head_def crlf_def bounded_header_end_def MAX_HEADER_BYTES_def
      find_header_end.simps)

definition demo_headers :: "(string \<times> string) list" where
  "demo_headers = [(''Host'', ''a.io'')]"

abbreviation demo_px :: proxy_ext where
  "demo_px \<equiv> demo_proxy_ext demo_headers"

definition demo_request :: parsed_request where
  "demo_request = \<lparr>pq_method = ''GET'', pq_uri = ''http://a.io/'', pq_headers = demo_headers\<rparr>"

definition demo_address :: socket_addr where
  "demo_address = (V4 16843009, 80)"

lemma demo_parse_headers: "parse_headers demo_headers = Inr demo_headers"
  by code_simp

lemma demo_head_length [simp]: "length demo_head = 5"
  by (simp add: demo_head_def crlf_def)

lemma demo_proxy_parse: "parse_request demo_px demo_head = Inr demo_request"
proof -
  have "\<not> prefix crlf demo_head" by (simp add: demo_head_def crlf_def)
  then show ?thesis
    by (simp add: parse_request_def demo_proxy_ext_def demo_parse_headers demo_request_def)
qed

lemma demo_target:
  "parse_absolute_http_uri demo_px u = Inr \<lparr>tg_host = ''a.io'', tg_port = 80, tg_path = ''/''\<rparr>"
  by (simp add: parse_absolute_http_uri_def demo_proxy_ext_def demo_url_def normalized_url_host_def
      trim_end_matches_def to_ascii_lower_def is_ascii_upper_def)

lemma demo_host: "require_matching_host demo_px demo_headers ''a.io'' 80 80 = Inr ()"
  by code_simp

lemma demo_no_ip: "parse_ip ''a.io'' = None"
  by code_simp

lemma demo_unrestricted: "\<not> is_restricted_v4 16843009"
  by (simp add: is_restricted_v4_def octet_def)

lemma demo_body: "request_body_length demo_headers n = Inr 0"
  by (simp add: request_body_length_def demo_headers_def header_values_def eq_ignore_ascii_case_def
      to_ascii_lower_def is_ascii_upper_def)

lemma demo_proxy_rule:
  "deciding_rule demo_cel demo_rule_set (proxy_http_context http_verb host path headers port n agent)
     = Some demo_web"
  by (simp add: demo_eval_defs proxy_http_context_def default_dns_context_def)

lemma demo_forward:
  "\<exists>rest. forward_handle demo_cel demo_engine demo_px demo_proxy_env demo_request [] agent
     = Dial demo_address # rest"
proof -
  let ?ev = "evaluate_with_egress demo_cel demo_engine
      (proxy_http_context ''GET'' ''a.io'' ''/'' (policy_headers demo_headers) 80 0 agent)"
  have ev: "er_decision (rv_result ?ev) = Allow" "allows_private ?ev = False"
    by (simp_all add: evaluate_with_egress_def snapshot_def demo_engine_def demo_proxy_rule
        evaluate_with_egress_deciding [OF demo_wf] allows_private_def demo_web_def)
  have res: "resolve_upstream (en_lookup demo_proxy_env) ''a.io'' 80 False = Inr [demo_address]"
    by (simp add: resolve_upstream_def demo_no_ip demo_proxy_env_def MAX_UPSTREAM_ADDRESSES_def
        select_address_def demo_unrestricted demo_address_def)
  have dial: "en_dial demo_proxy_env demo_address = Dial_Connected"
    by (simp add: demo_proxy_env_def)
  show ?thesis
    unfolding forward_handle_def
    by (simp add: demo_request_def demo_target demo_host demo_body ev res dial is_ok_def)
qed

lemma demo_contact:
  "demo_address \<in> contacts (serve_connection demo_cel demo_engine demo_px True (Some (Some ''web-1''))
     demo_proxy_env)"
proof -
  have "\<not> eq_ignore_ascii_case ''GET'' ''CONNECT''" by code_simp
  then have "serve_connection demo_cel demo_engine demo_px True (Some (Some ''web-1'')) demo_proxy_env
      = forward_handle demo_cel demo_engine demo_px demo_proxy_env demo_request []
          (Some (derive_agent_name ''web-1''))"
    by (simp add: serve_connection_def resolve_agent_name_def handle_connection_def demo_head_read
        demo_proxy_parse demo_request_def)
  with demo_forward [of "Some (derive_agent_name ''web-1'')"] show ?thesis by auto
qed


definition smuggling_headers :: "string \<Rightarrow> (string \<times> string) list" where
  "smuggling_headers host =
     [(''Host'', host), (''Content-Length'', ''4''), (''Connection'', ''content-length'')]"


end
