(* ===== verification/Agent_Helper.thy ===== *)
theory Agent_Helper
  imports Agent_Api
begin

text \<open>
  The policy shim of the containers (src/outcall-agent): the parsing of an invocation, the client of the
  agent API, the heartbeat, the execution of a command and the sequence of all of these. What the daemon,
  the child process and the signals do is the environment of a run; what the shim does to the world is the
  list of events of the run. \<open>serde_json\<close> is an argument.
\<close>

section \<open>invocation.rs\<close>

record invocation =
  in_action_type :: action_type
  in_target :: string
  in_metadata :: "(string \<times> string) list"
  in_command :: "string list option"

datatype helper_error =
    No_Action
  | Encode_Args
  | Timeout_Not_Unicode
  | Timeout_Not_Integer
  | Timeout_Range
  | Socket_Check
  | Post_Failed
  | Body_Limit
  | Malformed_Response
  | Api_Error "string option"
  | No_Data
  | Checkin_Timeout
  | Checkin_Rejected helper_error
  | Sigterm_Handler
  | Permission_Timeout
  | Permission_Failed helper_error
  | Heartbeat_Lost
  | Daemon_Unreachable
  | Cleanup_Failed
  | Heartbeat_Join

fun join_args :: "string list \<Rightarrow> string" where
  "join_args [] = []"
| "join_args [a] = a"
| "join_args (a # as) = a @ '' '' @ join_args as"

definition argument_metadata ::
  "(string list \<Rightarrow> string option) \<Rightarrow> string list \<Rightarrow> (helper_error, (string \<times> string) list) result" where
  "argument_metadata encode args =
     (if args = [] then Inr []
      else res_bind (ok_or Encode_Args (encode args)) (\<lambda>args_json.
        Inr [(''args'', join_args args), (''args_json'', args_json)]))"

definition command_invocation ::
  "(string list \<Rightarrow> string option) \<Rightarrow> action_type \<Rightarrow> string list \<Rightarrow> (helper_error, invocation) result" where
  "command_invocation encode action_type command =
     res_bind (argument_metadata encode (tl command)) (\<lambda>metadata.
       Inr \<lparr>in_action_type = action_type,
            in_target = (case command of [] \<Rightarrow> [] | c # _ \<Rightarrow> c),
            in_metadata = metadata,
            in_command = (if command = [] then None else Some command)\<rparr>)"

definition parse_invocation ::
  "(string list \<Rightarrow> string option) \<Rightarrow> string list \<Rightarrow> (helper_error, invocation) result" where
  "parse_invocation encode args =
     (case args of
        [] \<Rightarrow> Inl No_Action
      | verb # rest \<Rightarrow>
          if verb \<in> set [''bash'', ''sh'', ''shell''] then command_invocation encode Shell_Exec rest
          else if verb = ''exec'' then command_invocation encode Tool_Exec rest
          else if verb \<in> set [''fetch'', ''http'', ''https'', ''curl'', ''wget'']
          then Inr \<lparr>in_action_type = Network_Call,
                    in_target = (case rest of [] \<Rightarrow> [] | t # _ \<Rightarrow> t),
                    in_metadata = [(''method'', case rest of _ # m # _ \<Rightarrow> m | _ \<Rightarrow> ''GET'')],
                    in_command = None\<rparr>
          else if verb \<in> set [''file'', ''read'', ''write'']
          then Inr \<lparr>in_action_type = File_Access,
                    in_target = (case rest of [] \<Rightarrow> [] | t # _ \<Rightarrow> t),
                    in_metadata = [(''mode'', if verb = ''write'' then ''write'' else ''read'')],
                    in_command = None\<rparr>
          else
            res_bind (argument_metadata encode rest) (\<lambda>metadata.
              Inr \<lparr>in_action_type = Tool_Exec, in_target = verb, in_metadata = metadata,
                   in_command = Some (verb # rest)\<rparr>))"

section \<open>api\_client.rs\<close>

definition MAX_API_BODY_BYTES :: nat where "MAX_API_BODY_BYTES = 65536"

definition MAX_REQUEST_TIMEOUT_SECS :: nat where "MAX_REQUEST_TIMEOUT_SECS = 300"

definition DEFAULT_REQUEST_TIMEOUT_SECS :: nat where "DEFAULT_REQUEST_TIMEOUT_SECS = 30"

datatype env_var = Var_Text string | Var_Not_Present | Var_Not_Unicode

definition parse_request_timeout :: "string option \<Rightarrow> (helper_error, nat) result" where
  "parse_request_timeout raw =
     res_bind (case raw of
                 Some t \<Rightarrow> ok_or Timeout_Not_Integer (parse_u64 t)
               | None \<Rightarrow> Inr DEFAULT_REQUEST_TIMEOUT_SECS) (\<lambda>seconds.
     if \<not> (1 \<le> seconds \<and> seconds \<le> MAX_REQUEST_TIMEOUT_SECS) then Inl Timeout_Range else Inr seconds)"

definition request_timeout_from_env :: "env_var \<Rightarrow> (helper_error, nat) result" where
  "request_timeout_from_env var =
     (case var of
        Var_Text t \<Rightarrow> parse_request_timeout (Some t)
      | Var_Not_Present \<Rightarrow> parse_request_timeout None
      | Var_Not_Unicode \<Rightarrow> Inl Timeout_Not_Unicode)"

record 'r api_response =
  ar_success :: bool
  ar_data :: "'r option"
  ar_error :: "string option"

text \<open>
  The exchange of one request: the response has a status and a body of some length, which may not be JSON.
\<close>

datatype 'r exchange = Connect_Failed | Send_Failed | Responded bool nat "'r api_response option"

definition serialize_bounded_json :: "nat option \<Rightarrow> (helper_error, nat) result" where
  "serialize_bounded_json body_len =
     res_bind (ok_or Post_Failed body_len) (\<lambda>n. if MAX_API_BODY_BYTES < n then Inl Body_Limit else Inr n)"

definition collect_bounded_body :: "nat \<Rightarrow> (helper_error, unit) result" where
  "collect_bounded_body body_len = ensure (body_len \<le> MAX_API_BODY_BYTES) Body_Limit"

definition post_json :: "nat option \<Rightarrow> 'r exchange \<Rightarrow> (helper_error, 'r) result" where
  "post_json body exchange =
     (case exchange of
        Connect_Failed \<Rightarrow> Inl Post_Failed
      | Send_Failed \<Rightarrow> res_bind (serialize_bounded_json body) (\<lambda>_. Inl Post_Failed)
      | Responded status_ok body_len parsed \<Rightarrow>
          res_bind (serialize_bounded_json body) (\<lambda>_.
          res_bind (collect_bounded_body body_len) (\<lambda>_.
          res_bind (ok_or Malformed_Response parsed) (\<lambda>response.
          if \<not> status_ok \<or> \<not> ar_success response then Inl (Api_Error (ar_error response))
          else ok_or No_Data (ar_data response)))))"

section \<open>heartbeat.rs\<close>

datatype heartbeat_exit = Stopped | Unreachable

text \<open>What the loop meets: an interval that ends with a probe, a change of the stop flag, or the end of its sender.\<close>

datatype beat = Beat bool | Stop_Changed bool | Stop_Closed

fun heartbeat_loop :: "beat list \<Rightarrow> heartbeat_exit option" where
  "heartbeat_loop [] = None"
| "heartbeat_loop (Beat reachable # beats) = (if \<not> reachable then Some Unreachable else heartbeat_loop beats)"
| "heartbeat_loop (Stop_Changed stop # beats) = (if stop then Some Stopped else heartbeat_loop beats)"
| "heartbeat_loop (Stop_Closed # beats) = Some Stopped"

definition receive_exit :: "heartbeat_exit option \<Rightarrow> (helper_error, heartbeat_exit) result" where
  "receive_exit r = ok_or Heartbeat_Lost r"

definition heartbeat_stop :: "heartbeat_exit option \<Rightarrow> bool \<Rightarrow> (helper_error, unit) result" where
  "heartbeat_stop completion joined =
     (if \<not> joined then Inl Heartbeat_Join
      else res_bind (receive_exit completion) (\<lambda>x.
        case x of Stopped \<Rightarrow> Inr () | Unreachable \<Rightarrow> Inl Daemon_Unreachable))"

section \<open>process.rs\<close>

datatype helper_event =
    Posted_Checkin
  | Posted_Permission string permission_request
  | Spawned "string list"
  | Killed

datatype command_error = Action_Failed | Command_Unreachable helper_error

datatype wait_result = Waited "int option" | Wait_Failed

text \<open>The child: it cannot be started, it ends first, or the heartbeat ends first.\<close>

datatype command_race =
    Spawn_Failed
  | Child_First wait_result
  | Heartbeat_First "heartbeat_exit option" wait_result bool

definition exit_code :: "int option \<Rightarrow> nat" where
  "exit_code status =
     (case status of
        Some code \<Rightarrow> if 0 \<le> code \<and> code \<le> 255 then nat code else 1
      | None \<Rightarrow> 1)"

definition wait_exit :: "wait_result \<Rightarrow> bool \<Rightarrow> (command_error, nat \<times> bool) result" where
  "wait_exit w consumed =
     (case w of Waited status \<Rightarrow> Inr (exit_code status, consumed) | Wait_Failed \<Rightarrow> Inl Action_Failed)"

text \<open>A child that was not waited for is killed when its handle is dropped.\<close>

definition kill_on_drop :: "wait_result \<Rightarrow> helper_event list" where
  "kill_on_drop w = (if w = Wait_Failed then [Killed] else [])"

definition execute_command ::
  "string list \<Rightarrow> command_race \<Rightarrow> (command_error, nat \<times> bool) result \<times> helper_event list" where
  "execute_command args race =
     (if args = [] then (Inr (0, False), [])
      else
        (case race of
           Spawn_Failed \<Rightarrow> (Inl Action_Failed, [])
         | Child_First w \<Rightarrow> (wait_exit w False, Spawned args # kill_on_drop w)
         | Heartbeat_First completion w killed \<Rightarrow>
             (case receive_exit completion of
                Inl e \<Rightarrow> (Inl (Command_Unreachable e), [Spawned args, Killed])
              | Inr Stopped \<Rightarrow> (wait_exit w True, Spawned args # kill_on_drop w)
              | Inr Unreachable \<Rightarrow>
                  (Inl (Command_Unreachable (if killed then Daemon_Unreachable else Cleanup_Failed)),
                   [Spawned args, Killed]))))"

section \<open>main.rs\<close>

definition UNREACHABLE_EXIT_CODE :: nat where "UNREACHABLE_EXIT_CODE = 5"

datatype 'a timed = Timed_Out | Answered 'a

datatype verdict_race = Verdict_First "verdict exchange timed" | Beat_First "heartbeat_exit option"

record helper_env =
  he_timeout_var :: env_var
  he_reachable :: bool
  he_checkin :: "checkin_data exchange timed"
  he_sigterm :: bool
  he_body_size :: "permission_request \<Rightarrow> nat option"
  he_verdict :: verdict_race
  he_completion :: "heartbeat_exit option"
  he_joined :: bool
  he_command :: command_race

definition print_static_output :: "string list \<Rightarrow> bool" where
  "print_static_output args =
     list_ex (\<lambda>a. a \<in> set [''--version'', ''-V'', ''--help'', ''-h'']) (tl args)"

definition parse_verdict_result :: "nat option \<Rightarrow> verdict exchange timed \<Rightarrow> (helper_error, verdict) result" where
  "parse_verdict_result body r =
     (case r of
        Timed_Out \<Rightarrow> Inl Permission_Timeout
      | Answered ex \<Rightarrow>
          (case post_json body ex of Inl e \<Rightarrow> Inl (Permission_Failed e) | Inr v \<Rightarrow> Inr v))"

text \<open>Before the permission is asked for: the session token and the invocation. The body of a check-in has two bytes.\<close>

definition helper_checkin ::
  "(string list \<Rightarrow> string option) \<Rightarrow> helper_env \<Rightarrow> string list
     \<Rightarrow> (helper_error, checkin_data \<times> invocation) result" where
  "helper_checkin encode env args =
     res_bind (case he_checkin env of
                 Timed_Out \<Rightarrow> Inl Checkin_Timeout
               | Answered ex \<Rightarrow>
                   (case post_json (Some 2) ex of Inl e \<Rightarrow> Inl (Checkin_Rejected e) | Inr c \<Rightarrow> Inr c)) (\<lambda>session.
     res_bind (parse_invocation encode (tl args)) (\<lambda>invocation.
     res_bind (ensure (he_sigterm env) Sigterm_Handler) (\<lambda>_. Inr (session, invocation))))"

definition permission_of :: "invocation \<Rightarrow> permission_request" where
  "permission_of invocation =
     \<lparr>pr_action_type = in_action_type invocation, pr_target = in_target invocation,
      pr_metadata = (if in_metadata invocation = [] then None else Some (in_metadata invocation))\<rparr>"

definition stop_then :: "helper_env \<Rightarrow> nat \<Rightarrow> (helper_error, nat) result" where
  "stop_then env code = res_bind (heartbeat_stop (he_completion env) (he_joined env)) (\<lambda>_. Inr code)"

text \<open>After the verdict.\<close>

definition helper_act ::
  "helper_env \<Rightarrow> invocation \<Rightarrow> verdict \<Rightarrow> (helper_error, nat) result \<times> helper_event list" where
  "helper_act env invocation verdict =
     (if \<not> vd_allowed verdict then (stop_then env 1, [])
      else
        (case in_command invocation of
           None \<Rightarrow> (stop_then env 0, [])
         | Some command \<Rightarrow>
             (case execute_command command (he_command env) of
                (Inr (code, consumed), evs) \<Rightarrow> (if \<not> consumed then stop_then env code else Inr code, evs)
              | (Inl (Command_Unreachable e), evs) \<Rightarrow> (Inl e, evs)
              | (Inl Action_Failed, evs) \<Rightarrow> (stop_then env 1, evs))))"

definition helper_run ::
  "(string list \<Rightarrow> string option) \<Rightarrow> helper_env \<Rightarrow> string list
     \<Rightarrow> (helper_error, nat) result \<times> helper_event list" where
  "helper_run encode env args =
     (if print_static_output args then (Inr 0, [])
      else if length args < 2 then (Inr 1, [])
      else
        (case res_bind (request_timeout_from_env (he_timeout_var env)) (\<lambda>_.
              ensure (he_reachable env) Socket_Check) of
           Inl e \<Rightarrow> (Inl e, [])
         | Inr _ \<Rightarrow>
             (case helper_checkin encode env args of
                Inl e \<Rightarrow> (Inl e, [Posted_Checkin])
              | Inr (session, invocation) \<Rightarrow>
                  (let permission = permission_of invocation;
                       evs = [Posted_Checkin, Posted_Permission (cd_session_token session) permission]
                   in case he_verdict env of
                        Beat_First completion \<Rightarrow>
                          (res_bind (receive_exit completion) (\<lambda>x.
                             case x of Stopped \<Rightarrow> Inr 0 | Unreachable \<Rightarrow> Inl Daemon_Unreachable), evs)
                      | Verdict_First r \<Rightarrow>
                          (case parse_verdict_result (he_body_size env permission) r of
                             Inl e \<Rightarrow> (Inl e, evs)
                           | Inr verdict \<Rightarrow>
                               (case helper_act env invocation verdict of
                                  (res, later) \<Rightarrow> (res, evs @ later)))))))"

definition helper_main :: "(helper_error, nat) result \<Rightarrow> nat" where
  "helper_main r = (case r of Inr code \<Rightarrow> code | Inl _ \<Rightarrow> UNREACHABLE_EXIT_CODE)"

section \<open>The command that runs is the command that was evaluated\<close>

lemma if_chain:
  "(if A then c1 else if B then c2 else if C then Inr x else if D then Inr y else z) = Inr v \<Longrightarrow>
     c1 = Inr v \<or> c2 = Inr v \<or> v = x \<or> v = y \<or> z = Inr v"
  by (auto split: if_splits)

lemma parse_invocation_command:
  assumes "parse_invocation encode args = Inr ivn" and "in_command ivn = Some cmd"
  shows "cmd \<noteq> [] \<and> in_target ivn = hd cmd \<and> in_action_type ivn \<in> {Tool_Exec, Shell_Exec}
    \<and> argument_metadata encode (tl cmd) = Inr (in_metadata ivn)"
proof -
  have command: "command_invocation encode t c = Inr ivn \<Longrightarrow> t \<in> {Tool_Exec, Shell_Exec} \<Longrightarrow> ?thesis" for t c
    using assms(2) by (auto simp: command_invocation_def result_simps split: list.splits if_splits)
  obtain verb rest where args: "args = verb # rest"
    using assms(1) by (cases args) (simp_all add: parse_invocation_def)
  from if_chain [OF assms(1) [unfolded args parse_invocation_def list.case]] assms(2) command
  show ?thesis by (elim disjE) (simp_all add: result_simps, auto)
qed

definition decodes :: "context_ext \<Rightarrow> (string list \<Rightarrow> string option) \<Rightarrow> bool" where
  "decodes ext encode \<longleftrightarrow> (\<forall>xs j. encode xs = Some j \<longrightarrow> json_string_array ext j = Some xs)"

lemma metadata_decodes:
  assumes "decodes ext encode" and "argument_metadata encode args = Inr metadata"
    and "parse_command_args ext metadata = Inr args'"
  shows "args' = args"
  using assms
  by (auto simp: argument_metadata_def parse_command_args_def decodes_def result_simps split: if_splits)

lemma evaluated_command:
  assumes "decodes ext encode" and "parse_invocation encode args = Inr ivn" and "in_command ivn = Some cmd"
    and "build_eval_context ext (permission_of ivn) name = Inr cx"
  shows "\<exists>run. ev_run cx = Some run \<and> run_tool run = hd cmd \<and> run_args run = tl cmd"
proof -
  note cmd = parse_invocation_command [OF assms(2,3)]
  have "in_metadata ivn = (case pr_metadata (permission_of ivn) of Some m \<Rightarrow> m | None \<Rightarrow> [])"
    by (simp add: permission_of_def)
  from build_eval_context_shape [OF assms(4) this] cmd obtain run where "ev_run cx = Some run"
    "run_tool run = hd cmd" "parse_command_args ext (in_metadata ivn) = Inr (run_args run)"
    by (auto simp: permission_of_def)
  with metadata_decodes [OF assms(1)] cmd show ?thesis by blast
qed

lemma post_json_Inr:
  assumes "post_json body ex = Inr v"
  shows "\<exists>n resp. ex = Responded True n (Some resp) \<and> ar_success resp \<and> ar_data resp = Some v"
  using assms by (auto simp: post_json_def result_simps split: exchange.splits if_splits)

lemma helper_act_spawned:
  assumes "helper_act env ivn v = (r, evs)" and "Spawned cmd \<in> set evs"
  shows "vd_allowed v \<and> in_command ivn = Some cmd"
proof -
  have "set (snd (execute_command c race)) \<subseteq> {Spawned c, Killed}" for c race
    by (auto simp: execute_command_def kill_on_drop_def split: command_race.splits sum.splits
        heartbeat_exit.splits)
  then have "execute_command c race = (x, e) \<Longrightarrow> Spawned cmd \<in> set e \<Longrightarrow> c = cmd" for c race x e
    by (metis helper_event.distinct(11) helper_event.inject(2) insertE singletonD snd_conv subsetD)
  with assms show ?thesis
    by (auto simp: helper_act_def split: if_splits option.splits prod.splits sum.splits command_error.splits)
qed

lemma helper_run_spawned:
  assumes "helper_run encode env args = (r, evs)" and "Spawned cmd \<in> set evs"
  obtains token ivn body v ex where "helper_checkin encode env args = Inr (token, ivn)"
    "evs ! 1 = Posted_Permission (cd_session_token token) (permission_of ivn)" "1 < length evs"
    "he_verdict env = Verdict_First (Answered ex)" "post_json body ex = Inr v"
    "vd_allowed v" "in_command ivn = Some cmd"
proof -
  from assms obtain session ivn where c: "helper_checkin encode env args = Inr (session, ivn)"
    by (auto simp: helper_run_def split: if_splits sum.splits)
  let ?p = "permission_of ivn"
  from assms c obtain x where x: "he_verdict env = Verdict_First x"
    by (auto simp: helper_run_def Let_def split: if_splits sum.splits verdict_race.splits)
  from assms c x obtain v where v: "parse_verdict_result (he_body_size env ?p) x = Inr v"
    by (auto simp: helper_run_def Let_def split: if_splits sum.splits prod.splits)
  obtain res later where act: "helper_act env ivn v = (res, later)" by (meson surj_pair)
  from assms c x v act have evs: "evs = [Posted_Checkin, Posted_Permission (cd_session_token session) ?p] @ later"
    by (auto simp: helper_run_def Let_def split: if_splits sum.splits)
  from v obtain ex where "x = Answered ex" "post_json (he_body_size env ?p) ex = Inr v"
    by (auto simp: parse_verdict_result_def split: timed.splits sum.splits)
  with that c x evs helper_act_spawned [OF act, of cmd] assms(2) show ?thesis by auto
qed

text \<open>
  C11: The shim starts a command only after it has posted a permission request and received, in a response
  marked as success, a verdict that allows it. If the verdict is the daemon's answer to that request, then
  the first matching rule of the daemon's policy is an allow rule for a context whose tool and arguments
  are exactly the program and the arguments that were started, whatever bytes they consist of.
\<close>

theorem helper_runs_evaluated_command:
  assumes "helper_run encode env args = (r, evs)" and "Spawned cmd \<in> set evs" and "decodes ext encode"
  shows "\<exists>token p n resp v. evs ! 1 = Posted_Permission token p
    \<and> he_verdict env = Verdict_First (Answered (Responded True n (Some resp)))
    \<and> ar_success resp \<and> ar_data resp = Some v \<and> vd_allowed v
    \<and> (\<forall>cfg peer now task st st'. ac_context cfg = ext
         \<and> permissions_check cfg peer now task (Payload p) st = (Inr v, st') \<longrightarrow>
         (\<exists>c cx run rule. resolve_session peer (as_sessions st) = Inr c
           \<and> build_eval_context ext p (mc_name c) = Inr cx
           \<and> ev_run cx = Some run \<and> run_tool run = hd cmd \<and> run_args run = tl cmd
           \<and> deciding_rule (ac_cel cfg) (re_rule_set (ac_rules cfg)) cx = Some rule
           \<and> cr_action rule = Rule_Allow))"
  using assms(1,2)
proof (rule helper_run_spawned)
  fix token ivn body v ex
  assume ivn: "helper_checkin encode env args = Inr (token, ivn)" "in_command ivn = Some cmd"
    and p: "evs ! 1 = Posted_Permission (cd_session_token token) (permission_of ivn)"
    and v: "he_verdict env = Verdict_First (Answered ex)" "post_json body ex = Inr v" "vd_allowed v"
  from ivn(1) have parse: "parse_invocation encode (tl args) = Inr ivn"
    by (auto simp: helper_checkin_def result_simps)
  obtain n resp where resp: "ex = Responded True n (Some resp)" "ar_success resp" "ar_data resp = Some v"
    using post_json_Inr [OF v(2)] by blast
  have "\<exists>c cx run rule. resolve_session peer (as_sessions st) = Inr c
      \<and> build_eval_context ext (permission_of ivn) (mc_name c) = Inr cx
      \<and> ev_run cx = Some run \<and> run_tool run = hd cmd \<and> run_args run = tl cmd
      \<and> deciding_rule (ac_cel cfg) (re_rule_set (ac_rules cfg)) cx = Some rule \<and> cr_action rule = Rule_Allow"
    if "ac_context cfg = ext"
      "permissions_check cfg peer now task (Payload (permission_of ivn)) st = (Inr v, st')"
    for cfg :: "('x, 'p) agent_config" and peer now task st st'
    using permissions_check_InrD [OF that(2)] that(1) evaluated_command [OF assms(3) parse ivn(2)]
      allowed_verdict_rule v(3) by metis
  with p v(1,3) resp show ?thesis by blast
qed

definition example_encode :: "string list \<Rightarrow> string option" where
  "example_encode xs = (if xs = [''status''] then Some ''[status]'' else None)"

definition example_ext :: context_ext where
  "example_ext = demo_context_ext\<lparr>json_string_array := (\<lambda>s. if s = ''[status]'' then Some [''status''] else None)\<rparr>"

definition example_helper :: "bool \<Rightarrow> verdict_race \<Rightarrow> helper_env" where
  "example_helper sigterm race =
     \<lparr>he_timeout_var = Var_Not_Present, he_reachable = True,
      he_checkin = Answered (Responded True 90 (Some \<lparr>ar_success = True,
        ar_data = Some \<lparr>cd_container_id = ''c1'', cd_session_token = ''t'', cd_context_keys = []\<rparr>,
        ar_error = None\<rparr>)),
      he_sigterm = sigterm, he_body_size = (\<lambda>_. Some 80), he_verdict = race, he_completion = Some Stopped,
      he_joined = True, he_command = Child_First (Waited (Some 0))\<rparr>"

definition example_verdict :: verdict_race where
  "example_verdict = Verdict_First (Answered (Responded True 40 (Some \<lparr>ar_success = True,
     ar_data = Some \<lparr>vd_allowed = True, vd_matched_rule = Some ''git'', vd_reason = None\<rparr>, ar_error = None\<rparr>)))"

definition example_permission :: permission_request where
  "example_permission = \<lparr>pr_action_type = Tool_Exec, pr_target = ''git'',
     pr_metadata = Some [(''args'', ''status''), (''args_json'', ''[status]'')]\<rparr>"

lemma example_invocation:
  "map_sum id permission_of (parse_invocation example_encode [''git'', ''status'']) = Inr example_permission"
  "map_sum id in_command (parse_invocation example_encode [''git'', ''status'']) = Inr (Some [''git'', ''status''])"
  by (simp_all add: parse_invocation_def argument_metadata_def example_encode_def permission_of_def
      example_permission_def)

lemma example_run:
  "helper_run example_encode (example_helper True example_verdict) [''outcall'', ''git'', ''status''] =
     (Inr 0, [Posted_Checkin, Posted_Permission ''t'' example_permission, Spawned [''git'', ''status'']])"
proof -
  obtain ivn where "parse_invocation example_encode [''git'', ''status''] = Inr ivn"
    "permission_of ivn = example_permission" "in_command ivn = Some [''git'', ''status'']"
    using example_invocation by (cases "parse_invocation example_encode [''git'', ''status'']") auto
  then show ?thesis
    by (simp add: helper_run_def example_helper_def example_verdict_def print_static_output_def
        request_timeout_from_env_def parse_request_timeout_def DEFAULT_REQUEST_TIMEOUT_SECS_def
        MAX_REQUEST_TIMEOUT_SECS_def helper_checkin_def post_json_def serialize_bounded_json_def
        collect_bounded_body_def MAX_API_BODY_BYTES_def parse_verdict_result_def helper_act_def
        execute_command_def wait_exit_def exit_code_def kill_on_drop_def stop_then_def heartbeat_stop_def
        receive_exit_def)
qed

theorem helper_runs_evaluated_command_witness:
  "decodes example_ext example_encode
   \<and> (\<exists>n resp v. he_verdict (example_helper True example_verdict) =
          Verdict_First (Answered (Responded True n (Some resp)))
        \<and> ar_data resp = Some v \<and> vd_allowed v)"
proof -
  have d: "decodes example_ext example_encode"
    by (simp add: decodes_def example_ext_def example_encode_def)
  then show ?thesis using helper_runs_evaluated_command [OF example_run _ d] by auto
qed

text \<open>
  A signal to terminate that arrives before the verdict makes the shim report success although the command
  it was given has not run.
\<close>

lemma terminated_shim_reports_success:
  "helper_run example_encode (example_helper True (Beat_First (Some Stopped))) [''outcall'', ''git'', ''status''] =
     (Inr 0, [Posted_Checkin, Posted_Permission ''t'' example_permission])"
proof -
  obtain ivn where "parse_invocation example_encode [''git'', ''status''] = Inr ivn"
    "permission_of ivn = example_permission"
    using example_invocation by (cases "parse_invocation example_encode [''git'', ''status'']") auto
  then show ?thesis
    by (simp add: helper_run_def example_helper_def print_static_output_def
        request_timeout_from_env_def parse_request_timeout_def DEFAULT_REQUEST_TIMEOUT_SECS_def
        MAX_REQUEST_TIMEOUT_SECS_def helper_checkin_def post_json_def serialize_bounded_json_def
        collect_bounded_body_def MAX_API_BODY_BYTES_def receive_exit_def)
qed

end
