(* ===== verification/Host_Resources.thy ===== *)
theory Host_Resources
  imports Docker_Containers
begin

text \<open>
  The registry of host resources of a project (outcall/src/host\_resources.rs) and the reads of
  outcall/src/secure\_fs.rs it uses: which tools and files of the host an operator declares for the agents,
  and what a valid declaration is. The YAML parser is an argument. The file system is a record of answers:
  \<open>canonicalize\<close>, whose results are the lists of names of absolute paths, the metadata of entries, and what
  opening and reading a file gives.
\<close>

section \<open>The file system\<close>

datatype io_error = Io_Not_Found | Io_Other

record host_metadata =
  hm_type :: path_type
  hm_mode :: u32
  hm_len :: nat

text \<open>
  \<open>hf_lstat\<close> does not follow a link at the end of the path, \<open>hf_stat\<close> does. Opening gives the type of what
  was opened and the bytes that reading yields, or a failed read.
\<close>

record host_fs =
  hf_canonicalize :: "string \<Rightarrow> (io_error, string list) result"
  hf_lstat :: "string \<Rightarrow> (io_error, host_metadata) result"
  hf_stat :: "string \<Rightarrow> (io_error, host_metadata) result"
  hf_open :: "string \<Rightarrow> (path_type \<times> string option) option"

text \<open>\<open>display\<close> of a canonical path, and \<open>PathBuf::join\<close>.\<close>

definition show_path :: "string list \<Rightarrow> string" where
  "show_path names = (if names = [] then ''/'' else concat (map (\<lambda>n. CHR ''/'' # n) names))"

definition path_join :: "string \<Rightarrow> string \<Rightarrow> string" where
  "path_join base relative =
     (if is_absolute relative then relative
      else if base = [] \<or> last base = CHR ''/'' then base @ relative
      else base @ ''/'' @ relative)"

definition is_dir :: "host_fs \<Rightarrow> string list \<Rightarrow> bool" where
  "is_dir fs p = (case hf_stat fs (show_path p) of Inr md \<Rightarrow> hm_type md = Path_Dir | Inl _ \<Rightarrow> False)"

section \<open>secure\_fs.rs\<close>

datatype secure_error = Not_Real_File | File_Too_Large | Secure_Io | Not_Utf8

definition path_entry :: "host_fs \<Rightarrow> string \<Rightarrow> (secure_error, host_metadata option) result" where
  "path_entry fs p =
     (case hf_lstat fs p of
        Inr md \<Rightarrow> Inr (Some md)
      | Inl Io_Not_Found \<Rightarrow> Inr None
      | Inl Io_Other \<Rightarrow> Inl Secure_Io)"

definition validate_regular_file :: "path_type \<Rightarrow> (secure_error, unit) result" where
  "validate_regular_file t = ensure (t = Path_File) Not_Real_File"

definition read_regular_file_bounded :: "host_fs \<Rightarrow> string \<Rightarrow> nat \<Rightarrow> (secure_error, string option) result" where
  "read_regular_file_bounded fs p limit =
     res_bind (path_entry fs p) (\<lambda>entry.
     case entry of
       None \<Rightarrow> Inr None
     | Some metadata \<Rightarrow>
         res_bind (validate_regular_file (hm_type metadata)) (\<lambda>_.
         if limit < hm_len metadata then Inl File_Too_Large
         else
           res_bind (ok_or Secure_Io (hf_open fs p)) (\<lambda>(opened, contents).
           res_bind (validate_regular_file opened) (\<lambda>_.
           res_bind (ok_or Secure_Io contents) (\<lambda>all.
             let bytes = take (limit + 1) all
             in if limit < length bytes then Inl File_Too_Large else Inr (Some bytes))))))"

definition read_regular_string_bounded :: "host_fs \<Rightarrow> string \<Rightarrow> nat \<Rightarrow> (secure_error, string option) result" where
  "read_regular_string_bounded fs p limit =
     res_bind (read_regular_file_bounded fs p limit) (\<lambda>found.
     case found of
       None \<Rightarrow> Inr None
     | Some bytes \<Rightarrow> if valid_utf8 bytes then Inr (Some bytes) else Inl Not_Utf8)"

section \<open>host\_resources.rs\<close>

definition MAX_HOST_RESOURCE_CONFIG_BYTES :: nat where "MAX_HOST_RESOURCE_CONFIG_BYTES = 1024 * 1024"

definition MAX_RESOURCES_PER_KIND :: nat where "MAX_RESOURCES_PER_KIND = 256"

definition MAX_RESOURCE_ID_BYTES :: nat where "MAX_RESOURCE_ID_BYTES = 128"

definition MAX_RESOURCE_PATH_BYTES :: nat where "MAX_RESOURCE_PATH_BYTES = 4096"

definition MAX_TOOL_ARGS :: nat where "MAX_TOOL_ARGS = 256"

definition MAX_TOOL_ARG_BYTES :: nat where "MAX_TOOL_ARG_BYTES = 32768"

definition MAX_TOOL_ARG_TOTAL_BYTES :: nat where "MAX_TOOL_ARG_TOTAL_BYTES = 65536"

definition MAX_TOOL_ENV_KEYS :: nat where "MAX_TOOL_ENV_KEYS = 128"

definition MAX_TOOL_ENV_VALUE_BYTES :: nat where "MAX_TOOL_ENV_VALUE_BYTES = 65536"

definition MAX_AUTH_NOTES :: nat where "MAX_AUTH_NOTES = 256"

definition MAX_NOTE_BYTES :: nat where "MAX_NOTE_BYTES = 4096"

record host_tool_resource =
  ht_id :: string
  ht_path :: string
  ht_notes :: "string option"
  ht_default_args :: "string list"
  ht_env :: "(string \<times> string) list"
  ht_forward_env :: "string list"

record host_file_resource =
  hr_id :: string
  hr_path :: string
  hr_mode :: string

record host_resources_config =
  hc_version :: string
  hc_tools :: "host_tool_resource list"
  hc_files :: "host_file_resource list"
  hc_auth_notes :: "string list"

datatype resource_error =
    Registry_Missing
  | Registry_Read secure_error
  | Registry_Yaml
  | Registry_Version string
  | Too_Many_Resources
  | Auth_Notes
  | Resource_Id
  | Resource_Path
  | Duplicate_Tool string
  | Tool_Notes string
  | Tool_Args string
  | Tool_Env string
  | Env_Name string
  | Duplicate_Forward string
  | Duplicate_File string
  | File_Mode string
  | Tool_Canonicalize
  | Tool_In_Project
  | Tool_Not_File
  | Tool_Not_Executable

definition expand_home :: "string option \<Rightarrow> string \<Rightarrow> string" where
  "expand_home home p =
     (case (strip_prefix ''~/'' p, home) of
        (Some rest, Some h) \<Rightarrow> path_join h rest
      | _ \<Rightarrow> p)"

definition validate_resource_id :: "string \<Rightarrow> (resource_error, unit) result" where
  "validate_resource_id rid =
     ensure (\<not> (rid = [] \<or> MAX_RESOURCE_ID_BYTES < length rid
       \<or> \<not> list_all (\<lambda>c. is_ascii_alphanumeric c \<or> c \<in> {CHR ''.'', CHR ''_'', CHR ''-''}) rid)) Resource_Id"

definition validate_resource_path :: "string \<Rightarrow> (resource_error, unit) result" where
  "validate_resource_path p =
     ensure (\<not> (p = [] \<or> MAX_RESOURCE_PATH_BYTES < length p \<or> CHR 0x00 \<in> set p \<or> has_control p)) Resource_Path"

definition validate_env_name :: "string \<Rightarrow> (resource_error, unit) result" where
  "validate_env_name name = ensure (valid_environment_key name) (Env_Name name)"

definition within_arg_limits :: "nat \<Rightarrow> nat \<Rightarrow> nat \<Rightarrow> string list \<Rightarrow> bool" where
  "within_arg_limits max_args max_arg max_all args \<longleftrightarrow>
     \<not> (max_args < length args \<or> list_ex (\<lambda>arg. max_arg < length arg \<or> CHR 0x00 \<in> set arg) args
        \<or> max_all < sum_list (map length args))"

text \<open>One tool; the state is the identifiers seen.\<close>

definition validate_tool :: "host_tool_resource \<Rightarrow> string list \<Rightarrow> (resource_error, string list) result" where
  "validate_tool tool seen =
     res_bind (validate_resource_id (ht_id tool)) (\<lambda>_.
     res_bind (validate_resource_path (ht_path tool)) (\<lambda>_.
     if ht_id tool \<in> set seen then Inl (Duplicate_Tool (ht_id tool))
     else if (case ht_notes tool of Some note \<Rightarrow> MAX_NOTE_BYTES < length note | None \<Rightarrow> False)
     then Inl (Tool_Notes (ht_id tool))
     else if \<not> within_arg_limits MAX_TOOL_ARGS MAX_TOOL_ARG_BYTES MAX_TOOL_ARG_TOTAL_BYTES (ht_default_args tool)
     then Inl (Tool_Args (ht_id tool))
     else if MAX_TOOL_ENV_KEYS < length (ht_env tool) \<or> MAX_TOOL_ENV_KEYS < length (ht_forward_env tool)
     then Inl (Tool_Env (ht_id tool))
     else
       res_bind (fold_res (\<lambda>key _. validate_env_name key) (map fst (ht_env tool) @ ht_forward_env tool) ()) (\<lambda>_.
       if list_ex (\<lambda>(_, v). MAX_TOOL_ENV_VALUE_BYTES < length v \<or> CHR 0x00 \<in> set v) (ht_env tool)
       then Inl (Tool_Env (ht_id tool))
       else
         res_bind (fold_res (\<lambda>key forwarded. if key \<in> set forwarded then Inl (Duplicate_Forward key)
             else Inr (key # forwarded)) (ht_forward_env tool) []) (\<lambda>_.
           Inr (ht_id tool # seen)))))"

definition validate_file :: "host_file_resource \<Rightarrow> string list \<Rightarrow> (resource_error, string list) result" where
  "validate_file resource seen =
     res_bind (validate_resource_id (hr_id resource)) (\<lambda>_.
     res_bind (validate_resource_path (hr_path resource)) (\<lambda>_.
     if hr_id resource \<in> set seen then Inl (Duplicate_File (hr_id resource))
     else if hr_mode resource \<noteq> ''read-only'' then Inl (File_Mode (hr_id resource))
     else Inr (hr_id resource # seen)))"

definition validate_resources_config :: "host_resources_config \<Rightarrow> (resource_error, unit) result" where
  "validate_resources_config config =
     (if hc_version config \<noteq> ''1'' then Inl (Registry_Version (hc_version config))
      else if MAX_RESOURCES_PER_KIND < length (hc_tools config) \<or> MAX_RESOURCES_PER_KIND < length (hc_files config)
      then Inl Too_Many_Resources
      else if MAX_AUTH_NOTES < length (hc_auth_notes config)
        \<or> list_ex (\<lambda>note. MAX_NOTE_BYTES < length note) (hc_auth_notes config)
      then Inl Auth_Notes
      else
        res_bind (fold_res validate_tool (hc_tools config) []) (\<lambda>_.
        res_bind (fold_res validate_file (hc_files config) []) (\<lambda>_. Inr ())))"

definition parse_config ::
  "(string \<Rightarrow> host_resources_config option) \<Rightarrow> string \<Rightarrow> (resource_error, host_resources_config) result" where
  "parse_config yaml raw =
     res_bind (ok_or Registry_Yaml (yaml raw)) (\<lambda>config.
     res_bind (validate_resources_config config) (\<lambda>_. Inr config))"

definition load_from_path ::
  "(string \<Rightarrow> host_resources_config option) \<Rightarrow> host_fs \<Rightarrow> string \<Rightarrow> (resource_error, host_resources_config) result"
  where
  "load_from_path yaml fs p =
     (case read_regular_string_bounded fs p MAX_HOST_RESOURCE_CONFIG_BYTES of
        Inl e \<Rightarrow> Inl (Registry_Read e)
      | Inr found \<Rightarrow> res_bind (ok_or Registry_Missing found) (parse_config yaml))"

definition resolve_tool_path ::
  "host_fs \<Rightarrow> string option \<Rightarrow> string \<Rightarrow> host_tool_resource \<Rightarrow> (resource_error, string list) result" where
  "resolve_tool_path fs home project_dir tool =
     (case hf_canonicalize fs project_dir of
        Inl _ \<Rightarrow> Inl Tool_Canonicalize
      | Inr project \<Rightarrow>
          (case hf_canonicalize fs (expand_home home (ht_path tool)) of
             Inl _ \<Rightarrow> Inl Tool_Canonicalize
           | Inr resolved \<Rightarrow>
               if prefix project resolved then Inl Tool_In_Project
               else
                 (case hf_stat fs (show_path resolved) of
                    Inl _ \<Rightarrow> Inl Tool_Not_File
                  | Inr md \<Rightarrow>
                      if hm_type md \<noteq> Path_File then Inl Tool_Not_File
                      else if hm_mode md AND 73 = 0 then Inl Tool_Not_Executable
                      else Inr resolved)))"

definition find_tool :: "host_resources_config \<Rightarrow> string \<Rightarrow> host_tool_resource option" where
  "find_tool config rid = find (\<lambda>tool. ht_id tool = rid) (hc_tools config)"

definition find_file :: "host_resources_config \<Rightarrow> string \<Rightarrow> host_file_resource option" where
  "find_file config rid = find (\<lambda>f. hr_id f = rid) (hc_files config)"

section \<open>Valid registries\<close>

text \<open>In a valid registry identifiers are unique, so that an identifier names one tool and one file.\<close>

lemma validate_tool_seen: "validate_tool tool s = Inr s' \<Longrightarrow> ht_id tool \<notin> set s \<and> s' = ht_id tool # s"
  by (auto simp: validate_tool_def result_simps split: if_splits)

lemma validate_file_seen: "validate_file f s = Inr s' \<Longrightarrow> hr_id f \<notin> set s \<and> s' = hr_id f # s"
  by (auto simp: validate_file_def result_simps split: if_splits)

lemma loaded_registry_unique:
  assumes "load_from_path yaml fs p = Inr config"
  shows "distinct (map ht_id (hc_tools config)) \<and> distinct (map hr_id (hc_files config))"
proof -
  from assms have "validate_resources_config config = Inr ()"
    by (auto simp: load_from_path_def parse_config_def result_simps split: sum.splits)
  then obtain ts fs' where "fold_res validate_tool (hc_tools config) [] = Inr ts"
    "fold_res validate_file (hc_files config) [] = Inr fs'"
    by (auto simp: validate_resources_config_def result_simps split: if_splits)
  then show ?thesis
    using fold_seen [of validate_tool _ "[]" _ ht_id] fold_seen [of validate_file _ "[]" _ hr_id]
      validate_tool_seen validate_file_seen by simp
qed

lemma read_regular_bounded:
  "read_regular_file_bounded fs p limit = Inr (Some bytes) \<Longrightarrow> length bytes \<le> limit"
  by (auto simp: read_regular_file_bounded_def Let_def result_simps split: option.splits if_splits)

lemma resolve_tool_path_outside:
  assumes "resolve_tool_path fs home project_dir tool = Inr resolved"
  shows "\<exists>project md. hf_canonicalize fs project_dir = Inr project \<and> \<not> prefix project resolved
    \<and> hf_stat fs (show_path resolved) = Inr md \<and> hm_type md = Path_File \<and> hm_mode md AND 73 \<noteq> 0"
  using assms by (auto simp: resolve_tool_path_def split: sum.splits if_splits)

end
