(* ===== verification/Process_Control.thy ===== *)
theory Process_Control
  imports Outcall_Prelude
begin

text \<open>
  Child processes of the command line client with a time-out and bounded output
  (outcall/src/process\_control.rs). What the child does is a script: the answers of \<open>try_wait\<close> with the time
  that has elapsed, what arrives on its pipes and whether they are ever closed by everyone who holds them.
  A call that never returns is \<open>None\<close>.
\<close>

datatype process_run_error =
    Timed_Out_After nat
  | Output_Limit string nat
  | Process_Io

datatype poll = Running | Exited "int option" | Poll_Failed

datatype pipe = Pipe string bool | Pipe_Failed

record child_script =
  ch_spawned :: bool
  ch_polls :: "(nat \<times> poll) list"
  ch_reaped :: bool
  ch_stdout :: pipe
  ch_stderr :: pipe
  ch_stdin_written :: bool

record process_output =
  po_status :: "int option"
  po_stdout :: string
  po_stderr :: string

text \<open>The reader takes at most one byte more than the limit, and waits for the end of the pipe otherwise.\<close>

definition join_reader :: "nat \<Rightarrow> pipe \<Rightarrow> (process_run_error, string \<times> bool) result option" where
  "join_reader limit p =
     (case p of
        Pipe_Failed \<Rightarrow> Some (Inl Process_Io)
      | Pipe bytes closed \<Rightarrow>
          if limit < length bytes then Some (Inr (take limit bytes, True))
          else if closed then Some (Inr (bytes, False)) else None)"

datatype wait_end = Ended "int option" | Time_Over | Wait_Error

fun wait_loop :: "nat \<Rightarrow> (nat \<times> poll) list \<Rightarrow> wait_end option" where
  "wait_loop timeout [] = None"
| "wait_loop timeout ((elapsed, p) # polls) =
     (case p of
        Exited status \<Rightarrow> Some (Ended status)
      | Running \<Rightarrow> if timeout \<le> elapsed then Some Time_Over else wait_loop timeout polls
      | Poll_Failed \<Rightarrow> Some Wait_Error)"

definition status_with_timeout :: "child_script \<Rightarrow> nat \<Rightarrow> (process_run_error, int option) result option" where
  "status_with_timeout child timeout =
     (if \<not> ch_spawned child then Some (Inl Process_Io)
      else map_option (\<lambda>w. case w of
          Ended status \<Rightarrow> Inr status
        | Time_Over \<Rightarrow> Inl (if ch_reaped child then Timed_Out_After timeout else Process_Io)
        | Wait_Error \<Rightarrow> Inl Process_Io) (wait_loop timeout (ch_polls child)))"

text \<open>The readers are joined before the outcome of either is looked at.\<close>

definition output_with_input_limits ::
  "child_script \<Rightarrow> bool \<Rightarrow> nat \<Rightarrow> nat \<Rightarrow> (process_run_error, process_output) result option" where
  "output_with_input_limits child has_input timeout output_limit =
     (if output_limit = 0 \<or> \<not> ch_spawned child then Some (Inl Process_Io)
      else
        Option.bind (wait_loop timeout (ch_polls child)) (\<lambda>w.
        Option.bind (join_reader output_limit (ch_stdout child)) (\<lambda>out.
          case w of
            Time_Over \<Rightarrow>
              Option.bind (join_reader output_limit (ch_stderr child)) (\<lambda>_.
                Some (Inl (if ch_reaped child then Timed_Out_After timeout else Process_Io)))
          | Wait_Error \<Rightarrow>
              Option.bind (join_reader output_limit (ch_stderr child)) (\<lambda>_. Some (Inl Process_Io))
          | Ended status \<Rightarrow>
              (case out of
                 Inl e \<Rightarrow> Some (Inl e)
               | Inr (stdout, stdout_exceeded) \<Rightarrow>
                   Option.bind (join_reader output_limit (ch_stderr child)) (\<lambda>err.
                     Some (res_bind err (\<lambda>(stderr, stderr_exceeded).
                       if stdout_exceeded then Inl (Output_Limit ''stdout'' output_limit)
                       else if stderr_exceeded then Inl (Output_Limit ''stderr'' output_limit)
                       else if status = Some 0 \<and> has_input \<and> \<not> ch_stdin_written child then Inl Process_Io
                       else Inr \<lparr>po_status = status, po_stdout = stdout, po_stderr = stderr\<rparr>)))))))"

definition output_with_limits ::
  "child_script \<Rightarrow> nat \<Rightarrow> nat \<Rightarrow> (process_run_error, process_output) result option" where
  "output_with_limits child timeout output_limit = output_with_input_limits child False timeout output_limit"

section \<open>Facts\<close>

lemma join_reader_bounded: "join_reader limit p = Some (Inr (bytes, ex)) \<Longrightarrow> length bytes \<le> limit"
  by (auto simp: join_reader_def split: pipe.splits if_splits)

lemma output_bounded:
  assumes "output_with_limits child timeout limit = Some (Inr out)"
  shows "length (po_stdout out) \<le> limit \<and> length (po_stderr out) \<le> limit"
proof -
  from assms obtain w r where "wait_loop timeout (ch_polls child) = Some w"
    "join_reader limit (ch_stdout child) = Some r"
    by (auto simp: output_with_limits_def output_with_input_limits_def bind_eq_Some_conv split: if_splits)
  with assms obtain x e where "join_reader limit (ch_stdout child) = Some (Inr (po_stdout out, x))"
    "join_reader limit (ch_stderr child) = Some (Inr (po_stderr out, e))"
    by (cases w; cases r)
      (auto simp: output_with_limits_def output_with_input_limits_def bind_eq_Some_conv result_simps
        split: if_splits)
  then show ?thesis using join_reader_bounded by blast
qed

lemma wait_loop_ends:
  assumes "(elapsed, p) \<in> set polls" and "p = Running \<longrightarrow> timeout \<le> elapsed"
  shows "\<exists>w. wait_loop timeout polls = Some w"
  using assms by (induction timeout polls rule: wait_loop.induct) (auto split: poll.splits)

text \<open>With pipes that are closed when the child is gone, the call returns once a poll is late enough.\<close>

lemma output_returns:
  assumes "(elapsed, p) \<in> set (ch_polls child)" and "p = Running \<longrightarrow> timeout \<le> elapsed"
    and "\<forall>b. ch_stdout child \<noteq> Pipe b False" and "\<forall>b. ch_stderr child \<noteq> Pipe b False"
  shows "\<exists>r. output_with_limits child timeout limit = Some r"
proof -
  have "\<exists>r. join_reader limit q = Some r" if "\<forall>b. q \<noteq> Pipe b False" for q
    using that by (cases q) (auto simp: join_reader_def)
  then obtain so se where so: "join_reader limit (ch_stdout child) = Some so"
    and se: "join_reader limit (ch_stderr child) = Some se"
    using assms(3,4) by metis
  then show ?thesis
    using wait_loop_ends [OF assms(1,2)] so se
    by (auto simp: output_with_limits_def output_with_input_limits_def split: wait_end.splits sum.splits)
qed

text \<open>
  A child that exits at once but leaves a process behind that keeps its output open makes the call wait
  for ever: the time-out is only looked at while the child itself runs.
\<close>

lemma open_pipe_defeats_timeout:
  "output_with_limits \<lparr>ch_spawned = True, ch_polls = [(0, Exited (Some 0))], ch_reaped = True,
     ch_stdout = Pipe [] False, ch_stderr = Pipe [] True, ch_stdin_written = True\<rparr> timeout limit
   = (if limit = 0 then Some (Inl Process_Io) else None)"
  by (simp add: output_with_limits_def output_with_input_limits_def join_reader_def)

end
