(* ===== verification/Host_Broker.thy ===== *)
theory Host_Broker
  imports Host_Resources Process_Control
begin

text \<open>
  The host broker (outcall/src/host\_broker): a small HTTP server on the operator's machine through which
  agents run declared tools and read declared files of the host, when the policy of the daemon allows it:
  http.rs, auth.rs, protocol.rs, operations.rs and handler.rs. A connection is the list of the reads it
  gives; \<open>None\<close> is a failed read and the end of the list the end of the stream. JSON and YAML are arguments.
\<close>

section \<open>http.rs\<close>

definition MAX_BROKER_HEADER_BYTES :: nat where "MAX_BROKER_HEADER_BYTES = 64 * 1024"

definition MAX_BROKER_BODY_BYTES :: nat where "MAX_BROKER_BODY_BYTES = 1024 * 1024"

definition MAX_RESPONSE_BYTES :: nat where "MAX_RESPONSE_BYTES = 8 * 1024 * 1024"

definition MAX_PATH_BYTES :: nat where "MAX_PATH_BYTES = 4096"

record raw_http_request =
  rh_method :: string
  rh_path :: string
  rh_headers :: "(string \<times> string) list"
  rh_body :: string

datatype broker_http_error =
    Headers_Too_Long
  | Stream_Failed
  | Stream_Eof
  | Head_Not_Utf8
  | Bad_Request_Line
  | Bad_Http_Method
  | Bad_Http_Path
  | Malformed_Header
  | Bad_Header_Name
  | Bad_Header_Value
  | Duplicate_Header string
  | Too_Many_Headers
  | Has_Transfer_Encoding
  | Bad_Content_Length
  | Body_Too_Long
  | Trailing_Bytes

type_synonym stream = "string option list"

definition stream_read :: "nat \<Rightarrow> stream \<Rightarrow> string option \<times> stream" where
  "stream_read n chunks =
     (case chunks of
        [] \<Rightarrow> (Some [], [])
      | None # rest \<Rightarrow> (None, rest)
      | Some c # rest \<Rightarrow> (Some (take n c), if n < length c then Some (drop n c) # rest else rest))"

definition stream_bytes :: "stream \<Rightarrow> nat" where
  "stream_bytes chunks = sum_list (map (\<lambda>x. case x of None \<Rightarrow> 0 | Some c \<Rightarrow> length c) chunks)"

lemma stream_read_shrinks:
  "stream_read n chunks = (Some bytes, rest) \<Longrightarrow> bytes \<noteq> [] \<Longrightarrow> stream_bytes rest < stream_bytes chunks"
  by (auto simp: stream_read_def stream_bytes_def split: list.splits option.splits if_splits)

text \<open>The loop up to the end of the head; \<open>find_header_end\<close> counts the four bytes of the terminator.\<close>

function read_head :: "string \<Rightarrow> stream \<Rightarrow> (broker_http_error, string \<times> nat \<times> stream) result" where
  "read_head raw chunks =
     (case find_header_end raw of
        Some end_of_head \<Rightarrow>
          if MAX_BROKER_HEADER_BYTES < end_of_head - 4 then Inl Headers_Too_Long
          else Inr (raw, end_of_head - 4, chunks)
      | None \<Rightarrow>
          if MAX_BROKER_HEADER_BYTES < length raw then Inl Headers_Too_Long
          else
            (case stream_read 8192 chunks of
               (None, _) \<Rightarrow> Inl Stream_Failed
             | (Some bytes, rest) \<Rightarrow> if bytes = [] then Inl Stream_Eof else read_head (raw @ bytes) rest))"
  by pat_completeness auto
termination
  by (relation "measure (\<lambda>(_, chunks). stream_bytes chunks)") (auto dest: stream_read_shrinks [OF sym])

declare read_head.simps [simp del]

function read_body :: "string \<Rightarrow> nat \<Rightarrow> stream \<Rightarrow> (broker_http_error, string) result" where
  "read_body raw message_end chunks =
     (if message_end \<le> length raw then Inr raw
      else
        (case stream_read (min (message_end - length raw) 8192) chunks of
           (None, _) \<Rightarrow> Inl Stream_Failed
         | (Some bytes, rest) \<Rightarrow> if bytes = [] then Inl Stream_Eof else read_body (raw @ bytes) message_end rest))"
  by pat_completeness auto
termination
  by (relation "measure (\<lambda>(_, _, chunks). stream_bytes chunks)") (auto dest: stream_read_shrinks [OF sym])

declare read_body.simps [simp del]

text \<open>\<open>str::split_whitespace\<close>\<close>

fun word_len :: "string \<Rightarrow> nat" where
  "word_len [] = 0"
| "word_len (c # cs) = (if white_space_len (c # cs) \<noteq> 0 then 0 else Suc (word_len cs))"

lemma trim_start_utf8_facts: "length (trim_start_utf8 s) \<le> length s \<and> white_space_len (trim_start_utf8 s) = 0"
proof (induction s rule: trim_start_utf8.induct)
  case (1 s)
  show ?case
  proof (cases "white_space_len s = 0")
    case True
    then show ?thesis by (simp add: trim_start_utf8.simps [of s])
  next
    case False
    with 1 [OF refl False] show ?thesis
      unfolding trim_start_utf8.simps [of s] Let_def by auto
  qed
qed

lemma word_len_pos: "white_space_len s = 0 \<Longrightarrow> s \<noteq> [] \<Longrightarrow> 0 < word_len s"
  by (cases s) auto

function split_whitespace :: "string \<Rightarrow> string list" where
  "split_whitespace s =
     (let t = trim_start_utf8 s
      in if t = [] then [] else take (word_len t) t # split_whitespace (drop (word_len t) t))"
  by pat_completeness auto
termination
proof (relation "measure length")
  fix s t :: string
  assume t: "t = trim_start_utf8 s" "t \<noteq> []"
  then have "0 < word_len t" using trim_start_utf8_facts word_len_pos by blast
  moreover have "length t \<le> length s" using t trim_start_utf8_facts by blast
  ultimately show "(drop (word_len t) t, s) \<in> measure length" using t(2) by (cases t) auto
qed simp

declare split_whitespace.simps [simp del]

definition parse_request_line :: "string \<Rightarrow> (broker_http_error, string \<times> string) result" where
  "parse_request_line request_line =
     (case split_whitespace request_line of
        [http_verb, path, version] \<Rightarrow>
          if version \<noteq> ''HTTP/1.0'' \<and> version \<noteq> ''HTTP/1.1'' then Inl Bad_Request_Line
          else if http_verb = [] \<or> 16 < length http_verb \<or> \<not> list_all is_ascii_upper http_verb
          then Inl Bad_Http_Method
          else if \<not> prefix ''/'' path \<or> MAX_PATH_BYTES < length path \<or> has_control path
          then Inl Bad_Http_Path
          else Inr (http_verb, path)
      | _ \<Rightarrow> Inl Bad_Request_Line)"

definition valid_header_name_byte :: "char \<Rightarrow> bool" where
  "valid_header_name_byte c \<longleftrightarrow>
     is_ascii_alphanumeric c \<or> c \<in> set ''!#$%&*+-.^_`|~'' \<or> c = CHR 0x27"

definition broker_header ::
  "string \<Rightarrow> (string \<times> string) list \<Rightarrow> (broker_http_error, (string \<times> string) list) result" where
  "broker_header line headers =
     res_bind (ok_or Malformed_Header (split_once CHR '':'' line)) (\<lambda>(name, raw).
     if trim_utf8 name \<noteq> name \<or> name = [] \<or> \<not> list_all valid_header_name_byte name then Inl Bad_Header_Name
     else
       let v = trim_utf8 raw; key = map to_ascii_lower name
       in if list_ex (\<lambda>c. is_ascii_control c \<and> c \<noteq> CHR 0x09) v then Inl Bad_Header_Value
          else if map_of headers key \<noteq> None then Inl (Duplicate_Header name)
          else if 128 < length headers + 1 then Inl Too_Many_Headers
          else Inr ((key, v) # headers))"

definition content_length :: "(string \<times> string) list \<Rightarrow> (broker_http_error, nat) result" where
  "content_length headers =
     (case map_of headers ''content-length'' of
        None \<Rightarrow> Inr 0
      | Some v \<Rightarrow> ok_or Bad_Content_Length (parse_u64 v))"

definition read_http_request :: "stream \<Rightarrow> (broker_http_error, raw_http_request) result" where
  "read_http_request chunks =
     res_bind (read_head [] chunks) (\<lambda>(raw, header_end, rest).
     let head = take header_end raw
     in if \<not> valid_utf8 head then Inl Head_Not_Utf8
        else
          (case str_lines head of
             [] \<Rightarrow> Inl Bad_Request_Line
           | request_line # header_lines \<Rightarrow>
               res_bind (parse_request_line request_line) (\<lambda>(http_verb, path).
               res_bind (fold_res broker_header header_lines []) (\<lambda>headers.
               if map_of headers ''transfer-encoding'' \<noteq> None then Inl Has_Transfer_Encoding
               else
                 res_bind (content_length headers) (\<lambda>len.
                 if MAX_BROKER_BODY_BYTES < len then Inl Body_Too_Long
                 else if header_end + 4 + len < length raw then Inl Trailing_Bytes
                 else
                   res_bind (read_body raw (header_end + 4 + len) rest) (\<lambda>whole.
                     Inr \<lparr>rh_method = http_verb, rh_path = path, rh_headers = headers,
                          rh_body = drop (header_end + 4) (take (header_end + 4 + len) whole)\<rparr>))))))"

definition status_text :: "nat \<Rightarrow> string" where
  "status_text status =
     (case map_of [(200, ''OK''), (400, ''Bad Request''), (403, ''Forbidden''), (404, ''Not Found''),
        (405, ''Method Not Allowed''), (413, ''Content Too Large''), (422, ''Unprocessable Content''),
        (500, ''Internal Server Error''), (503, ''Service Unavailable''), (504, ''Gateway Timeout'')] status of
        Some t \<Rightarrow> t | None \<Rightarrow> ''Unknown'')"

definition broker_response_head :: "nat \<Rightarrow> nat \<Rightarrow> string" where
  "broker_response_head status len =
     ''HTTP/1.1 '' @ show_nat status @ '' '' @ status_text status @ crlf
     @ ''Content-Type: application/json'' @ crlf @ ''Content-Length: '' @ show_nat len @ crlf
     @ ''Cache-Control: no-store'' @ crlf @ ''X-Content-Type-Options: nosniff'' @ crlf
     @ ''Connection: close'' @ crlf @ crlf"

section \<open>auth.rs\<close>

datatype token_error = Token_Missing | Token_Format

definition resolve_broker_auth_token :: "string option \<Rightarrow> string option \<Rightarrow> (token_error, string) result" where
  "resolve_broker_auth_token explicit env_token =
     res_bind (case (case explicit of Some t \<Rightarrow> Some t | None \<Rightarrow> env_token) of
                 Some t \<Rightarrow> if t = [] then Inl Token_Missing else Inr t
               | None \<Rightarrow> Inl Token_Missing) (\<lambda>token.
     if length token < 32 \<or> 256 < length token \<or> has_control token then Inl Token_Format else Inr token)"

text \<open>The comparison works on the bytes as 8-bit words.\<close>

definition constant_time_eq :: "string \<Rightarrow> string \<Rightarrow> bool" where
  "constant_time_eq left right =
     (if length left \<noteq> length right then False
      else fold (\<lambda>(l, r) difference. difference OR (of_nat (byte l) XOR of_nat (byte r))) (zip left right) (0 :: 8 word) = 0)"

definition request_is_authenticated :: "(string \<times> string) list \<Rightarrow> string \<Rightarrow> bool" where
  "request_is_authenticated headers expected_token =
     (case map_of headers ''authorization'' of
        None \<Rightarrow> False
      | Some v \<Rightarrow>
          (case split_once CHR '' '' v of
             None \<Rightarrow> False
           | Some (scheme, token) \<Rightarrow>
               map to_ascii_lower scheme = ''bearer'' \<and> constant_time_eq token expected_token))"

section \<open>protocol.rs\<close>

definition MAX_BROKER_ARGS :: nat where "MAX_BROKER_ARGS = 256"

definition MAX_BROKER_ARG_BYTES :: nat where "MAX_BROKER_ARG_BYTES = 32768"

definition MAX_BROKER_ARG_TOTAL_BYTES :: nat where "MAX_BROKER_ARG_TOTAL_BYTES = 65536"

record broker_tool_exec_request =
  bt_id :: string
  bt_args :: "string list"
  bt_cwd :: "string option"

record broker_tool_exec_result =
  br_status :: int
  br_stdout :: string
  br_stderr :: string

record broker_file_read_request =
  bf_id :: string
  bf_relative_path :: "string option"

record broker_file_read_result =
  bd_path :: string
  bd_contents :: string

datatype broker_error =
    Broker_Bad_Request string
  | Broker_Forbidden string
  | Broker_Not_Found string
  | Broker_Too_Large string
  | Broker_Unprocessable string
  | Broker_Timeout string
  | Broker_Internal

fun broker_error_status :: "broker_error \<Rightarrow> nat" where
  "broker_error_status (Broker_Bad_Request _) = 400"
| "broker_error_status (Broker_Forbidden _) = 403"
| "broker_error_status (Broker_Not_Found _) = 404"
| "broker_error_status (Broker_Too_Large _) = 413"
| "broker_error_status (Broker_Unprocessable _) = 422"
| "broker_error_status (Broker_Timeout _) = 504"
| "broker_error_status Broker_Internal = 500"

definition validate_tool_request :: "broker_tool_exec_request \<Rightarrow> bool" where
  "validate_tool_request request \<longleftrightarrow>
     is_ok (validate_resource_id (bt_id request))
     \<and> within_arg_limits MAX_BROKER_ARGS MAX_BROKER_ARG_BYTES MAX_BROKER_ARG_TOTAL_BYTES (bt_args request)
     \<and> (case bt_cwd request of
          None \<Rightarrow> True
        | Some cwd \<Rightarrow> \<not> (MAX_PATH_BYTES < length cwd \<or> CHR 0x00 \<in> set cwd \<or> has_control cwd))"

definition validate_file_request :: "broker_file_read_request \<Rightarrow> bool" where
  "validate_file_request request \<longleftrightarrow>
     is_ok (validate_resource_id (bf_id request))
     \<and> (case bf_relative_path request of
          None \<Rightarrow> True
        | Some p \<Rightarrow> \<not> (p = [] \<or> is_absolute p \<or> MAX_PATH_BYTES < length p \<or> CHR 0x00 \<in> set p \<or> has_control p))"

section \<open>operations.rs\<close>

text \<open>
  \<open>String::from_utf8_lossy\<close>: every maximal part that cannot be the start of a character becomes U+FFFD.
  \<open>invalid_len\<close> is the length of that part when no character starts the text.
\<close>

definition invalid_len :: "string \<Rightarrow> nat" where
  "invalid_len s =
     (case s of
        a # b # rest \<Rightarrow>
          if in_byte_range 224 239 a
             \<and> in_byte_range (if byte a = 224 then 160 else 128) (if byte a = 237 then 159 else 191) b then 2
          else if in_byte_range 240 244 a
             \<and> in_byte_range (if byte a = 240 then 144 else 128) (if byte a = 244 then 143 else 191) b
          then (case rest of c # _ \<Rightarrow> if in_byte_range 128 191 c then 3 else 2 | [] \<Rightarrow> 2)
          else 1
      | _ \<Rightarrow> 1)"

function from_utf8_lossy :: "string \<Rightarrow> string" where
  "from_utf8_lossy s =
     (if s = [] then []
      else if utf8_head s \<noteq> 0 then take (utf8_head s) s @ from_utf8_lossy (drop (utf8_head s) s)
      else [char_of (239 :: nat), char_of (191 :: nat), char_of (189 :: nat)]
        @ from_utf8_lossy (drop (max 1 (invalid_len s)) s))"
  by pat_completeness auto
termination
  by (relation "measure length") auto

declare from_utf8_lossy.simps [simp del]

definition HOST_TOOL_TIMEOUT :: nat where "HOST_TOOL_TIMEOUT = 60"

definition MAX_HOST_TOOL_OUTPUT_BYTES :: nat where "MAX_HOST_TOOL_OUTPUT_BYTES = 512 * 1024"

definition MAX_HOST_FILE_BYTES :: nat where "MAX_HOST_FILE_BYTES = 1024 * 1024"

text \<open>
  The daemon's answer to a rule evaluation: no answer, an answer that is not JSON, or a response with its
  success flag and optional data, which may not decode.
\<close>

datatype daemon_answer = Daemon_Failed | Daemon_Not_Json | Daemon_Response bool "evaluate_result option option"

record broker_env =
  be_fs :: host_fs
  be_home :: "string option"
  be_var :: "string \<Rightarrow> string option"
  be_current_dir :: "string option"
  be_daemon :: "eval_context \<Rightarrow> daemon_answer"
  be_child :: child_script
  be_yaml :: "string \<Rightarrow> host_resources_config option"
  be_json_tool :: "string \<Rightarrow> broker_tool_exec_request option"
  be_json_file :: "string \<Rightarrow> broker_file_read_request option"

datatype broker_event =
    Ran_Tool "string list" "string list" "string list" "(string \<times> string) list"
  | Read_File "string list"

definition internal :: "('e, 'a) result \<Rightarrow> (broker_error, 'a) result" where
  "internal r = (case r of Inl _ \<Rightarrow> Inl Broker_Internal | Inr v \<Rightarrow> Inr v)"

definition evaluate_broker_rule :: "broker_env \<Rightarrow> eval_context \<Rightarrow> (broker_error, unit) result" where
  "evaluate_broker_rule env ctx =
     (case be_daemon env ctx of
        Daemon_Response True (Some (Some res)) \<Rightarrow>
          if er_decision res = Block
          then Inl (Broker_Forbidden (''blocked by rules''
                 @ (case er_matched_rule res of Some rid \<Rightarrow> '' ('' @ rid @ '')'' | None \<Rightarrow> [])))
          else Inr ()
      | _ \<Rightarrow> Inl Broker_Internal)"

text \<open>\<open>Path::strip_prefix\<close> of the workspace: what is left of the path.\<close>

fun component_text :: "component \<Rightarrow> string" where
  "component_text Root_Dir = ''/''"
| "component_text Cur_Dir = ''.''"
| "component_text Parent_Dir = ''..''"
| "component_text (Normal n) = n"

definition strip_workspace :: "string \<Rightarrow> string option" where
  "strip_workspace cwd =
     (case components cwd of
        Root_Dir # Normal w # rest \<Rightarrow>
          if w = ''workspace'' then Some (join_with CHR ''/'' (map component_text rest)) else None
      | _ \<Rightarrow> None)"

definition resolve_tool_cwd ::
  "host_fs \<Rightarrow> string \<Rightarrow> string option \<Rightarrow> (broker_error, string list) result" where
  "resolve_tool_cwd fs project_dir requested =
     res_bind (internal (hf_canonicalize fs project_dir)) (\<lambda>project.
     res_bind
       (case (case requested of Some [] \<Rightarrow> None | r \<Rightarrow> r) of
          None \<Rightarrow> Inr (show_path project)
        | Some cwd \<Rightarrow>
            if is_absolute cwd
            then (case strip_workspace cwd of
                    None \<Rightarrow> Inl (Broker_Bad_Request ''host tool cwd must be /workspace, a path below /workspace, or a relative project path'')
                  | Some relative \<Rightarrow> Inr (path_join (show_path project) relative))
            else Inr (path_join (show_path project) cwd)) (\<lambda>candidate.
     case hf_canonicalize fs candidate of
       Inl Io_Not_Found \<Rightarrow> Inl (Broker_Bad_Request ''host tool cwd does not exist'')
     | Inl Io_Other \<Rightarrow> Inl Broker_Internal
     | Inr resolved \<Rightarrow>
         if \<not> prefix project resolved \<or> \<not> is_dir fs resolved
         then Inl (Broker_Bad_Request ''host tool cwd must resolve to a directory inside the project'')
         else Inr resolved))"

definition base_env :: "broker_env \<Rightarrow> (string \<times> string) list" where
  "base_env env =
     fold (\<lambda>key e. case be_var env key of Some v \<Rightarrow> AList.update key v e | None \<Rightarrow> e)
       [''PATH'', ''LANG'', ''LC_ALL'', ''TMPDIR''] []"

definition tool_env :: "broker_env \<Rightarrow> host_tool_resource \<Rightarrow> (broker_error, (string \<times> string) list) result" where
  "tool_env env tool =
     res_bind (fold_res (\<lambda>key e. case be_var env key of
                  Some v \<Rightarrow> Inr (AList.update key v e) | None \<Rightarrow> Inl Broker_Internal)
                (ht_forward_env tool) (base_env env)) (\<lambda>e.
       Inr (fold (\<lambda>(key, v) e. AList.update key v e) (ht_env tool) e))"

definition tool_context :: "broker_tool_exec_request \<Rightarrow> string list \<Rightarrow> eval_context" where
  "tool_context req cwd =
     default_eval_context\<lparr>ev_run := Some (default_run_context\<lparr>run_tool := ''host.tool.'' @ bt_id req,
       run_args := bt_args req, run_cwd := show_path cwd\<rparr>)\<rparr>"

text \<open>Everything up to the start of the tool.\<close>

definition prepare_tool ::
  "broker_env \<Rightarrow> host_resources_config \<Rightarrow> broker_tool_exec_request
     \<Rightarrow> (broker_error, string list \<times> string list \<times> string list \<times> (string \<times> string) list) result" where
  "prepare_tool env config req =
     res_bind (ok_or (Broker_Forbidden (''host tool not declared: '' @ bt_id req)) (find_tool config (bt_id req))) (\<lambda>tool.
     res_bind (ok_or Broker_Internal (be_current_dir env)) (\<lambda>project_dir.
     res_bind (resolve_tool_cwd (be_fs env) project_dir (bt_cwd req)) (\<lambda>cwd.
     res_bind (evaluate_broker_rule env (tool_context req cwd)) (\<lambda>_.
     res_bind (internal (resolve_tool_path (be_fs env) (be_home env) project_dir tool)) (\<lambda>path.
     res_bind (tool_env env tool) (\<lambda>vars.
       Inr (path, ht_default_args tool @ bt_args req, cwd, vars)))))))"

text \<open>\<open>None\<close>: the call does not return.\<close>

definition broker_exec_tool ::
  "broker_env \<Rightarrow> host_resources_config \<Rightarrow> broker_tool_exec_request
     \<Rightarrow> (broker_error, broker_tool_exec_result) result option \<times> broker_event list" where
  "broker_exec_tool env config req =
     (case prepare_tool env config req of
        Inl e \<Rightarrow> (Some (Inl e), [])
      | Inr (path, args, cwd, vars) \<Rightarrow>
          (map_option (\<lambda>r. case r of
              Inr out \<Rightarrow> Inr \<lparr>br_status = or_default 1 (po_status out), br_stdout = from_utf8_lossy (po_stdout out),
                  br_stderr = from_utf8_lossy (po_stderr out)\<rparr>
            | Inl (Timed_Out_After t) \<Rightarrow>
                Inl (Broker_Timeout (''host tool timed out after '' @ show_nat t @ '' seconds''))
            | Inl (Output_Limit stream limit) \<Rightarrow>
                Inl (Broker_Too_Large (''host tool '' @ stream @ '' exceeds '' @ show_nat limit @ '' bytes''))
            | Inl Process_Io \<Rightarrow> Inl Broker_Internal)
             (output_with_limits (be_child env) HOST_TOOL_TIMEOUT MAX_HOST_TOOL_OUTPUT_BYTES),
           [Ran_Tool path args cwd vars]))"

definition external_host_file_root :: "host_fs \<Rightarrow> string \<Rightarrow> string \<Rightarrow> (broker_error, string list) result" where
  "external_host_file_root fs project_dir root =
     res_bind (internal (hf_canonicalize fs project_dir)) (\<lambda>project.
     res_bind (internal (hf_canonicalize fs root)) (\<lambda>r.
     if prefix project r
     then Inl (Broker_Forbidden ''host file root resolves inside the writable project; access it directly through /workspace'')
     else Inr r))"

definition resolve_host_file_path ::
  "host_fs \<Rightarrow> string \<Rightarrow> string option \<Rightarrow> (broker_error, string list) result" where
  "resolve_host_file_path fs root relative =
     res_bind (internal (hf_canonicalize fs root)) (\<lambda>r.
     res_bind
       (if is_dir fs r
        then res_bind (ok_or (Broker_Bad_Request ''relative_path is required for directory resources'') relative)
               (\<lambda>rel. Inr (path_join (show_path r) rel))
        else if relative \<noteq> None
        then Inl (Broker_Bad_Request ''relative_path is not allowed for file resources'')
        else Inr (show_path r)) (\<lambda>candidate.
     case hf_canonicalize fs candidate of
       Inl Io_Not_Found \<Rightarrow> Inl (Broker_Not_Found ''host file does not exist'')
     | Inl Io_Other \<Rightarrow> Inl Broker_Internal
     | Inr resolved \<Rightarrow>
         if is_dir fs r \<and> \<not> prefix r resolved
         then Inl (Broker_Forbidden ''resolved path escapes declared host file root'')
         else Inr resolved))"

definition read_file_bounded :: "host_fs \<Rightarrow> string list \<Rightarrow> nat \<Rightarrow> (broker_error, string) result" where
  "read_file_bounded fs path limit =
     (case hf_lstat fs (show_path path) of
        Inl Io_Not_Found \<Rightarrow> Inl (Broker_Not_Found ''host file does not exist'')
      | Inl Io_Other \<Rightarrow> Inl Broker_Internal
      | Inr metadata \<Rightarrow>
          if limit < hm_len metadata
          then Inl (Broker_Too_Large (''host file exceeds '' @ show_nat limit @ '' bytes''))
          else
            res_bind (internal (read_regular_file_bounded fs (show_path path) limit)) (\<lambda>found.
              ok_or (Broker_Not_Found ''host file does not exist'') found))"

definition file_context :: "broker_file_read_request \<Rightarrow> string \<Rightarrow> eval_context" where
  "file_context req logical_path =
     default_eval_context\<lparr>ev_run := Some (default_run_context\<lparr>run_tool := ''host.file.'' @ bf_id req,
       run_args := [logical_path],
       run_ctx := [(''resource_id'', JString (bf_id req)),
         (''relative_path'', JString (or_default [] (bf_relative_path req)))]\<rparr>)\<rparr>"

definition logical_path_of :: "broker_file_read_request \<Rightarrow> string" where
  "logical_path_of req =
     (case bf_relative_path req of Some relative \<Rightarrow> bf_id req @ ''/'' @ relative | None \<Rightarrow> bf_id req)"

definition broker_read_file ::
  "broker_env \<Rightarrow> host_resources_config \<Rightarrow> broker_file_read_request
     \<Rightarrow> (broker_error, broker_file_read_result) result \<times> broker_event list" where
  "broker_read_file env config req =
     (case res_bind (ok_or (Broker_Forbidden (''host file root not declared: '' @ bf_id req))
                 (find_file config (bf_id req))) (\<lambda>resource.
           res_bind (ok_or Broker_Internal (be_current_dir env)) (\<lambda>project_dir.
           res_bind (external_host_file_root (be_fs env) project_dir
               (expand_home (be_home env) (hr_path resource))) (\<lambda>root.
           res_bind (resolve_host_file_path (be_fs env) (show_path root) (bf_relative_path req)) (\<lambda>resolved.
           res_bind (evaluate_broker_rule env (file_context req (logical_path_of req))) (\<lambda>_. Inr resolved))))) of
        Inl e \<Rightarrow> (Inl e, [])
      | Inr resolved \<Rightarrow>
          (res_bind (read_file_bounded (be_fs env) resolved MAX_HOST_FILE_BYTES) (\<lambda>bytes.
             if valid_utf8 bytes then Inr \<lparr>bd_path = logical_path_of req, bd_contents = bytes\<rparr>
             else Inl (Broker_Unprocessable ''host file is not valid UTF-8'')),
           [Read_File resolved]))"

section \<open>handler.rs\<close>

datatype reply =
    Reply_Health
  | Reply_Tool broker_tool_exec_result
  | Reply_File broker_file_read_result
  | Reply_Error broker_error
  | Reply_Status nat

definition reply_status :: "reply \<Rightarrow> nat" where
  "reply_status r =
     (case r of Reply_Error e \<Rightarrow> broker_error_status e | Reply_Status n \<Rightarrow> n | _ \<Rightarrow> 200)"

text \<open>
  The handler replies, fails without a reply when the registry cannot be loaded, or does not return.
\<close>

datatype broker_outcome = Replied reply | Failed resource_error | Blocked

definition handle_broker_connection ::
  "broker_env \<Rightarrow> string \<Rightarrow> string \<Rightarrow> stream \<Rightarrow> broker_outcome \<times> broker_event list" where
  "handle_broker_connection env config_path auth_token chunks =
     (case read_http_request chunks of
        Inl _ \<Rightarrow> (Replied (Reply_Status 400), [])
      | Inr request \<Rightarrow>
          if \<not> request_is_authenticated (rh_headers request) auth_token then (Replied (Reply_Status 403), [])
          else if rh_path request = ''/v1/health'' \<and> rh_method request = ''GET'' then (Replied Reply_Health, [])
          else if rh_path request \<notin> set [''/v1/health'', ''/v1/tool/exec'', ''/v1/file/read'']
          then (Replied (Reply_Status 404), [])
          else if rh_method request \<noteq> ''POST'' \<or> rh_path request = ''/v1/health''
          then (Replied (Reply_Status 405), [])
          else
            (case load_from_path (be_yaml env) (be_fs env) config_path of
               Inl e \<Rightarrow> (Failed e, [])
             | Inr config \<Rightarrow>
                 if rh_path request = ''/v1/tool/exec''
                 then (case be_json_tool env (rh_body request) of
                         None \<Rightarrow> (Replied (Reply_Status 400), [])
                       | Some req \<Rightarrow>
                           if \<not> validate_tool_request req then (Replied (Reply_Status 400), [])
                           else (case broker_exec_tool env config req of
                                   (None, evs) \<Rightarrow> (Blocked, evs)
                                 | (Some (Inl e), evs) \<Rightarrow> (Replied (Reply_Error e), evs)
                                 | (Some (Inr res), evs) \<Rightarrow> (Replied (Reply_Tool res), evs)))
                 else (case be_json_file env (rh_body request) of
                         None \<Rightarrow> (Replied (Reply_Status 400), [])
                       | Some req \<Rightarrow>
                           if \<not> validate_file_request req then (Replied (Reply_Status 400), [])
                           else (case broker_read_file env config req of
                                   (Inl e, evs) \<Rightarrow> (Replied (Reply_Error e), evs)
                                 | (Inr res, evs) \<Rightarrow> (Replied (Reply_File res), evs)))))"

text \<open>\<open>write_json\<close>: a reply that is too long is replaced by an error.\<close>

definition write_json :: "(reply \<Rightarrow> string) \<Rightarrow> reply \<Rightarrow> string" where
  "write_json encode r =
     (let json = encode r;
          (status, bytes) = (if MAX_RESPONSE_BYTES < length json then (500, encode (Reply_Status 500))
                             else (reply_status r, json))
      in broker_response_head status (length bytes) @ bytes)"

section \<open>The daemon's side (outcalld/src/api/bridge\_rules.rs)\<close>

definition rule_evaluate ::
  "bool option \<Rightarrow> ('c, 'p) cel_ops \<Rightarrow> 'p rule_engine \<Rightarrow> eval_context \<Rightarrow> daemon_answer" where
  "rule_evaluate bridge_up ops engine ctx =
     (case bridge_up of
        Some True \<Rightarrow> Daemon_Response True (Some (Some (engine_evaluate ops engine ctx)))
      | _ \<Rightarrow> Daemon_Response False None)"

section \<open>The token\<close>

lemma xor_eq_0_iff: "a XOR b = 0 \<longleftrightarrow> a = b" for a b :: "8 word"
proof
  assume "a XOR b = 0"
  moreover have "a = (a XOR b) XOR b" by (simp add: xor.assoc)
  ultimately show "a = b" by simp
qed simp

lemma byte_xor_0: "(of_nat (byte l) XOR of_nat (byte r) :: 8 word) = 0 \<longleftrightarrow> l = r"
proof -
  have "(of_nat (byte l) :: 8 word) = of_nat (byte r) \<longleftrightarrow> byte l mod 256 = byte r mod 256"
    by (simp add: word_of_nat_eq_iff take_bit_eq_mod)
  then show ?thesis by (simp add: xor_eq_0_iff)
qed

lemma or_fold_zero:
  "fold (\<lambda>(l, r) d. d OR (of_nat (byte l) XOR of_nat (byte r))) ps (d :: 8 word) = 0 \<longleftrightarrow>
     d = 0 \<and> (\<forall>(l, r)\<in>set ps. l = r)"
  by (induction ps arbitrary: d) (auto simp: or_eq_0_iff byte_xor_0)

lemma constant_time_eq_iff: "constant_time_eq left right \<longleftrightarrow> left = right"
proof (cases "length left = length right")
  case True
  then have "(\<forall>(l, r)\<in>set (zip left right). l = r) \<longleftrightarrow> left = right"
    by (induction left right rule: list_induct2) auto
  with True show ?thesis by (simp add: constant_time_eq_def or_fold_zero)
qed (auto simp: constant_time_eq_def)

section \<open>What the broker does for a request\<close>

text \<open>Canonical paths are their own canonical form, as \<open>std::fs::canonicalize\<close> documents.\<close>

definition canonical_fs :: "host_fs \<Rightarrow> bool" where
  "canonical_fs fs \<longleftrightarrow> (\<forall>s p. hf_canonicalize fs s = Inr p \<longrightarrow> hf_canonicalize fs (show_path p) = Inr p)"

text \<open>
  The conditions under which a tool runs and under which a file is read. The policy of the daemon allows a
  context when the deciding rule is an allow rule.
\<close>

definition tool_permitted ::
  "broker_env \<Rightarrow> host_resources_config \<Rightarrow> broker_tool_exec_request \<Rightarrow> string list \<Rightarrow> string list \<Rightarrow> string list \<Rightarrow> bool"
  where
  "tool_permitted env config req path args cwd \<longleftrightarrow>
     (\<exists>tool project_dir project md.
        find_tool config (bt_id req) = Some tool \<and> args = ht_default_args tool @ bt_args req
        \<and> be_current_dir env = Some project_dir \<and> hf_canonicalize (be_fs env) project_dir = Inr project
        \<and> prefix project cwd \<and> is_dir (be_fs env) cwd
        \<and> \<not> prefix project path \<and> hf_stat (be_fs env) (show_path path) = Inr md
        \<and> hm_type md = Path_File \<and> hm_mode md AND 73 \<noteq> 0)"

definition file_permitted ::
  "broker_env \<Rightarrow> host_resources_config \<Rightarrow> broker_file_read_request \<Rightarrow> string list \<Rightarrow> bool" where
  "file_permitted env config req path \<longleftrightarrow>
     (\<exists>resource project_dir project root.
        find_file config (bf_id req) = Some resource
        \<and> be_current_dir env = Some project_dir \<and> hf_canonicalize (be_fs env) project_dir = Inr project
        \<and> hf_canonicalize (be_fs env) (expand_home (be_home env) (hr_path resource)) = Inr root
        \<and> \<not> prefix project root \<and> (path = root \<or> is_dir (be_fs env) root \<and> prefix root path))"

definition policy_allows :: "('c, 'p) cel_ops \<Rightarrow> 'p rule_engine \<Rightarrow> eval_context \<Rightarrow> bool" where
  "policy_allows ops engine ctx \<longleftrightarrow>
     (\<exists>rule. deciding_rule ops (snapshot engine) ctx = Some rule \<and> cr_action rule = Rule_Allow)"

lemma internal_eq_Inr [result_simps]: "internal r = Inr v \<longleftrightarrow> r = Inr v"
  by (cases r) (simp_all add: internal_def)

lemma canonical_case_eq_Inr [result_simps]:
  "(case r of Inl Io_Not_Found \<Rightarrow> Inl a | Inl Io_Other \<Rightarrow> Inl b | Inr v \<Rightarrow> f v) = Inr p \<longleftrightarrow>
     (\<exists>v. r = Inr v \<and> f v = Inr p)"
  by (auto split: sum.split io_error.split)

lemma evaluate_broker_rule_Inr:
  "evaluate_broker_rule env ctx = Inr () \<longleftrightarrow>
     (\<exists>res. be_daemon env ctx = Daemon_Response True (Some (Some res)) \<and> er_decision res = Allow)"
proof (cases "be_daemon env ctx")
  case (Daemon_Response ok answer)
  then show ?thesis
    by (cases ok) (auto simp: evaluate_broker_rule_def split: option.splits intro: decision.exhaust)
qed (simp_all add: evaluate_broker_rule_def)

lemma resolve_tool_cwd_inside:
  assumes "resolve_tool_cwd fs project_dir requested = Inr cwd"
  shows "\<exists>project. hf_canonicalize fs project_dir = Inr project \<and> prefix project cwd \<and> is_dir fs cwd"
  using assms by (auto simp: resolve_tool_cwd_def result_simps split: if_split_asm)

lemma broker_rule_allows:
  assumes "be_daemon env = rule_evaluate up ops engine" and "evaluate_broker_rule env ctx = Inr ()"
  shows "up = Some True \<and> policy_allows ops engine ctx"
  using assms
  by (auto simp: evaluate_broker_rule_Inr rule_evaluate_def engine_evaluate_def evaluate_snapshot_deciding
      policy_allows_def blocked_result_def split: option.split_asm bool.split_asm)

lemma prepare_tool_permitted:
  assumes "prepare_tool env config req = Inr (path, args, cwd, vars)"
  shows "tool_permitted env config req path args cwd \<and> evaluate_broker_rule env (tool_context req cwd) = Inr ()"
proof -
  from assms obtain tool project_dir where t: "find_tool config (bt_id req) = Some tool"
    "be_current_dir env = Some project_dir" "resolve_tool_cwd (be_fs env) project_dir (bt_cwd req) = Inr cwd"
    "evaluate_broker_rule env (tool_context req cwd) = Inr ()"
    "resolve_tool_path (be_fs env) (be_home env) project_dir tool = Inr path"
    "args = ht_default_args tool @ bt_args req"
    by (auto simp: prepare_tool_def result_simps)
  from resolve_tool_path_outside [OF t(5)] obtain project md where
    "hf_canonicalize (be_fs env) project_dir = Inr project" "\<not> prefix project path"
    "hf_stat (be_fs env) (show_path path) = Inr md" "hm_type md = Path_File" "hm_mode md AND 73 \<noteq> 0"
    by blast
  moreover from resolve_tool_cwd_inside [OF t(3)] this(1)
  have "prefix project cwd" "is_dir (be_fs env) cwd" by auto
  ultimately show ?thesis using t(1,2,4,6) unfolding tool_permitted_def by blast
qed

lemma broker_exec_tool_permitted:
  assumes "broker_exec_tool env config req = (r, evs)" and "act \<in> set evs"
  shows "\<exists>path args cwd vars. act = Ran_Tool path args cwd vars
    \<and> tool_permitted env config req path args cwd \<and> evaluate_broker_rule env (tool_context req cwd) = Inr ()"
  using assms prepare_tool_permitted by (fastforce simp: broker_exec_tool_def split: sum.split_asm)

lemma resolve_host_file_path_inside:
  assumes "canonical_fs fs" and "hf_canonicalize fs s = Inr root"
    and "resolve_host_file_path fs (show_path root) relative = Inr path"
  shows "path = root \<or> is_dir fs root \<and> prefix root path"
proof -
  have "hf_canonicalize fs (show_path root) = Inr root" using assms(1,2) by (auto simp: canonical_fs_def)
  with assms(3) have "is_dir fs root \<Longrightarrow> prefix root path" "\<not> is_dir fs root \<Longrightarrow> path = root"
    by (auto simp: resolve_host_file_path_def result_simps split: if_split_asm)
  then show ?thesis by blast
qed

lemma broker_read_file_permitted:
  assumes "canonical_fs (be_fs env)" and "broker_read_file env config req = (r, evs)" and "act \<in> set evs"
  shows "\<exists>path. act = Read_File path \<and> file_permitted env config req path
    \<and> evaluate_broker_rule env (file_context req (logical_path_of req)) = Inr ()"
proof -
  from assms(2,3) obtain resource project_dir root path where f: "find_file config (bf_id req) = Some resource"
    "be_current_dir env = Some project_dir"
    "external_host_file_root (be_fs env) project_dir (expand_home (be_home env) (hr_path resource)) = Inr root"
    "resolve_host_file_path (be_fs env) (show_path root) (bf_relative_path req) = Inr path"
    "evaluate_broker_rule env (file_context req (logical_path_of req)) = Inr ()" "act = Read_File path"
    by (auto simp: broker_read_file_def result_simps split: sum.splits)
  from f(3) obtain project where "hf_canonicalize (be_fs env) project_dir = Inr project"
    "hf_canonicalize (be_fs env) (expand_home (be_home env) (hr_path resource)) = Inr root" "\<not> prefix project root"
    by (auto simp: external_host_file_root_def result_simps split: if_splits)
  moreover from resolve_host_file_path_inside [OF assms(1) this(2) f(4)]
  have "path = root \<or> is_dir (be_fs env) root \<and> prefix root path" .
  ultimately show ?thesis using f(1,2,5,6) unfolding file_permitted_def by blast
qed

lemma authenticated_token:
  assumes "request_is_authenticated headers token"
  shows "\<exists>scheme. map_of headers ''authorization'' = Some (scheme @ '' '' @ token)
    \<and> map to_ascii_lower scheme = ''bearer''"
  using assms
  by (auto simp: request_is_authenticated_def constant_time_eq_iff split_once_Some split: option.splits)

lemma handler_cases:
  assumes "handle_broker_connection env config_path token chunks = (outcome, evs)" and "evs \<noteq> []"
  obtains (tool_case) request config req r where "read_http_request chunks = Inr request"
      "request_is_authenticated (rh_headers request) token" "rh_method request = ''POST''"
      "load_from_path (be_yaml env) (be_fs env) config_path = Inr config"
      "be_json_tool env (rh_body request) = Some req" "validate_tool_request req"
      "broker_exec_tool env config req = (r, evs)"
  | (file_case) request config req r where "read_http_request chunks = Inr request"
      "request_is_authenticated (rh_headers request) token" "rh_method request = ''POST''"
      "load_from_path (be_yaml env) (be_fs env) config_path = Inr config"
      "be_json_file env (rh_body request) = Some req" "validate_file_request req"
      "broker_read_file env config req = (r, evs)"
proof -
  from assms obtain request where r: "read_http_request chunks = Inr request"
    "request_is_authenticated (rh_headers request) token"
    by (auto simp: handle_broker_connection_def split: sum.splits if_splits)
  from assms r have m: "rh_method request = ''POST''"
    by (auto simp: handle_broker_connection_def split: if_splits)
  from assms r m obtain config where c: "load_from_path (be_yaml env) (be_fs env) config_path = Inr config"
    by (auto simp: handle_broker_connection_def split: sum.splits if_splits)
  show ?thesis
  proof (cases "rh_path request = ''/v1/tool/exec''")
    case True
    with assms r m c obtain req where "be_json_tool env (rh_body request) = Some req" "validate_tool_request req"
      by (auto simp: handle_broker_connection_def split: option.splits if_splits)
    with assms r m c True tool_case show ?thesis
      by (cases "broker_exec_tool env config req")
        (auto simp: handle_broker_connection_def split: option.splits sum.splits)
  next
    case False
    with assms r m c obtain req where "be_json_file env (rh_body request) = Some req" "validate_file_request req"
      by (auto simp: handle_broker_connection_def split: option.splits if_splits)
    with assms r m c False file_case show ?thesis
      by (cases "broker_read_file env config req")
        (auto simp: handle_broker_connection_def split: sum.splits if_splits)
  qed
qed


section \<open>An example\<close>

text \<open>A client reads a file below a declared directory; the rules of \<open>demo_rule_set\<close> allow it.\<close>

definition example_wire :: string where
  "example_wire = ''POST /v1/file/read HTTP/1.1'' @ crlf @ ''Authorization: Bearer k'' @ crlf @ crlf"

definition example_fs :: host_fs where
  "example_fs =
     \<lparr>hf_canonicalize = (\<lambda>s. ok_or Io_Not_Found (map_of
        [(''/p'', [''p'']), (''/d'', [''d'']), (''/d/f'', [''d'', ''f''])] s)),
      hf_lstat = (\<lambda>s. Inr \<lparr>hm_type = Path_File, hm_mode = 0, hm_len = 2\<rparr>),
      hf_stat = (\<lambda>s. Inr \<lparr>hm_type = (if s = ''/d/f'' then Path_File else Path_Dir), hm_mode = 0, hm_len = 2\<rparr>),
      hf_open = (\<lambda>s. Some (Path_File, Some ''hi''))\<rparr>"

definition example_registry :: host_resources_config where
  "example_registry =
     \<lparr>hc_version = ''1'', hc_tools = [], hc_files = [\<lparr>hr_id = ''d'', hr_path = ''/d'', hr_mode = ''read-only''\<rparr>],
      hc_auth_notes = []\<rparr>"

definition example_read :: broker_file_read_request where
  "example_read = \<lparr>bf_id = ''d'', bf_relative_path = Some ''f''\<rparr>"

definition example_engine :: "string rule_engine" where
  "example_engine = \<lparr>re_rules_dir = [], re_rule_set = demo_rule_set\<rparr>"

definition example_broker :: broker_env where
  "example_broker =
     \<lparr>be_fs = example_fs, be_home = None, be_var = (\<lambda>_. None), be_current_dir = Some ''/p'',
      be_daemon = rule_evaluate (Some True) demo_cel example_engine,
      be_child = \<lparr>ch_spawned = False, ch_polls = [], ch_reaped = True, ch_stdout = Pipe_Failed,
        ch_stderr = Pipe_Failed, ch_stdin_written = False\<rparr>,
      be_yaml = (\<lambda>_. Some example_registry), be_json_tool = (\<lambda>_. None), be_json_file = (\<lambda>_. Some example_read)\<rparr>"

lemmas example_defs = example_fs_def example_registry_def example_read_def example_engine_def example_broker_def

lemma example_wire_parts:
  "find_header_end example_wire = Some 56" "length example_wire = 56"
  "str_lines (take 52 example_wire) = [''POST /v1/file/read HTTP/1.1'', ''Authorization: Bearer k'']"
  "split_whitespace ''POST /v1/file/read HTTP/1.1'' = [''POST'', ''/v1/file/read'', ''HTTP/1.1'']"
  "valid_utf8 (take 52 example_wire)"
  "broker_header ''Authorization: Bearer k'' [] = Inr [(''authorization'', ''Bearer k'')]"
  "find_header_end [] = None"
  by code_simp+

lemma example_request_line:
  "parse_request_line ''POST /v1/file/read HTTP/1.1'' = Inr (''POST'', ''/v1/file/read'')"
  by (simp add: parse_request_line_def example_wire_parts MAX_PATH_BYTES_def is_ascii_upper_def)

lemma example_http_request:
  "read_http_request [Some example_wire] = Inr \<lparr>rh_method = ''POST'', rh_path = ''/v1/file/read'',
     rh_headers = [(''authorization'', ''Bearer k'')], rh_body = []\<rparr>"
proof -
  have "example_wire \<noteq> []" using example_wire_parts(2) by auto
  then have "stream_read 8192 [Some example_wire] = (Some example_wire, [])"
    by (simp add: stream_read_def example_wire_parts)
  then have "read_head [] [Some example_wire] = Inr (example_wire, 52, [])"
    using \<open>example_wire \<noteq> []\<close>
    by (simp add: read_head.simps example_wire_parts MAX_BROKER_HEADER_BYTES_def)
  then show ?thesis
    by (simp add: read_http_request_def example_wire_parts example_request_line content_length_def
        MAX_BROKER_BODY_BYTES_def read_body.simps)
qed

lemma example_canonical: "canonical_fs (be_fs example_broker)"
  by (auto simp: canonical_fs_def example_defs show_path_def split: if_splits)

lemma example_read_allowed: "evaluate_broker_rule example_broker ctx = Inr ()" if "ev_dns ctx = None"
proof -
  have "deciding_rule demo_cel demo_rule_set ctx = Some demo_web"
    using that by (simp add: demo_eval_defs default_dns_context_def)
  then show ?thesis
    by (simp add: evaluate_broker_rule_Inr example_broker_def rule_evaluate_def engine_evaluate_def
        evaluate_snapshot_deciding snapshot_def example_engine_def demo_web_def)
qed

lemma example_load: "load_from_path (be_yaml example_broker) (be_fs example_broker) ''/c'' = Inr example_registry"
proof -
  have "validate_resources_config example_registry = Inr ()" "valid_utf8 ''hi''" by code_simp+
  then show ?thesis
    by (simp add: load_from_path_def parse_config_def read_regular_string_bounded_def
        read_regular_file_bounded_def path_entry_def validate_regular_file_def example_fs_def example_broker_def
        MAX_HOST_RESOURCE_CONFIG_BYTES_def)
qed

lemma example_parts:
  "be_fs example_broker = example_fs" "be_home example_broker = None"
  "be_current_dir example_broker = Some ''/p''" "be_json_file example_broker b = Some example_read"
  by (simp_all add: example_broker_def)

lemma example_handled:
  "handle_broker_connection example_broker ''/c'' ''k'' [Some example_wire]
     = (Replied (Reply_File \<lparr>bd_path = ''d/f'', bd_contents = ''hi''\<rparr>), [Read_File [''d'', ''f'']])"
proof -
  have "request_is_authenticated [(''authorization'', ''Bearer k'')] ''k''" by code_simp
  moreover have "validate_file_request example_read"
    by (simp add: validate_file_request_def example_read_def validate_resource_id_def ensure_def is_ok_def
        MAX_RESOURCE_ID_BYTES_def MAX_PATH_BYTES_def is_absolute_def ascii_defs)
  moreover have "broker_read_file example_broker example_registry example_read
      = (Inr \<lparr>bd_path = ''d/f'', bd_contents = ''hi''\<rparr>, [Read_File [''d'', ''f'']])"
  proof -
    have "find_file example_registry ''d'' = Some \<lparr>hr_id = ''d'', hr_path = ''/d'', hr_mode = ''read-only''\<rparr>"
      "external_host_file_root example_fs ''/p'' ''/d'' = Inr [''d'']"
      "resolve_host_file_path example_fs ''/d'' (Some ''f'') = Inr [''d'', ''f'']" "valid_utf8 ''hi''"
      by code_simp+
    moreover have "read_file_bounded example_fs [''d'', ''f''] MAX_HOST_FILE_BYTES = Inr ''hi''"
      by (simp add: read_file_bounded_def read_regular_file_bounded_def path_entry_def validate_regular_file_def
          internal_def example_fs_def MAX_HOST_FILE_BYTES_def)
    moreover have "evaluate_broker_rule example_broker (file_context example_read p) = Inr ()" for p
      by (rule example_read_allowed) (simp add: file_context_def default_eval_context_def)
    ultimately show ?thesis
      by (simp add: broker_read_file_def example_parts example_read_def expand_home_def strip_prefix_def logical_path_of_def
          show_path_def)
  qed
  ultimately show ?thesis
    by (simp add: handle_broker_connection_def example_http_request example_load example_parts(2-4))
qed


end
