(* ===== verification/Spec2Isabelle.thy ===== *)
theory Spec2Isabelle
  imports Operator_Api Http_Proxy Agent_Helper Host_Broker
begin

text \<open>
  \<^bold>\<open>Outcall: a verification development.\<close>

  Outcall runs coding agents in Docker containers and lets them reach the network only as far as a
  policy allows. The daemon outcalld loads CEL rules from YAML files, answers the agents' DNS queries,
  proxies their HTTP and TLS connections, opens direct connections in the kernel's packet filter for a
  limited time, and serves two APIs: one for the operator, one for the agents. This development models
  the daemon's enforcement path, the shim in the containers and the broker on the host, and proves what
  they promise.

  \<^bold>\<open>How the parts interact.\<close> The rule loader reads the rule files through the state-file layer and
  gives a rule set to the engine. DNS filter, proxy and agent API each build an evaluation context from
  what a peer asks and from the identity Docker reports for the peer, and act on the engine's verdict
  and the egress settings of the rule that decided. The DNS filter caches answers and inserts dynamic
  rules; a reload of the policy revokes both. The Docker manager creates the containers, tells the
  enforcement points who a peer is, and broadcasts what happens to containers; sessions, rate windows and
  dynamic rules are dropped on these events. Agents submit rule requests; the operator approves them,
  which writes a rule file and reloads the policy. In the containers a shim asks the agent API before it
  runs a command; on the operator's machine the host broker asks the daemon before it runs a tool or
  reads a file for an agent.

  \<^bold>\<open>Theories and sources\<close> (paths under src/outcalld/src unless said otherwise):
  \<^item> Outcall\_Prelude: results, folds with errors, bytes and strings as the standard library treats them,
    decimal numbers; the collections of lemmas the other theories use.
  \<^item> State\_File: state\_file.rs over a file system in which every system call can fail and other
    processes can act between two calls (a schedule of events). Writes are all or nothing, new files
    never replace, reads are bounded, and a write is read back.
  \<^item> Api\_Types: the shared data of src/outcall-api/src.
  \<^item> Rule\_Loader, Rule\_Engine: rules/loader.rs, rules/model.rs, rules/engine.rs. Loaded rule sets are
    well formed, definitions are expanded completely, a validated file loads; evaluation denies by
    default and returns the egress of the rule that decided; every reachable engine state is well formed.
    The locale \<open>policy_source\<close> is what the enforcement points rely on.
  \<^item> Ip\_Address, Net\_Cidr: address\_policy.rs, network\_cidr.rs, network/allocation.rs with the
    textual forms of addresses.
  \<^item> Bridge\_Policy, Nft\_Controller, Dynamic\_Rules: bridge/nft.rs and bridge/config.rs, dynamic/nft.rs,
    dynamic/mod.rs and its submodules. The generated ruleset has a meaning on packets; the controller is
    an interface (a locale) with the nft command line as its provider and a simulated kernel as an
    instance; the records stay complete whatever commands fail.
  \<^item> Dns\_Cache, Dns\_Handler: dns/records.rs, dns/cache.rs, dns/handler.rs, and the options of
    dns/mod.rs and dns/resolver.rs. The LRU crate is an interface with a list as instance.
  \<^item> Rate\_Limiter, Agent\_Context: rate\_limit.rs, agent\_api/limiter.rs, agent\_api/context.rs.
  \<^item> Loader\_Frames, Rule\_Requests: agent\_api/rule\_requests.rs, api/rule\_requests.rs,
    api/policy\_reload.rs: the persistent queue, approval with its roll-back, reload and restore.
  \<^item> Agent\_Api: the rest of agent\_api: sessions, peers, handlers, clean-up.
  \<^item> Proxy\_Http, Proxy\_Tls, Http\_Proxy: proxy/http.rs, proxy/tls.rs, and the handlers, the upstream
    side, the transfers and the server of proxy/.
  \<^item> Timestamp: timestamp.rs; dates agree with the calendar counted day by day.
  \<^item> Container\_Request, Docker\_Identity, Docker\_Containers: container\_request.rs, bind\_mount.rs,
    container\_env.rs, managed\_network.rs and docker/: what is accepted, the confinement of every
    container handed to Docker, the life cycle with its roll-back, the index from addresses to containers
    with its generation counter, and the event watcher, whose events the agent API's clean-up reads.
  \<^item> Network\_Manager: network/mod.rs, network/metadata.rs, network/name.rs: a created network is checked
    against what was asked for, or removed again; the laws of \<open>ipnet\<close> carry the subnet choice.
  \<^item> Agent\_Helper: src/outcall-agent/src, the shim in the containers. The command it starts is the one it
    asked permission for, and the one the daemon's agent API evaluated.
  \<^item> Process\_Control, Host\_Resources, Host\_Broker: src/outcall/src/process\_control.rs,
    host\_resources.rs, the reads of secure\_fs.rs, and host\_broker/: what agents can do on the operator's
    machine, as far as the registry declares it and the daemon's policy allows it.

  \<^bold>\<open>Conventions.\<close> Strings are lists of bytes (\<open>char\<close>). Errors are the left side of a sum, one constructor
  per error of the source, with the fields a caller can see and without message texts. A \<open>HashMap\<close> is an
  association list read with \<open>map_of\<close>. Durations and times are natural numbers of nanoseconds or seconds
  as the source has them. Atomic counters wrap at 64 bits. Log output is left out. What an async task
  awaits is an argument: the clock, random bytes, the outcome of a lookup or of a spawned task, the bytes
  a peer sends. Locks serialise the operations they guard, so an operation is a function of the state and
  interleavings are sequences of operations.

  \<^bold>\<open>Parameters.\<close> Code outside the repository is an argument: the YAML parser, CEL compiler and
  interpreter (\<open>loader_ext\<close>, \<open>cel_ops\<close>), serde\_json (\<open>request_json\<close>), url and httparse
  (\<open>context_ext\<close>, \<open>proxy_ext\<close>), ipnet (\<open>net_ext\<close>), the LRU cache (\<open>lru_ops\<close>), nft (\<open>nft_tool\<close>). Where a property
  relies on such code, the reliance is a hypothesis with an instance beside it.

  \<^bold>\<open>Loops and bounds.\<close> Recursions over lists are structural; the expansion of definitions and the UTF-8
  loops have measures. The two loops of the ClientHello parser are partial functions and proved to
  return for every input. The allocation of subnets and the rendering of addresses are bounded by their
  lists. No definition needs fuel that could run out unnoticed: the definition expander's depth is the
  source's own limit.

  \<^bold>\<open>Not modelled.\<close> Sockets, TLS termination and certificates (ca.rs holds no keys of the data path),
  the Docker client (its answers are arguments), the daemon's start-up and signal handling, the accept loop
  of the host broker, and the rest of the command line client src/outcall with its recipes and user
  interface: they call Docker, the kernel, the terminal or HTTP and keep little state of their own.
  Time-outs are outcomes, not measured.
\<close>

end
